(* ===== verification/Go_Prelude.thy ===== *)
theory Go_Prelude
  imports Main "HOL-Library.Char_ord" "HOL-Library.List_Lexorder"
begin

text \<open>
  The prelude of the development. It holds what every component shares: Go's \<open>error\<close>
  values, the two collections of rules the component proofs use, and generic lemmas about
  lists.

  A Go string is a sequence of bytes, and so is \<^typ>\<open>string\<close>: a byte slice and a string
  are the same type here, since the code only ever converts between the two. Byte order on
  strings (what \<^verbatim>\<open>slices.Sort\<close> and \<^verbatim>\<open>LC_ALL=C sort\<close> use) is the lexicographic
  order that \<^verbatim>\<open>Char_ord\<close> and \<^verbatim>\<open>List_Lexorder\<close> define.
\<close>

section \<open>Errors\<close>

text \<open>
  \<^verbatim>\<open>errors.New\<close> makes a sentinel (two sentinels of the repository never share their
  text, so the text stands for the identity), an operating system call fails with an
  \<^verbatim>\<open>errno\<close>, and \<^verbatim>\<open>fmt.Errorf\<close> with \<^verbatim>\<open>%w\<close> verbs wraps one or more
  errors: the string is the text before the wrapped error, the list holds what is wrapped.
  \<^verbatim>\<open>context.Canceled\<close> is a sentinel of the standard library.
\<close>

datatype errno = ENOENT | EEXIST | EBUSY | EIO | ENOSPC | EACCES | EINVAL | ENOTDIR

datatype goerr =
    ErrNew string
  | Errno errno
  | Errorf string "goerr list"

text \<open>\<^verbatim>\<open>errors.Is\<close>: the error itself, or anything it wraps.\<close>

fun errors_Is :: "goerr \<Rightarrow> goerr \<Rightarrow> bool" where
  "errors_Is (Errorf s es) t = (Errorf s es = t \<or> list_ex (\<lambda>e. errors_Is e t) es)"
| "errors_Is (ErrNew s) t = (ErrNew s = t)"
| "errors_Is (Errno n) t = (Errno n = t)"

text \<open>\<^verbatim>\<open>%q\<close> in an error text, without the escapes it writes for unusual bytes.\<close>

definition quoted :: "string \<Rightarrow> string" where
  "quoted s = [CHR 0x22] @ s @ [CHR 0x22]"

type_synonym 'a result = "goerr + 'a"

definition is_ok :: "'a result \<Rightarrow> bool" where
  "is_ok r = (case r of Inl _ \<Rightarrow> False | Inr _ \<Rightarrow> True)"

lemma is_ok_simps [simp]: "is_ok (Inr x)" "\<not> is_ok (Inl e)"
  by (simp_all add: is_ok_def)

lemma is_ok_iff: "is_ok r \<longleftrightarrow> (\<exists>x. r = Inr x)"
  by (cases r) auto

section \<open>Collections\<close>

named_theorems keeps_intro \<open>an operation keeps an invariant of the world\<close>
named_theorems go_defs \<open>definitions of library calls that evaluation unfolds\<close>

section \<open>Lists\<close>

lemma takeWhile_all: "(\<And>x. x \<in> set xs \<Longrightarrow> P x) \<Longrightarrow> takeWhile P xs = xs"
  by (induction xs) auto

lemma sort_set_empty_iff: "sort xs = [] \<longleftrightarrow> xs = []"
  by (metis length_0_conv length_sort)

lemma map_of_filter_last: "map_of (rev (xs @ [(k, v)])) k' = (if k' = k then Some v else map_of (rev xs) k')"
  by simp

end
