(* ===== verification/Go_Strings.thy ===== *)
theory Go_Strings
  imports Go_Prelude "HOL-Library.Sublist"
begin

text \<open>
  The functions of Go's \<^verbatim>\<open>strings\<close> and \<^verbatim>\<open>bytes\<close> packages the repository calls,
  on byte strings. White space follows \<^verbatim>\<open>unicode.IsSpace\<close>: the white space runes are
  kept as the byte sequences that encode them, which is enough because an encoding of one
  of these runes can only start at a byte that starts a rune.
\<close>

section \<open>Prefixes and suffixes\<close>

definition HasPrefix :: "string \<Rightarrow> string \<Rightarrow> bool" where
  "HasPrefix s p = (take (length p) s = p)"

definition HasSuffix :: "string \<Rightarrow> string \<Rightarrow> bool" where
  "HasSuffix s p = (length p \<le> length s \<and> drop (length s - length p) s = p)"

definition TrimPrefix :: "string \<Rightarrow> string \<Rightarrow> string" where
  "TrimPrefix s p = (if HasPrefix s p then drop (length p) s else s)"

definition TrimSuffix :: "string \<Rightarrow> string \<Rightarrow> string" where
  "TrimSuffix s p = (if HasSuffix s p then take (length s - length p) s else s)"

lemma HasPrefix_iff: "HasPrefix s p \<longleftrightarrow> (\<exists>t. s = p @ t)"
  unfolding HasPrefix_def by (metis append_eq_conv_conj append_take_drop_id)

lemma HasPrefix_append [simp]: "HasPrefix (p @ t) p"
  by (simp add: HasPrefix_iff)

lemma HasPrefix_Nil [simp]: "HasPrefix s []"
  by (simp add: HasPrefix_def)

lemma HasPrefix_refl [simp]: "HasPrefix s s"
  by (simp add: HasPrefix_def)

lemma HasPrefix_Cons [simp]: "HasPrefix (c # s) (d # p) \<longleftrightarrow> c = d \<and> HasPrefix s p"
  by (auto simp: HasPrefix_def)

lemma HasPrefix_Nil_left [simp]: "HasPrefix [] p \<longleftrightarrow> p = []"
  by (auto simp: HasPrefix_def)

lemma HasSuffix_iff: "HasSuffix s p \<longleftrightarrow> (\<exists>t. s = t @ p)"
proof
  assume h: "HasSuffix s p"
  then have "s = take (length s - length p) s @ p"
    unfolding HasSuffix_def by (metis append_take_drop_id)
  then show "\<exists>t. s = t @ p" ..
next
  assume "\<exists>t. s = t @ p"
  then show "HasSuffix s p" by (auto simp: HasSuffix_def)
qed

lemma HasSuffix_append [simp]: "HasSuffix (t @ p) p"
  by (auto simp: HasSuffix_iff)

lemma TrimPrefix_append [simp]: "TrimPrefix (p @ t) p = t"
  by (simp add: TrimPrefix_def)

lemma TrimSuffix_append [simp]: "TrimSuffix (t @ p) p = t"
  by (simp add: TrimSuffix_def)

section \<open>Searching: Cut, Contains, Split, Join\<close>

text \<open>\<^verbatim>\<open>Cut\<close> splits around the first occurrence of the separator.\<close>

fun Cut :: "string \<Rightarrow> string \<Rightarrow> string \<times> string \<times> bool" where
  "Cut [] sep = (if sep = [] then ([], [], True) else ([], [], False))"
| "Cut (c # s) sep =
     (if HasPrefix (c # s) sep then ([], drop (length sep) (c # s), True)
      else (case Cut s sep of (before, after, found) \<Rightarrow> (c # before, after, found)))"

definition Contains :: "string \<Rightarrow> string \<Rightarrow> bool" where
  "Contains s sub = snd (snd (Cut s sub))"

lemma Cut_found: "Cut s sep = (b, a, True) \<Longrightarrow> s = b @ sep @ a"
proof (induction s sep arbitrary: b rule: Cut.induct)
  case (1 sep)
  then show ?case by (auto split: if_splits)
next
  case (2 c s sep)
  show ?case
  proof (cases "HasPrefix (c # s) sep")
    case True
    with 2 show ?thesis by (auto simp: HasPrefix_def) (metis append_take_drop_id)
  next
    case False
    obtain b' a' f' where c: "Cut s sep = (b', a', f')" by (cases "Cut s sep")
    with False "2.prems" have "b = c # b'" "a = a'" "f'" by auto
    with "2.IH" [OF False] c show ?thesis by auto
  qed
qed

lemma Cut_not_found: "Cut s sep = (b, a, False) \<Longrightarrow> b = s \<and> a = []"
proof (induction s sep arbitrary: b rule: Cut.induct)
  case (1 sep)
  then show ?case by (auto split: if_splits)
next
  case (2 c s sep)
  obtain b' a' f' where c: "Cut s sep = (b', a', f')" by (cases "Cut s sep")
  with 2 show ?case by (auto split: if_splits)
qed

lemma Cut_here: "HasPrefix s sep \<Longrightarrow> Cut s sep = ([], drop (length sep) s, True)"
  by (cases s) auto

lemma Contains_iff: "Contains s sub \<longleftrightarrow> (\<exists>b a. s = b @ sub @ a)"
proof
  assume "Contains s sub"
  then obtain b a where "Cut s sub = (b, a, True)"
    unfolding Contains_def by (metis prod.collapse)
  then show "\<exists>b a. s = b @ sub @ a" by (blast dest: Cut_found)
next
  assume "\<exists>b a. s = b @ sub @ a"
  then obtain b a where "s = b @ sub @ a" by blast
  then show "Contains s sub"
  proof (induction b arbitrary: s)
    case Nil
    then show ?case by (simp add: Contains_def Cut_here)
  next
    case (Cons x b)
    then have "Contains (b @ sub @ a) sub" by simp
    with Cons.prems show ?case by (auto simp: Contains_def split: prod.splits)
  qed
qed

text \<open>The first occurrence is the one found: the part before it ends at no earlier one.\<close>

lemma HasPrefix_take: "HasPrefix s p \<Longrightarrow> length p \<le> n \<Longrightarrow> HasPrefix (take n s) p"
  by (simp add: HasPrefix_def min_absorb1)

lemma Cut_first:
  assumes "\<And>b' a'. b @ sep = b' @ sep @ a' \<Longrightarrow> a' = []"
  shows "Cut (b @ sep @ a) sep = (b, a, True)"
  using assms
proof (induction b)
  case Nil
  show ?case by (simp add: Cut_here)
next
  case (Cons x b)
  have np: "\<not> HasPrefix (x # b @ sep @ a) sep"
  proof
    assume "HasPrefix (x # b @ sep @ a) sep"
    then have "HasPrefix (take (length (x # b @ sep)) ((x # b @ sep) @ a)) sep"
      by (intro HasPrefix_take) auto
    then have "HasPrefix (x # b @ sep) sep" by simp
    then obtain t where t: "x # b @ sep = sep @ t" by (auto simp: HasPrefix_iff)
    with Cons.prems [of "[]" t] have "t = []" by simp
    with t have "length (x # b @ sep) = length sep" by simp
    then show False by simp
  qed
  have "b @ sep = b' @ sep @ a' \<Longrightarrow> a' = []" for b' a'
    using Cons.prems [of "x # b'" a'] by simp
  with Cons.IH have "Cut (b @ sep @ a) sep = (b, a, True)" by blast
  with np show ?case by simp
qed

lemma Cut_absent: "\<not> Contains s sep \<Longrightarrow> Cut s sep = (s, [], False)"
  by (cases "Cut s sep") (auto simp: Contains_def dest: Cut_not_found)

lemma Cut_char: "c \<notin> set b \<Longrightarrow> Cut (b @ c # a) [c] = (b, a, True)"
  by (induction b) auto

lemma Cut_before: "Cut s [c] = (b, a, f) \<Longrightarrow> c \<notin> set b"
  by (induction s "[c]" arbitrary: b rule: Cut.induct) (auto split: if_splits prod.splits)

text \<open>\<^verbatim>\<open>Split\<close> and \<^verbatim>\<open>SplitSeq\<close> by a one byte separator, and \<^verbatim>\<open>Join\<close>.\<close>

fun Split :: "char \<Rightarrow> string \<Rightarrow> string list" where
  "Split c [] = [[]]"
| "Split c (x # xs) =
     (if x = c then [] # Split c xs
      else (case Split c xs of [] \<Rightarrow> [[x]] | w # ws \<Rightarrow> (x # w) # ws))"

fun Join :: "string list \<Rightarrow> string \<Rightarrow> string" where
  "Join [] sep = []"
| "Join [w] sep = w"
| "Join (w # v # ws) sep = w @ sep @ Join (v # ws) sep"

lemma Split_not_Nil [simp]: "Split c s \<noteq> []"
  by (induction c s rule: Split.induct) (auto split: list.splits)

lemma Split_no_sep: "c \<notin> set s \<Longrightarrow> Split c s = [s]"
  by (induction s) auto

lemma Split_append: "c \<notin> set w \<Longrightarrow> Split c (w @ c # s) = w # Split c s"
  by (induction w) auto

lemma Split_pieces: "w \<in> set (Split c s) \<Longrightarrow> c \<notin> set w"
  by (induction c s arbitrary: w rule: Split.induct) (force split: list.splits if_splits)+

lemma Join_Cons: "Join (w # ws) sep = (if ws = [] then w else w @ sep @ Join ws sep)"
  by (cases ws) auto

lemma Join_append:
  "ws \<noteq> [] \<Longrightarrow> vs \<noteq> [] \<Longrightarrow> Join (ws @ vs) sep = Join ws sep @ sep @ Join vs sep"
  by (induction ws) (auto simp: Join_Cons)

lemma Split_Join:
  "ws \<noteq> [] \<Longrightarrow> (\<And>w. w \<in> set ws \<Longrightarrow> c \<notin> set w) \<Longrightarrow> Split c (Join ws [c]) = ws"
  by (induction ws) (auto simp: Join_Cons Split_no_sep Split_append)

lemma Join_Split: "Join (Split c s) [c] = s"
  by (induction c s rule: Split.induct) (auto simp: Join_Cons split: list.splits)

lemma Split_snoc_sep: "Split c (s @ [c]) = Split c s @ [[]]"
  by (induction s) (auto split: list.splits simp: append_eq_Cons_conv)

section \<open>Trimming and fields\<close>

definition TrimLeft :: "string \<Rightarrow> string \<Rightarrow> string" where
  "TrimLeft s cutset = dropWhile (\<lambda>c. c \<in> set cutset) s"

text \<open>The encodings of the runes \<^verbatim>\<open>unicode.IsSpace\<close> accepts.\<close>

definition space_seqs :: "string list" where
  "space_seqs =
     [[CHR 0x09], [CHR 0x0A], [CHR 0x0B], [CHR 0x0C], [CHR 0x0D], [CHR 0x20],
      [CHR 0xC2, CHR 0x85], [CHR 0xC2, CHR 0xA0], [CHR 0xE1, CHR 0x9A, CHR 0x80],
      [CHR 0xE2, CHR 0x80, CHR 0x80], [CHR 0xE2, CHR 0x80, CHR 0x81],
      [CHR 0xE2, CHR 0x80, CHR 0x82], [CHR 0xE2, CHR 0x80, CHR 0x83],
      [CHR 0xE2, CHR 0x80, CHR 0x84], [CHR 0xE2, CHR 0x80, CHR 0x85],
      [CHR 0xE2, CHR 0x80, CHR 0x86], [CHR 0xE2, CHR 0x80, CHR 0x87],
      [CHR 0xE2, CHR 0x80, CHR 0x88], [CHR 0xE2, CHR 0x80, CHR 0x89],
      [CHR 0xE2, CHR 0x80, CHR 0x8A], [CHR 0xE2, CHR 0x80, CHR 0xA8],
      [CHR 0xE2, CHR 0x80, CHR 0xA9], [CHR 0xE2, CHR 0x80, CHR 0xAF],
      [CHR 0xE2, CHR 0x81, CHR 0x9F], [CHR 0xE3, CHR 0x80, CHR 0x80]]"

text \<open>The white space sequence a string starts with, if any.\<close>

definition lead_space :: "string list \<Rightarrow> string \<Rightarrow> string option" where
  "lead_space seqs s = find (\<lambda>q. q \<noteq> [] \<and> HasPrefix s q) seqs"

lemma lead_space_shorter:
  "lead_space seqs s = Some q \<Longrightarrow> length (drop (length q) s) < length s"
  by (auto simp: lead_space_def find_Some_iff HasPrefix_iff)

function trim_lead :: "string list \<Rightarrow> string \<Rightarrow> string" where
  "trim_lead seqs s =
     (case lead_space seqs s of None \<Rightarrow> s | Some q \<Rightarrow> trim_lead seqs (drop (length q) s))"
  by pat_completeness auto
termination
  by (relation "measure (\<lambda>(seqs, s). length s)") (auto dest: lead_space_shorter simp del: length_drop)

declare trim_lead.simps [simp del]

definition TrimSpace :: "string \<Rightarrow> string" where
  "TrimSpace s = rev (trim_lead (map rev space_seqs) (rev (trim_lead space_seqs s)))"

function fields_from :: "string \<Rightarrow> string \<Rightarrow> string list" where
  "fields_from cur s =
     (case lead_space space_seqs s of
        Some q \<Rightarrow> (if cur = [] then [] else [cur]) @ fields_from [] (drop (length q) s)
      | None \<Rightarrow> (case s of [] \<Rightarrow> if cur = [] then [] else [cur]
                         | c # cs \<Rightarrow> fields_from (cur @ [c]) cs))"
  by pat_completeness auto
termination
  by (relation "measure (\<lambda>(cur, s). length s)") (auto dest: lead_space_shorter simp del: length_drop)

declare fields_from.simps [simp del]

definition Fields :: "string \<Rightarrow> string list" where
  "Fields s = fields_from [] s"

text \<open>
  \<^verbatim>\<open>EqualFold\<close> against a string of hexadecimal digits. Unicode simple folding maps
  no rune outside ASCII to a hexadecimal digit, so folding the ASCII letters decides it.
\<close>

definition ascii_lower :: "char \<Rightarrow> char" where
  "ascii_lower c =
     (if of_char c \<ge> (65::nat) \<and> of_char c \<le> (90::nat) then char_of (of_char c + (32::nat)) else c)"

definition EqualFold :: "string \<Rightarrow> string \<Rightarrow> bool" where
  "EqualFold s t = (map ascii_lower s = map ascii_lower t)"

lemma trim_lead_none: "lead_space seqs s = None \<Longrightarrow> trim_lead seqs s = s"
  by (simp add: trim_lead.simps [of seqs s])

lemma trim_lead_no_space: "lead_space seqs (trim_lead seqs s) = None"
proof (induction seqs s rule: trim_lead.induct)
  case (1 seqs s)
  show ?case
  proof (cases "lead_space seqs s")
    case None
    then show ?thesis by (simp add: trim_lead_none)
  next
    case (Some q)
    with 1 show ?thesis by (simp add: trim_lead.simps [of seqs s])
  qed
qed

lemma trim_lead_idem: "trim_lead seqs (trim_lead seqs s) = trim_lead seqs s"
  by (rule trim_lead_none) (rule trim_lead_no_space)

end
