(* ===== verification/Ikconfig_Extract.thy ===== *)
theory Ikconfig_Extract
  imports Go_Strings
begin

text \<open>
  \<^verbatim>\<open>internal/ikconfig/ikconfig.go\<close>: reading the \<^verbatim>\<open>.config\<close> a kernel image
  embeds as a gzip stream between two markers. The decompressor is a parameter: \<open>NewReader\<close>
  checks the gzip header of a stream, \<open>ReadAll\<close> decodes it, its flag being the
  \<^verbatim>\<open>Multistream\<close> setting.
\<close>

record 'r gzip =
  NewReader :: "string \<Rightarrow> 'r result"
  ReadAll :: "bool \<Rightarrow> 'r \<Rightarrow> string result"

definition ErrNoConfig :: goerr where
  "ErrNoConfig = ErrNew ''no IKCFG_ST marker in image''"

definition startMarker :: string where "startMarker = ''IKCFG_ST''"
definition endMarker :: string where "endMarker = ''IKCFG_ED''"

definition Extract :: "'r gzip \<Rightarrow> string \<Rightarrow> string result" where
  "Extract gz img =
     (case Cut img startMarker of (_, stream, found) \<Rightarrow>
        if \<not> found then Inl ErrNoConfig
        else (case Cut stream endMarker of (stream, _, _) \<Rightarrow>
          (case NewReader gz stream of
             Inl e \<Rightarrow> Inl (Errorf ''embedded config: '' [e])
           | Inr reader \<Rightarrow>
               (case ReadAll gz False reader of
                  Inl e \<Rightarrow> Inl (Errorf ''embedded config: '' [e])
                | Inr config \<Rightarrow> Inr config))))"

text \<open>
  What is relied on of gzip: \<open>compress\<close> is a compressor whose output, followed by anything,
  decodes to the input when one member is read.
\<close>

definition decodes :: "'r gzip \<Rightarrow> (string \<Rightarrow> string) \<Rightarrow> bool" where
  "decodes gz compress \<longleftrightarrow>
     (\<forall>config rest. \<exists>r. NewReader gz (compress config @ rest) = Inr r \<and> ReadAll gz False r = Inr config)"

text \<open>A marker that occurs in \<open>s @ m\<close> only at the end of it.\<close>

definition first_at_end :: "string \<Rightarrow> string \<Rightarrow> bool" where
  "first_at_end s m \<longleftrightarrow> \<not> (\<exists>a b. s @ m = a @ m @ b \<and> b \<noteq> [])"

lemma Cut_first_at_end: "first_at_end s m \<Longrightarrow> Cut (s @ m @ t) m = (s, t, True)"
  by (rule Cut_first) (auto simp: first_at_end_def)

text \<open>The stream the decompressor is handed ends at the first end marker, whatever follows.\<close>

lemma Extract_stream:
  assumes "first_at_end pad startMarker" and "first_at_end stream endMarker"
  shows "Extract gz (pad @ startMarker @ stream @ endMarker @ rest) =
     (case NewReader gz stream of
        Inl e \<Rightarrow> Inl (Errorf ''embedded config: '' [e])
      | Inr reader \<Rightarrow>
          (case ReadAll gz False reader of
             Inl e \<Rightarrow> Inl (Errorf ''embedded config: '' [e])
           | Inr config \<Rightarrow> Inr config))"
  using assms by (simp add: Extract_def Cut_first_at_end)

lemma Extract_unmarked: "\<not> Contains img startMarker \<Longrightarrow> Extract gz img = Inl ErrNoConfig"
  by (simp add: Extract_def Cut_absent)

lemma Extract_errors:
  "Extract gz img = Inl e \<Longrightarrow>
     e = ErrNoConfig \<or> (\<exists>e'. e = Errorf ''embedded config: '' [e'])"
  by (auto simp: Extract_def split: prod.splits if_splits sum.splits)

section \<open>Properties\<close>

text \<open>
  C22. An image that carries a compressed configuration between the markers gives exactly that
  configuration, whatever the image holds before the start marker (as long as it is the first)
  and whatever it holds after the end marker, provided the compressed bytes hold no end marker.
\<close>

theorem extract_recovers_config:
  assumes "decodes gz compress"
    and "first_at_end pad startMarker" and "first_at_end (compress config) endMarker"
  shows "Extract gz (pad @ startMarker @ compress config @ endMarker @ rest) = Inr config"
proof -
  obtain r where "NewReader gz (compress config) = Inr r" "ReadAll gz False r = Inr config"
    using assms(1) unfolding decodes_def by (metis append_Nil2)
  then show ?thesis by (simp add: Extract_stream [OF assms(2,3)])
qed

text \<open>A toy format that escapes every byte and ends with a dollar sign, for the witness.\<close>

fun toy_encode :: "string \<Rightarrow> string" where
  "toy_encode [] = ''$''"
| "toy_encode (c # cs) = CHR ''.'' # c # toy_encode cs"

fun toy_decode :: "string \<Rightarrow> string" where
  "toy_decode (e # c # cs) = (if e = CHR ''.'' then c # toy_decode cs else [])"
| "toy_decode _ = []"

definition toy_gzip :: "string gzip" where
  "toy_gzip = \<lparr>NewReader = Inr, ReadAll = (\<lambda>multi s. Inr (toy_decode s))\<rparr>"

lemma toy_decode_encode: "toy_decode (toy_encode s @ t) = s"
  by (induction s) (auto, cases t, auto)

lemma toy_decodes: "decodes toy_gzip toy_encode"
  by (simp add: decodes_def toy_gzip_def toy_decode_encode)

lemma Cut_earliest: "Cut (a @ m @ b) m = (x, y, True) \<Longrightarrow> length x \<le> length a"
proof (induction a arbitrary: x)
  case Nil
  then show ?case by (simp add: Cut_here)
next
  case (Cons c a)
  show ?case
  proof (cases "HasPrefix (c # a @ m @ b) m")
    case False
    obtain x' y' f where "Cut (a @ m @ b) m = (x', y', f)" by (cases "Cut (a @ m @ b) m")
    with Cons False show ?thesis by auto
  qed (use Cons.prems in auto)
qed

lemma first_at_end_decide:
  assumes "Cut (s @ m) m = (s, [], True)"
  shows "first_at_end s m"
  unfolding first_at_end_def
proof
  assume "\<exists>a b. s @ m = a @ m @ b \<and> b \<noteq> []"
  then obtain a b where ab: "s @ m = a @ m @ b" "b \<noteq> []" by blast
  then have "length s \<le> length a" using Cut_earliest [of a m b s "[]"] assms by simp
  with ab show False by (auto dest: arg_cong [of _ _ length])
qed

lemma extract_recovers_config_witness:
  "Extract toy_gzip (''IKCFG'' @ startMarker @ toy_encode ''CONFIG_A=y'' @ endMarker @ ''zzIKCFG_ED'') = Inr ''CONFIG_A=y''"
  by (rule extract_recovers_config [OF toy_decodes])
    (rule first_at_end_decide, simp add: startMarker_def endMarker_def)+

text \<open>
  What \<^verbatim>\<open>Extract\<close> reads depends on no byte after the first end marker: the
  stream handed to the decompressor is cut there, and every failure is the missing start
  marker or an error of the decompressor, wrapped.
\<close>

lemma extract_ignores_tail:
  "(first_at_end pad startMarker \<longrightarrow> first_at_end stream endMarker \<longrightarrow>
      Extract gz (pad @ startMarker @ stream @ endMarker @ rest) =
      Extract gz (pad @ startMarker @ stream @ endMarker @ rest')) \<and>
   (\<forall>e. Extract gz img = Inl e \<longrightarrow>
      (e = ErrNoConfig \<and> \<not> Contains img startMarker) \<or> (\<exists>e'. e = Errorf ''embedded config: '' [e']))"
proof (intro conjI impI allI)
  assume "first_at_end pad startMarker" and "first_at_end stream endMarker"
  then show "Extract gz (pad @ startMarker @ stream @ endMarker @ rest) =
      Extract gz (pad @ startMarker @ stream @ endMarker @ rest')"
    by (simp add: Extract_stream)
next
  fix e
  assume "Extract gz img = Inl e"
  then show "(e = ErrNoConfig \<and> \<not> Contains img startMarker) \<or> (\<exists>e'. e = Errorf ''embedded config: '' [e'])"
    by (auto simp: Extract_def Contains_def split: prod.splits if_splits sum.splits)
qed

lemma extract_ignores_tail_example:
  "Extract toy_gzip (''x'' @ startMarker @ ''.a$'' @ endMarker @ ''1'') =
     Extract toy_gzip (''x'' @ startMarker @ ''.a$'' @ endMarker @ ''2'')"
  by (rule extract_ignores_tail [of "''x''" "''.a$''" toy_gzip "''1''" "''2''" "[]", THEN conjunct1, rule_format])
    (rule first_at_end_decide, simp add: startMarker_def endMarker_def)+

end
