(* ===== verification/Go_Regexp.thy ===== *)
theory Go_Regexp
  imports Go_Strings
begin

text \<open>
  Regular expressions as Go's \<^verbatim>\<open>regexp\<close> package matches them against a whole line:
  the language of an expression as an inductive relation, an executable matcher by
  derivatives, and the theorem that the two agree.
\<close>

section \<open>Expressions and their language\<close>

datatype re =
    Zero
  | One
  | Sat "char \<Rightarrow> bool"
  | Alt re re
  | Seq re re
  | Star re

fun Lit :: "string \<Rightarrow> re" where
  "Lit [] = One"
| "Lit (c # s) = Seq (Sat (\<lambda>d. d = c)) (Lit s)"

definition Plus :: "re \<Rightarrow> re" where
  "Plus r = Seq r (Star r)"

inductive in_lang :: "re \<Rightarrow> string \<Rightarrow> bool" where
  one: "in_lang One []"
| sat: "p c \<Longrightarrow> in_lang (Sat p) [c]"
| alt1: "in_lang r s \<Longrightarrow> in_lang (Alt r q) s"
| alt2: "in_lang q s \<Longrightarrow> in_lang (Alt r q) s"
| seq: "in_lang r s \<Longrightarrow> in_lang q t \<Longrightarrow> in_lang (Seq r q) (s @ t)"
| star0: "in_lang (Star r) []"
| star1: "in_lang r s \<Longrightarrow> in_lang (Star r) t \<Longrightarrow> in_lang (Star r) (s @ t)"

inductive_simps in_lang_simps [simp]:
  "in_lang Zero s" "in_lang One s" "in_lang (Sat p) s" "in_lang (Alt r q) s"

inductive_simps in_lang_Seq: "in_lang (Seq r q) s"

inductive_cases in_lang_StarE: "in_lang (Star r) s"

section \<open>The matcher\<close>

fun nullable :: "re \<Rightarrow> bool" where
  "nullable Zero = False"
| "nullable One = True"
| "nullable (Sat p) = False"
| "nullable (Alt r q) = (nullable r \<or> nullable q)"
| "nullable (Seq r q) = (nullable r \<and> nullable q)"
| "nullable (Star r) = True"

fun deriv :: "char \<Rightarrow> re \<Rightarrow> re" where
  "deriv c Zero = Zero"
| "deriv c One = Zero"
| "deriv c (Sat p) = (if p c then One else Zero)"
| "deriv c (Alt r q) = Alt (deriv c r) (deriv c q)"
| "deriv c (Seq r q) =
     (if nullable r then Alt (Seq (deriv c r) q) (deriv c q) else Seq (deriv c r) q)"
| "deriv c (Star r) = Seq (deriv c r) (Star r)"

fun matches :: "re \<Rightarrow> string \<Rightarrow> bool" where
  "matches r [] = nullable r"
| "matches r (c # s) = matches (deriv c r) s"

lemma nullable_in_lang: "nullable r \<longleftrightarrow> in_lang r []"
  by (induction r) (auto simp: in_lang_Seq intro: in_lang.intros)

lemma star_Cons:
  "in_lang (Star r) w \<Longrightarrow> w = c # s \<Longrightarrow>
     \<exists>s1 s2. s = s1 @ s2 \<and> in_lang r (c # s1) \<and> in_lang (Star r) s2"
proof (induction "Star r" w arbitrary: s rule: in_lang.induct)
  case (star1 s' t)
  show ?case
  proof (cases s')
    case Nil
    with star1 show ?thesis by auto
  next
    case (Cons d u)
    with star1 show ?thesis by auto
  qed
qed auto

lemma deriv_in_lang: "in_lang (deriv c r) s \<longleftrightarrow> in_lang r (c # s)"
proof (induction r arbitrary: s)
  case (Seq r q)
  show ?case
  proof
    assume "in_lang (deriv c (Seq r q)) s"
    then show "in_lang (Seq r q) (c # s)"
      using Seq.IH nullable_in_lang [of r]
      by (auto simp: in_lang_Seq split: if_splits) (metis append_Cons append_Nil)+
  next
    assume "in_lang (Seq r q) (c # s)"
    then obtain u v where "c # s = u @ v" "in_lang r u" "in_lang q v"
      by (auto simp: in_lang_Seq)
    then show "in_lang (deriv c (Seq r q)) s"
      using Seq.IH nullable_in_lang [of r] by (cases u) (auto simp: in_lang_Seq)
  qed
next
  case (Star r)
  show ?case
  proof
    assume "in_lang (deriv c (Star r)) s"
    then show "in_lang (Star r) (c # s)"
      using Star.IH by (auto simp: in_lang_Seq dest: in_lang.star1)
  next
    assume "in_lang (Star r) (c # s)"
    then show "in_lang (deriv c (Star r)) s"
      using Star.IH star_Cons [OF _ refl] by (fastforce simp: in_lang_Seq)
  qed
qed auto

theorem matches_in_lang: "matches r s \<longleftrightarrow> in_lang r s"
  by (induction s arbitrary: r) (auto simp: nullable_in_lang deriv_in_lang)

section \<open>Characterisations\<close>

lemma in_lang_Lit [simp]: "in_lang (Lit w) s \<longleftrightarrow> s = w"
  by (induction w arbitrary: s) (auto simp: in_lang_Seq)

declare Lit.simps [simp del]

lemma in_lang_Star_Sat: "in_lang (Star (Sat p)) s \<longleftrightarrow> (\<forall>c \<in> set s. p c)"
proof
  assume "in_lang (Star (Sat p)) s"
  then show "\<forall>c \<in> set s. p c" by (induction "Star (Sat p)" s rule: in_lang.induct) auto
next
  assume "\<forall>c \<in> set s. p c"
  then show "in_lang (Star (Sat p)) s"
  proof (induction s)
    case (Cons c s)
    then have "in_lang (Star (Sat p)) ([c] @ s)" by (intro in_lang.star1 in_lang.sat) auto
    then show ?case by simp
  qed (rule in_lang.star0)
qed

lemma in_lang_Plus_Sat: "in_lang (Plus (Sat p)) s \<longleftrightarrow> s \<noteq> [] \<and> (\<forall>c \<in> set s. p c)"
proof (cases s)
  case (Cons c t)
  have "in_lang (Plus (Sat p)) (c # t) \<longleftrightarrow> (\<exists>u v. c # t = u @ v \<and> (\<exists>d. u = [d] \<and> p d) \<and> (\<forall>d \<in> set v. p d))"
    by (simp add: Plus_def in_lang_Seq in_lang_Star_Sat)
  also have "\<dots> \<longleftrightarrow> p c \<and> (\<forall>d \<in> set t. p d)"
    by (metis append_Cons append_Nil list.inject)
  finally show ?thesis using Cons by simp
qed (auto simp: Plus_def in_lang_Seq)

end
