(* ===== verification/Go_Strconv.thy ===== *)
theory Go_Strconv
  imports Go_Strings
begin

text \<open>
  Decimal numbers as Go's \<^verbatim>\<open>strconv\<close> writes and reads them (an \<^verbatim>\<open>int\<close> has 64
  bits on every target of the repository), and how white space trimming and splitting act on
  printable text: the facts that make the text files two programs exchange readable again.
\<close>

section \<open>Itoa and Atoi\<close>

definition digit_char :: "nat \<Rightarrow> char" where
  "digit_char d = char_of (48 + d)"

definition is_digit :: "char \<Rightarrow> bool" where
  "is_digit c \<longleftrightarrow> 48 \<le> (of_char c :: nat) \<and> (of_char c :: nat) \<le> 57"

fun digits_of :: "nat \<Rightarrow> string" where
  "digits_of n = (if n < 10 then [digit_char n] else digits_of (n div 10) @ [digit_char (n mod 10)])"

declare digits_of.simps [simp del]

definition Itoa :: "int \<Rightarrow> string" where
  "Itoa i = (if i < 0 then CHR ''-'' # digits_of (nat (- i)) else digits_of (nat i))"

definition ErrSyntax :: goerr where "ErrSyntax = ErrNew ''invalid syntax''"
definition ErrRange :: goerr where "ErrRange = ErrNew ''value out of range''"

text \<open>The digits accumulate in a \<^verbatim>\<open>uint64\<close>; the first one that does not fit is a range error.\<close>

fun parse_digits :: "nat \<Rightarrow> string \<Rightarrow> nat result" where
  "parse_digits acc [] = Inr acc"
| "parse_digits acc (c # cs) =
     (if \<not> is_digit c then Inl ErrSyntax
      else let n = acc * 10 + (of_char c - 48)
           in if n \<ge> 2 ^ 64 then Inl ErrRange else parse_digits n cs)"

definition Atoi :: "string \<Rightarrow> int result" where
  "Atoi s =
     (let neg = HasPrefix s ''-''; body = (if neg \<or> HasPrefix s ''+'' then drop 1 s else s)
      in if body = [] then Inl (Errorf ''strconv.Atoi: '' [ErrSyntax])
         else case parse_digits 0 body of
                Inl e \<Rightarrow> Inl (Errorf ''strconv.Atoi: '' [e])
              | Inr n \<Rightarrow>
                  if neg then (if n \<le> 2 ^ 63 then Inr (- int n)
                               else Inl (Errorf ''strconv.Atoi: '' [ErrRange]))
                  else (if n < 2 ^ 63 then Inr (int n)
                        else Inl (Errorf ''strconv.Atoi: '' [ErrRange])))"

lemma of_char_digit_char: "d < 10 \<Longrightarrow> of_char (digit_char d) = (48 + d :: nat)"
  by (simp add: digit_char_def of_char_of)

lemma is_digit_digit_char: "d < 10 \<Longrightarrow> is_digit (digit_char d)"
  by (simp add: is_digit_def of_char_digit_char)

lemma digits_of_digits: "c \<in> set (digits_of n) \<Longrightarrow> is_digit c"
proof (induction n rule: digits_of.induct)
  case (1 n)
  show ?case
  proof (cases "n < 10")
    case True
    with "1.prems" show ?thesis by (simp add: digits_of.simps [of n] is_digit_digit_char)
  next
    case False
    with 1 show ?thesis by (auto simp: digits_of.simps [of n] is_digit_digit_char)
  qed
qed

lemma digits_of_not_Nil [simp]: "digits_of n \<noteq> []"
  by (simp add: digits_of.simps [of n])

lemma parse_digits_append:
  "parse_digits a (xs @ ys) =
     (case parse_digits a xs of Inl e \<Rightarrow> Inl e | Inr m \<Rightarrow> parse_digits m ys)"
  by (induction xs arbitrary: a) (auto simp: Let_def)

lemma parse_digits_of: "n < 2 ^ 64 \<Longrightarrow> parse_digits 0 (digits_of n) = Inr n"
proof (induction n rule: digits_of.induct)
  case (1 n)
  show ?case
  proof (cases "n < 10")
    case True
    then show ?thesis
      by (simp add: digits_of.simps [of n] is_digit_digit_char of_char_digit_char)
  next
    case False
    then have "n div 10 < 2 ^ 64" using "1.prems" by simp
    with "1.IH" False have "parse_digits 0 (digits_of (n div 10)) = Inr (n div 10)" by simp
    then show ?thesis using False "1.prems"
      by (simp add: digits_of.simps [of n] parse_digits_append is_digit_digit_char
          of_char_digit_char Let_def)
  qed
qed

lemma hd_digits_of: "is_digit (hd (digits_of n))"
  by (rule digits_of_digits [of _ n]) simp

lemma digits_of_no_sign:
  "\<not> HasPrefix (digits_of n) ''-''" "\<not> HasPrefix (digits_of n) ''+''"
proof -
  obtain c s where cs: "digits_of n = c # s" by (cases "digits_of n") auto
  then have "is_digit c" using hd_digits_of [of n] by simp
  then have "c \<noteq> CHR ''-''" "c \<noteq> CHR ''+''" by (auto simp: is_digit_def)
  with cs show "\<not> HasPrefix (digits_of n) ''-''" "\<not> HasPrefix (digits_of n) ''+''" by auto
qed

lemma Atoi_Itoa:
  assumes "- (2 ^ 63) \<le> i" and "i < 2 ^ 63"
  shows "Atoi (Itoa i) = Inr i"
proof (cases "i < 0")
  case True
  then have "nat (- i) \<le> 2 ^ 63" using assms by simp
  with True show ?thesis
    by (simp add: Atoi_def Itoa_def parse_digits_of Let_def)
next
  case False
  then have "nat i < 2 ^ 63" using assms by (simp add: nat_less_iff)
  with False show ?thesis
    by (simp add: Atoi_def Itoa_def parse_digits_of digits_of_no_sign Let_def)
qed

section \<open>Printable text\<close>

definition printable :: "char \<Rightarrow> bool" where
  "printable c \<longleftrightarrow> 33 \<le> (of_char c :: nat) \<and> (of_char c :: nat) \<le> 126"

lemma printable_digit: "is_digit c \<Longrightarrow> printable c"
  by (simp add: printable_def is_digit_def)

lemma space_heads: "list_all (\<lambda>q. q \<noteq> [] \<and> \<not> printable (hd q)) space_seqs"
  by (simp add: space_seqs_def printable_def)

lemma space_lasts: "list_all (\<lambda>q. q \<noteq> [] \<and> \<not> printable (hd q)) (map rev space_seqs)"
  by (simp add: space_seqs_def printable_def)

lemma lead_space_printable:
  assumes "list_all (\<lambda>q. q \<noteq> [] \<and> \<not> printable (hd q)) seqs" and "printable c"
  shows "lead_space seqs (c # s) = None"
  unfolding lead_space_def find_None_iff
proof
  assume "\<exists>q. q \<in> set seqs \<and> q \<noteq> [] \<and> HasPrefix (c # s) q"
  then obtain q where q: "q \<in> set seqs" "q \<noteq> []" "HasPrefix (c # s) q" by blast
  then obtain d r where "q = d # r" by (meson neq_Nil_conv)
  with q assms show False by (auto simp: list_all_iff)
qed

lemma lead_space_Nil: "lead_space seqs [] = None"
  by (auto simp: lead_space_def find_None_iff)

lemmas lead_space_print [simp] =
  lead_space_printable [OF space_heads] lead_space_printable [OF space_lasts] lead_space_Nil

lemma trim_lead_printable:
  "s = [] \<or> printable (hd s) \<Longrightarrow> trim_lead space_seqs s = s"
  "s = [] \<or> printable (hd s) \<Longrightarrow> trim_lead (map rev space_seqs) s = s"
  by (cases s; simp add: trim_lead_none)+

text \<open>Text that starts and ends with a printable character is what trimming leaves alone.\<close>

definition trimmed :: "string \<Rightarrow> bool" where
  "trimmed s \<longleftrightarrow> (s = [] \<or> (printable (hd s) \<and> printable (last s)))"

lemma TrimSpace_trimmed: "trimmed s \<Longrightarrow> TrimSpace s = s"
  by (auto simp: TrimSpace_def trimmed_def trim_lead_printable hd_rev)

lemma lead_space_newline: "lead_space (map rev space_seqs) (CHR 0x0A # s) = Some [CHR 0x0A]"
  by (simp add: lead_space_def space_seqs_def)

lemma TrimSpace_newline: "trimmed s \<Longrightarrow> TrimSpace (s @ [CHR 0x0A]) = s"
proof (cases "s = []")
  case True
  have "lead_space space_seqs [CHR 0x0A] = Some [CHR 0x0A]"
    by (simp add: lead_space_def space_seqs_def)
  then show ?thesis using True
    by (simp add: TrimSpace_def trim_lead.simps [of _ "[CHR 0x0A]"] trim_lead_none)
next
  case False
  assume t: "trimmed s"
  have "trim_lead space_seqs (s @ [CHR 0x0A]) = s @ [CHR 0x0A]"
    using False t by (intro trim_lead_printable) (auto simp: trimmed_def)
  moreover have "trim_lead (map rev space_seqs) (rev (s @ [CHR 0x0A])) = rev s"
    using False t
    by (simp add: trim_lead.simps [of _ "CHR 0x0A # rev s"] lead_space_newline
        trim_lead_printable trimmed_def hd_rev)
  ultimately show ?thesis by (simp add: TrimSpace_def)
qed

lemma trimmed_Itoa: "trimmed (Itoa i)"
proof -
  have "printable (hd (digits_of n))" "printable (last (digits_of n))" for n
    by (auto intro!: printable_digit intro: hd_digits_of digits_of_digits [of _ n])
  moreover have "printable CHR ''-''" by (simp add: printable_def)
  ultimately show ?thesis by (simp add: trimmed_def Itoa_def)
qed

text \<open>Words of printable characters joined by single spaces are the fields of the text.\<close>

lemma fields_from_word:
  "(\<And>c. c \<in> set w \<Longrightarrow> printable c) \<Longrightarrow> fields_from cur (w @ s) = fields_from (cur @ w) s"
proof (induction w arbitrary: cur)
  case (Cons c w)
  have "fields_from cur (c # w @ s) = fields_from (cur @ [c]) (w @ s)"
    using Cons.prems by (simp add: fields_from.simps [of cur "c # w @ s"])
  also have "\<dots> = fields_from (cur @ c # w) s" using Cons by simp
  finally show ?case by simp
qed simp

lemma fields_from_Nil: "fields_from cur [] = (if cur = [] then [] else [cur])"
  by (simp add: fields_from.simps [of cur "[]"])

lemma fields_from_space:
  "fields_from cur (CHR 0x20 # s) = (if cur = [] then [] else [cur]) @ fields_from [] s"
proof -
  have "lead_space space_seqs (CHR 0x20 # s) = Some [CHR 0x20]"
    by (simp add: lead_space_def space_seqs_def)
  then show ?thesis by (simp add: fields_from.simps [of cur "CHR 0x20 # s"])
qed

lemma fields_from_newline:
  "fields_from cur (CHR 0x0A # s) = (if cur = [] then [] else [cur]) @ fields_from [] s"
proof -
  have "lead_space space_seqs (CHR 0x0A # s) = Some [CHR 0x0A]"
    by (simp add: lead_space_def space_seqs_def)
  then show ?thesis by (simp add: fields_from.simps [of cur "CHR 0x0A # s"])
qed

definition word_ok :: "string \<Rightarrow> bool" where
  "word_ok w \<longleftrightarrow> w \<noteq> [] \<and> list_all printable w"

lemma Fields_Join:
  "list_all word_ok ws \<Longrightarrow> Fields (Join ws '' '') = ws"
proof (induction ws)
  case Nil
  show ?case by (simp add: Fields_def fields_from_Nil)
next
  case (Cons w ws)
  then have w: "w \<noteq> []" "\<And>c. c \<in> set w \<Longrightarrow> printable c"
    by (auto simp: word_ok_def list_all_iff)
  show ?case
  proof (cases "ws = []")
    case True
    then show ?thesis using w fields_from_word [of w "[]" "[]"]
      by (simp add: Fields_def fields_from_Nil)
  next
    case False
    with Cons w show ?thesis
      by (simp add: Fields_def Join_Cons fields_from_word fields_from_space)
  qed
qed

lemma Fields_Join_newline:
  "list_all word_ok ws \<Longrightarrow> Fields (Join ws '' '' @ [CHR 0x0A]) = ws"
proof (induction ws)
  case Nil
  show ?case by (simp add: Fields_def fields_from_newline fields_from_Nil)
next
  case (Cons w ws)
  then have w: "w \<noteq> []" "\<And>c. c \<in> set w \<Longrightarrow> printable c"
    by (auto simp: word_ok_def list_all_iff)
  show ?case
  proof (cases "ws = []")
    case True
    then show ?thesis using w fields_from_word [of w "[]" "[CHR 0x0A]"]
      by (simp add: Fields_def fields_from_Nil fields_from_newline)
  next
    case False
    with Cons w show ?thesis
      by (simp add: Fields_def Join_Cons fields_from_word fields_from_space)
  qed
qed

end
