(* ===== verification/Ikconfig_Verify.thy ===== *)
theory Ikconfig_Verify
  imports Go_Regexp Go_Strconv "HOL-Library.Multiset"
begin

text \<open>
  \<^verbatim>\<open>internal/ikconfig/verify.go\<close>: parsing a \<^verbatim>\<open>.config\<close> into symbol states and
  the golden set, and judging it against a policy and a committed golden. What \<open>Verify\<close>
  writes to its \<^verbatim>\<open>io.Writer\<close> is returned as the list of the strings printed.
\<close>

section \<open>States, wants and decisions\<close>

datatype State = StateY | StateM | StateN | StateAbsent

fun state_text :: "State \<Rightarrow> string" where
  "state_text StateY = ''y''"
| "state_text StateM = ''m''"
| "state_text StateN = ''n''"
| "state_text StateAbsent = ''absent''"

datatype Want = WantY | WantNotY

fun want_String :: "Want \<Rightarrow> string" where
  "want_String w = (if w = WantY then ''y'' else ''not-y'')"

fun met :: "Want \<Rightarrow> State \<Rightarrow> bool" where
  "met w state = (if w = WantY then state = StateY else state \<noteq> StateY)"

declare met.simps [simp del]

lemma met_cases: "met WantY state \<longleftrightarrow> state = StateY" "met WantNotY state \<longleftrightarrow> state \<noteq> StateY"
  by (simp_all add: met.simps)

record Decision =
  Symbol :: string
  Wanted :: Want
  Why :: string

record Section =
  Title :: string
  Decisions :: "Decision list"

record Config =
  cfg_title :: string
  cfg_states :: "string \<rightharpoonup> State"
  cfg_golden :: "string list"

section \<open>Parsing\<close>

text \<open>The regular expression \<^verbatim>\<open>goldenLine\<close>, symbol by symbol.\<close>

definition symbol_char :: "char \<Rightarrow> bool" where
  "symbol_char c \<longleftrightarrow> (CHR ''A'' \<le> c \<and> c \<le> CHR ''Z'') \<or> (CHR ''0'' \<le> c \<and> c \<le> CHR ''9'') \<or> c = CHR ''_''"

definition digit_class :: "char \<Rightarrow> bool" where
  "digit_class c \<longleftrightarrow> CHR ''0'' \<le> c \<and> c \<le> CHR ''9''"

definition hex_class :: "char \<Rightarrow> bool" where
  "hex_class c \<longleftrightarrow> (CHR ''0'' \<le> c \<and> c \<le> CHR ''9'') \<or> (CHR ''a'' \<le> c \<and> c \<le> CHR ''f'') \<or>
     (CHR ''A'' \<le> c \<and> c \<le> CHR ''F'')"

definition quote :: string where "quote = [CHR 0x22]"
definition newline :: char where "newline = CHR 0x0A"

definition goldenLine :: re where
  "goldenLine =
     Seq (Lit ''CONFIG_'') (Seq (Plus (Sat symbol_char)) (Seq (Lit ''='')
       (Alt (Lit ''y'') (Alt (Lit ''m'') (Alt (Plus (Sat digit_class))
         (Alt (Seq (Lit ''0x'') (Plus (Sat hex_class)))
              (Seq (Lit quote) (Seq (Star (Sat (\<lambda>c. c \<noteq> newline))) (Lit quote)))))))))"

definition parse_line :: "Config \<Rightarrow> string \<Rightarrow> Config" where
  "parse_line parsed line =
     (if cfg_title parsed = [] \<and> Contains line ''Kernel Configuration'' then
        parsed\<lparr>cfg_title := TrimPrefix line ''# ''\<rparr>
      else if HasPrefix line ''# CONFIG_'' \<and> HasSuffix line '' is not set'' then
        (let symbol = TrimSuffix (TrimPrefix line ''# CONFIG_'') '' is not set''
         in parsed\<lparr>cfg_states := (cfg_states parsed)(symbol \<mapsto> StateN)\<rparr>)
      else if HasPrefix line ''CONFIG_'' then
        (case Cut (TrimPrefix line ''CONFIG_'') ''='' of (symbol, value, _) \<Rightarrow>
          (let parsed =
             (if value = ''y'' then parsed\<lparr>cfg_states := (cfg_states parsed)(symbol \<mapsto> StateY)\<rparr>
              else if value = ''m'' then parsed\<lparr>cfg_states := (cfg_states parsed)(symbol \<mapsto> StateM)\<rparr>
              else parsed)
           in if matches goldenLine line then parsed\<lparr>cfg_golden := cfg_golden parsed @ [line]\<rparr>
              else parsed))
      else parsed)"

definition empty_config :: Config where
  "empty_config = \<lparr>cfg_title = [], cfg_states = Map.empty, cfg_golden = []\<rparr>"

definition Parse :: "string \<Rightarrow> Config" where
  "Parse config =
     (let parsed = foldl parse_line empty_config (Split newline config)
      in parsed\<lparr>cfg_golden := sort (cfg_golden parsed)\<rparr>)"

definition config_State :: "Config \<Rightarrow> string \<Rightarrow> State" where
  "config_State c symbol = (case cfg_states c symbol of Some state \<Rightarrow> state | None \<Rightarrow> StateAbsent)"

definition Golden :: "Config \<Rightarrow> string list" where
  "Golden c = cfg_golden c"

section \<open>What a line decides\<close>

text \<open>
  The specification of the parser: the first line that mentions \<open>Kernel Configuration\<close>
  is the title and decides nothing; of the others each decides at most one symbol, and the
  golden lines are the ones the expression matches.
\<close>

fun body_lines :: "string list \<Rightarrow> string list" where
  "body_lines [] = []"
| "body_lines (l # ls) = (if Contains l ''Kernel Configuration'' then ls else l # body_lines ls)"

definition decided :: "string \<Rightarrow> (string \<times> State) option" where
  "decided line =
     (if HasPrefix line ''# CONFIG_'' \<and> HasSuffix line '' is not set''
      then Some (TrimSuffix (TrimPrefix line ''# CONFIG_'') '' is not set'', StateN)
      else if HasPrefix line ''CONFIG_'' then
        (case Cut (TrimPrefix line ''CONFIG_'') ''='' of (symbol, value, _) \<Rightarrow>
           if value = ''y'' then Some (symbol, StateY)
           else if value = ''m'' then Some (symbol, StateM) else None)
      else None)"

text \<open>A value the golden keeps, and the golden lines without the expression.\<close>

definition value_kept :: "string \<Rightarrow> bool" where
  "value_kept v \<longleftrightarrow>
     v = ''y'' \<or> v = ''m'' \<or> (v \<noteq> [] \<and> list_all digit_class v) \<or>
     (HasPrefix v ''0x'' \<and> length v > 2 \<and> list_all hex_class (drop 2 v)) \<or>
     (length v \<ge> 2 \<and> hd v = CHR 0x22 \<and> last v = CHR 0x22 \<and>
        list_all (\<lambda>c. c \<noteq> newline) (butlast (tl v)))"

definition golden_line :: "string \<Rightarrow> bool" where
  "golden_line line \<longleftrightarrow>
     HasPrefix line ''CONFIG_'' \<and>
     (case Cut (drop 7 line) ''='' of (symbol, value, found) \<Rightarrow>
        found \<and> symbol \<noteq> [] \<and> list_all symbol_char symbol \<and> value_kept value)"

section \<open>The report\<close>

text \<open>
  \<^verbatim>\<open>fmt\<close> pads to a width counted in runes; a byte that starts no valid UTF-8 sequence
  counts as one rune.
\<close>

definition cont :: "nat \<Rightarrow> bool" where "cont b \<longleftrightarrow> 128 \<le> b \<and> b \<le> 191"

definition rune_len :: "nat list \<Rightarrow> nat" where
  "rune_len bs =
     (case bs of
        b0 # b1 # b2 # b3 # _ \<Rightarrow>
          if 194 \<le> b0 \<and> b0 \<le> 223 \<and> cont b1 then 2
          else if 224 \<le> b0 \<and> b0 \<le> 239 \<and> cont b1 \<and> cont b2 \<and> (b0 = 224 \<longrightarrow> 160 \<le> b1) \<and> (b0 = 237 \<longrightarrow> b1 \<le> 159) then 3
          else if 240 \<le> b0 \<and> b0 \<le> 244 \<and> cont b1 \<and> cont b2 \<and> cont b3 \<and> (b0 = 240 \<longrightarrow> 144 \<le> b1) \<and> (b0 = 244 \<longrightarrow> b1 \<le> 143) then 4
          else 1
      | [b0, b1, b2] \<Rightarrow>
          if 194 \<le> b0 \<and> b0 \<le> 223 \<and> cont b1 then 2
          else if 224 \<le> b0 \<and> b0 \<le> 239 \<and> cont b1 \<and> cont b2 \<and> (b0 = 224 \<longrightarrow> 160 \<le> b1) \<and> (b0 = 237 \<longrightarrow> b1 \<le> 159) then 3
          else 1
      | [b0, b1] \<Rightarrow> if 194 \<le> b0 \<and> b0 \<le> 223 \<and> cont b1 then 2 else 1
      | _ \<Rightarrow> 1)"

fun count_runes :: "nat \<Rightarrow> nat list \<Rightarrow> nat" where
  "count_runes k [] = 0"
| "count_runes 0 (b # bs) = Suc (count_runes (rune_len (b # bs) - 1) bs)"
| "count_runes (Suc k) (b # bs) = count_runes k bs"

definition RuneCount :: "string \<Rightarrow> nat" where
  "RuneCount s = count_runes 0 (map of_char s)"

definition pad_right :: "nat \<Rightarrow> string \<Rightarrow> string" where
  "pad_right w s = s @ replicate (w - RuneCount s) CHR '' ''"

definition esc :: string where "esc = [CHR 0x1B]"
definition nl :: string where "nl = [CHR 0x0A]"
definition em_dash :: string where "em_dash = [CHR 0xE2, CHR 0x80, CHR 0x94]"
definition right_arrow :: string where "right_arrow = [CHR 0xE2, CHR 0x86, CHR 0x92]"

definition ok_line :: "Decision \<Rightarrow> State \<Rightarrow> string" where
  "ok_line d got =
     ''  '' @ esc @ ''[32mok'' @ esc @ ''[0m   '' @ pad_right 38 (''CONFIG_'' @ Symbol d) @
     '' = '' @ pad_right 6 (state_text got) @ ''  '' @ Why d @ nl"

definition fail_line :: "Decision \<Rightarrow> State \<Rightarrow> string" where
  "fail_line d got =
     ''  '' @ esc @ ''[31mFAIL'' @ esc @ ''[0m '' @ pad_right 38 (''CONFIG_'' @ Symbol d) @
     '' = '' @ pad_right 6 (state_text got) @ ''  (want '' @ want_String (Wanted d) @ '') '' @ Why d @ nl"

definition drift :: "string list \<Rightarrow> string list \<Rightarrow> string list \<times> string list" where
  "drift golden got =
     (filter (\<lambda>line. line \<notin> set golden) got, filter (\<lambda>line. line \<notin> set got) golden)"

fun verify_decisions :: "Config \<Rightarrow> Decision list \<Rightarrow> bool \<times> string list" where
  "verify_decisions config [] = (True, [])"
| "verify_decisions config (d # ds) =
     (let got = config_State config (Symbol d);
          (held, out) = verify_decisions config ds
      in if met (Wanted d) got then (held, ok_line d got # out)
         else (False, fail_line d got # out))"

fun verify_sections :: "Config \<Rightarrow> Section list \<Rightarrow> bool \<times> string list" where
  "verify_sections config [] = (True, [])"
| "verify_sections config (s # ss) =
     (let (held1, out1) = verify_decisions config (Decisions s);
          (held2, out2) = verify_sections config ss
      in (held1 \<and> held2, (''--- '' @ Title s @ '' ---'' @ nl) # out1 @ out2))"

definition drift_report :: "string list \<Rightarrow> string list \<Rightarrow> string list" where
  "drift_report added removed =
     [''--- golden-config DRIFT vs kernel/config/kernel-golden ---'' @ nl] @
     (if added = [] then []
      else (''  turned ON (unexpected '' @ em_dash @ '' new default-y or drift):'' @ nl) #
        map (\<lambda>line. ''    + '' @ line @ nl) added) @
     (if removed = [] then []
      else (''  now OFF (expected symbol lost):'' @ nl) # map (\<lambda>line. ''    - '' @ line @ nl) removed) @
     [''  '' @ right_arrow @ '' review the delta; if intentional, run 'just kernel-golden' and commit kernel/config/kernel-golden'' @ nl]"

text \<open>A nil golden is \<open>None\<close>; an empty golden is not nil.\<close>

definition Verify :: "Config \<Rightarrow> Section list \<Rightarrow> string list option \<Rightarrow> bool \<times> string list" where
  "Verify config policy golden =
     (let heading = ''=== verifying shipped config: '' @ cfg_title config @ '' ==='' @ nl;
          (held, out) = verify_sections config policy
      in case golden of
           None \<Rightarrow>
             (held, heading # out @ [''--- golden-config: no kernel/config/kernel-golden committed (run 'just kernel-golden' to create it) ---'' @ nl])
         | Some gold \<Rightarrow>
             (let (added, removed) = drift gold (cfg_golden config)
              in if added = [] \<and> removed = [] then
                   (held, heading # out @ [''--- golden-config: no drift ('' @ Itoa (int (length gold)) @ '' enabled symbols match kernel/config/kernel-golden) ---'' @ nl])
                 else (False, heading # out @ drift_report added removed)))"

section \<open>The golden expression decided directly\<close>

lemma value_kept_iff:
  "value_kept v \<longleftrightarrow>
     in_lang (Alt (Lit ''y'') (Alt (Lit ''m'') (Alt (Plus (Sat digit_class))
       (Alt (Seq (Lit ''0x'') (Plus (Sat hex_class)))
            (Seq (Lit quote) (Seq (Star (Sat (\<lambda>c. c \<noteq> newline))) (Lit quote))))))) v"
proof -
  have hex: "in_lang (Seq (Lit ''0x'') (Plus (Sat hex_class))) v \<longleftrightarrow>
      HasPrefix v ''0x'' \<and> length v > 2 \<and> list_all hex_class (drop 2 v)"
    by (auto simp: in_lang_Seq in_lang_Plus_Sat HasPrefix_iff list_all_iff)
  have q: "in_lang (Seq (Lit quote) (Seq (Star (Sat (\<lambda>c. c \<noteq> newline))) (Lit quote))) v \<longleftrightarrow>
      (\<exists>m. v = CHR 0x22 # m @ [CHR 0x22] \<and> newline \<notin> set m)"
    by (auto simp: in_lang_Seq in_lang_Star_Sat quote_def)
  have "(length v \<ge> 2 \<and> hd v = CHR 0x22 \<and> last v = CHR 0x22 \<and>
        list_all (\<lambda>c. c \<noteq> newline) (butlast (tl v))) \<longleftrightarrow>
      (\<exists>m. v = CHR 0x22 # m @ [CHR 0x22] \<and> newline \<notin> set m)"
  proof
    assume h: "length v \<ge> 2 \<and> hd v = CHR 0x22 \<and> last v = CHR 0x22 \<and>
        list_all (\<lambda>c. c \<noteq> newline) (butlast (tl v))"
    then obtain x w where "v = x # w" "w \<noteq> []" by (cases v) (auto simp: Suc_le_eq)
    moreover from this h have "w = butlast w @ [CHR 0x22]"
      by (metis append_butlast_last_id last_ConsR)
    ultimately show "\<exists>m. v = CHR 0x22 # m @ [CHR 0x22] \<and> newline \<notin> set m"
      using h by (intro exI [of _ "butlast w"]) (auto simp: list_all_iff)
  qed (auto simp: list_all_iff)
  with hex q show ?thesis
    by (simp add: value_kept_def in_lang_Plus_Sat list_all_iff)
qed

lemma goldenLine_lang:
  "in_lang goldenLine line \<longleftrightarrow>
     (\<exists>symbol v. line = ''CONFIG_'' @ symbol @ CHR ''='' # v \<and> symbol \<noteq> [] \<and>
        list_all symbol_char symbol \<and> value_kept v)"
  unfolding goldenLine_def value_kept_iff
  by (simp only: in_lang_Seq in_lang_Lit in_lang_Plus_Sat list_all_iff) fastforce

lemma symbol_char_equals: "\<not> symbol_char CHR ''=''"
  by (simp add: symbol_char_def)

lemma matches_golden_line: "matches goldenLine line \<longleftrightarrow> golden_line line"
proof
  assume "matches goldenLine line"
  then obtain symbol v where l: "line = ''CONFIG_'' @ symbol @ CHR ''='' # v" "symbol \<noteq> []"
      "list_all symbol_char symbol" "value_kept v"
    unfolding matches_in_lang goldenLine_lang by blast
  then have "CHR ''='' \<notin> set symbol" using symbol_char_equals by (auto simp: list_all_iff)
  with l show "golden_line line" by (simp add: golden_line_def Cut_char)
next
  assume g: "golden_line line"
  obtain symbol v f where c: "Cut (drop 7 line) ''='' = (symbol, v, f)"
    by (cases "Cut (drop 7 line) ''=''")
  with g have f: "f" "symbol \<noteq> []" "list_all symbol_char symbol" "value_kept v"
    and p: "HasPrefix line ''CONFIG_''"
    by (auto simp: golden_line_def)
  have "drop 7 line = symbol @ ''='' @ v" using c f by (auto dest: Cut_found)
  moreover have "line = ''CONFIG_'' @ drop 7 line" using p by (auto simp: HasPrefix_iff)
  ultimately have "line = ''CONFIG_'' @ symbol @ CHR ''='' # v" by simp
  with f show "matches goldenLine line" unfolding matches_in_lang goldenLine_lang by blast
qed

section \<open>The parser meets its specification\<close>

definition decide :: "(string \<rightharpoonup> State) \<Rightarrow> string \<Rightarrow> (string \<rightharpoonup> State)" where
  "decide m line = (case decided line of None \<Rightarrow> m | Some (symbol, state) \<Rightarrow> m(symbol \<mapsto> state))"

lemma title_not_Nil: "Contains line ''Kernel Configuration'' \<Longrightarrow> TrimPrefix line ''# '' \<noteq> []"
proof
  assume c: "Contains line ''Kernel Configuration''" and t: "TrimPrefix line ''# '' = []"
  from c have "length line \<ge> 20" by (auto simp: Contains_iff)
  with t show False by (auto simp: TrimPrefix_def HasPrefix_iff split: if_splits)
qed

lemma parse_line_title:
  "cfg_title p = [] \<Longrightarrow> Contains line ''Kernel Configuration'' \<Longrightarrow>
     parse_line p line = p\<lparr>cfg_title := TrimPrefix line ''# ''\<rparr>"
  by (simp add: parse_line_def)

lemma golden_line_prefix: "golden_line line \<Longrightarrow> HasPrefix line ''CONFIG_''"
  by (simp add: golden_line_def)

lemma prefix_exclusive: "HasPrefix line ''CONFIG_'' \<Longrightarrow> \<not> HasPrefix line ''# CONFIG_''"
  by (auto simp: HasPrefix_iff)

lemma parse_line_body:
  assumes "\<not> (cfg_title p = [] \<and> Contains line ''Kernel Configuration'')"
  shows "parse_line p line =
     p\<lparr>cfg_states := decide (cfg_states p) line,
       cfg_golden := cfg_golden p @ (if golden_line line then [line] else [])\<rparr>"
proof -
  obtain symbol v f where c: "Cut (TrimPrefix line ''CONFIG_'') ''='' = (symbol, v, f)"
    by (cases "Cut (TrimPrefix line ''CONFIG_'') ''=''")
  have u: "HasPrefix line ''# CONFIG_'' \<Longrightarrow> \<not> golden_line line"
    using golden_line_prefix prefix_exclusive by blast
  have n: "\<not> HasPrefix line ''CONFIG_'' \<Longrightarrow> \<not> golden_line line"
    using golden_line_prefix by blast
  consider "HasPrefix line ''# CONFIG_'' \<and> HasSuffix line '' is not set''"
    | "\<not> (HasPrefix line ''# CONFIG_'' \<and> HasSuffix line '' is not set'')" "HasPrefix line ''CONFIG_''"
    | "\<not> (HasPrefix line ''# CONFIG_'' \<and> HasSuffix line '' is not set'')" "\<not> HasPrefix line ''CONFIG_''"
    by blast
  then show ?thesis
  proof cases
    case 1
    with u show ?thesis
      unfolding parse_line_def if_not_P [OF assms] by (simp add: decide_def decided_def)
  next
    case 2
    with c show ?thesis
      unfolding parse_line_def if_not_P [OF assms] if_not_P [OF 2(1)]
      by (simp add: decide_def decided_def if_not_P [OF 2(1)] matches_golden_line)
  next
    case 3
    with n show ?thesis
      unfolding parse_line_def if_not_P [OF assms] if_not_P [OF 3(1)]
      by (simp add: decide_def decided_def if_not_P [OF 3(1)])
  qed
qed

lemma foldl_parse_line:
  "cfg_states (foldl parse_line p ls) =
     foldl decide (cfg_states p) (if cfg_title p = [] then body_lines ls else ls)"
  "cfg_golden (foldl parse_line p ls) =
     cfg_golden p @ filter golden_line (if cfg_title p = [] then body_lines ls else ls)"
proof (induction ls arbitrary: p)
  case (Cons l ls)
  {
    case 1
    show ?case
      using Cons [of "parse_line p l"] title_not_Nil [of l]
      by (cases "cfg_title p = [] \<and> Contains l ''Kernel Configuration''")
        (auto simp: parse_line_title parse_line_body)
  next
    case 2
    show ?case
      using Cons [of "parse_line p l"] title_not_Nil [of l]
      by (cases "cfg_title p = [] \<and> Contains l ''Kernel Configuration''")
        (auto simp: parse_line_title parse_line_body)
  }
qed auto

lemma Parse_states: "cfg_states (Parse c) = foldl decide Map.empty (body_lines (Split newline c))"
  by (simp add: Parse_def Let_def foldl_parse_line empty_config_def)

lemma Parse_cfg_golden:
  "cfg_golden (Parse c) = sort (filter golden_line (body_lines (Split newline c)))"
  by (simp add: Parse_def Let_def foldl_parse_line empty_config_def)

lemma foldl_decide:
  "foldl decide m ls s =
     (case map_of (rev (List.map_filter decided ls)) s of None \<Rightarrow> m s | Some st \<Rightarrow> Some st)"
  by (induction ls arbitrary: m)
    (auto simp: decide_def map_filter_simps map_add_def split: option.splits)

section \<open>Judging\<close>

lemma verify_decisions_held:
  "fst (verify_decisions c ds) \<longleftrightarrow> (\<forall>d \<in> set ds. met (Wanted d) (config_State c (Symbol d)))"
  by (induction ds) (auto simp: Let_def split_beta)

lemma verify_sections_held:
  "fst (verify_sections c ss) \<longleftrightarrow>
     (\<forall>s \<in> set ss. \<forall>d \<in> set (Decisions s). met (Wanted d) (config_State c (Symbol d)))"
  by (induction ss) (auto simp: Let_def split_beta verify_decisions_held)

lemma verify_decisions_out:
  "d \<in> set ds \<Longrightarrow>
     (if met (Wanted d) (config_State c (Symbol d)) then ok_line d (config_State c (Symbol d))
      else fail_line d (config_State c (Symbol d))) \<in> set (snd (verify_decisions c ds))"
  by (induction ds) (auto simp: Let_def split: prod.splits)

lemma verify_sections_out:
  "s \<in> set ss \<Longrightarrow> set (snd (verify_decisions c (Decisions s))) \<subseteq> set (snd (verify_sections c ss))"
  by (induction ss) (auto simp: Let_def split: prod.splits)

lemma drift_empty: "drift g got = ([], []) \<longleftrightarrow> set g = set got"
  by (auto simp: drift_def filter_empty_conv)

lemma Verify_out:
  "set (snd (verify_sections c p)) \<subseteq> set (snd (Verify c p g))"
  by (auto simp: Verify_def Let_def split: prod.splits option.splits)

lemma Verify_held:
  "fst (Verify c p g) \<longleftrightarrow>
     fst (verify_sections c p) \<and> (case g of None \<Rightarrow> True | Some gold \<Rightarrow> set gold = set (cfg_golden c))"
proof (cases g)
  case None
  then show ?thesis by (simp add: Verify_def Let_def split_beta)
next
  case (Some gold)
  then show ?thesis
    using drift_empty [of gold "cfg_golden c"]
    by (simp add: Verify_def Let_def split_beta prod_eq_iff)
qed

section \<open>Properties\<close>

text \<open>
  C19. After parsing, the state of a symbol is what the last line that decides it says, the
  title line (the first that mentions \<open>Kernel Configuration\<close>) deciding nothing; a symbol no
  line decides is absent.
\<close>

theorem parse_last_decision_wins:
  "config_State (Parse config) s =
     (case map_of (rev (List.map_filter decided (body_lines (Split newline config)))) s of
        None \<Rightarrow> StateAbsent | Some st \<Rightarrow> st)"
  by (simp add: config_State_def Parse_states foldl_decide split: option.split)

text \<open>
  The golden set of a configuration is the sorted list of the lines, title line apart,
  that assign \<open>y\<close>, \<open>m\<close>, a decimal number, a hexadecimal number or a quoted string to a
  symbol of capitals, digits and underscores.
\<close>

lemma parse_golden_set:
  "Golden (Parse config) = sort (filter golden_line (body_lines (Split newline config)))"
  by (simp add: Golden_def Parse_cfg_golden)

text \<open>
  C20. The regular expression \<^verbatim>\<open>goldenLine\<close>, run by derivatives, accepts exactly the
  lines a direct scan accepts: the prefix, the first equals sign, the symbol before it and
  the value after it.
\<close>

theorem golden_expression_decided:
  "matches goldenLine line = golden_line line"
  by (rule matches_golden_line)

text \<open>
  C10. The verdict on a parsed configuration is true exactly if every decision of the policy
  is met and, when a golden is given, it holds the same lines as the configuration's golden
  set (order and repetitions do not count).
\<close>

theorem verify_verdict:
  "fst (Verify (Parse config) policy golden) \<longleftrightarrow>
     (\<forall>d \<in> set (concat (map Decisions policy)). met (Wanted d) (config_State (Parse config) (Symbol d))) \<and>
     (case golden of None \<Rightarrow> True
      | Some gold \<Rightarrow> set gold = set (filter golden_line (body_lines (Split newline config))))"
  by (auto simp: Verify_held verify_sections_held Parse_cfg_golden split: option.split)

lemma verify_verdict_witness:
  "fst (Verify (Parse ''CONFIG_A=y'') [\<lparr>Title = ''t'', Decisions = [\<lparr>Symbol = ''A'', Wanted = WantY, Why = ''w''\<rparr>]\<rparr>]
     (Some [''CONFIG_A=y'']))"
  unfolding verify_verdict
  by (simp add: parse_last_decision_wins decided_def met_cases newline_def Contains_def HasPrefix_def HasSuffix_def
      TrimPrefix_def golden_line_def symbol_char_def value_kept_def List.map_filter_def)

text \<open>
  C39. A decision that is not met makes the verdict false and is reported: the line that names
  its symbol, the state found, the state wanted and the reason is printed.
\<close>

theorem verify_reports_unmet:
  assumes "d \<in> set (concat (map Decisions policy))"
    and "\<not> met (Wanted d) (config_State config (Symbol d))"
  shows "\<not> fst (Verify config policy golden) \<and>
     fail_line d (config_State config (Symbol d)) \<in> set (snd (Verify config policy golden))"
proof -
  obtain s where s: "s \<in> set policy" "d \<in> set (Decisions s)" using assms(1) by auto
  have "fail_line d (config_State config (Symbol d)) \<in> set (snd (verify_decisions config (Decisions s)))"
    using verify_decisions_out [OF s(2), of config] assms(2) by simp
  then have "fail_line d (config_State config (Symbol d)) \<in> set (snd (Verify config policy golden))"
    using verify_sections_out [OF s(1)] Verify_out by blast
  moreover have "\<not> fst (Verify config policy golden)"
    using s assms(2) by (auto simp: Verify_held verify_sections_held)
  ultimately show ?thesis by blast
qed

lemma verify_reports_unmet_witness:
  "\<not> fst (Verify empty_config [\<lparr>Title = ''t'', Decisions = [\<lparr>Symbol = ''A'', Wanted = WantY, Why = ''w''\<rparr>]\<rparr>] None)"
  using verify_reports_unmet
    [of "\<lparr>Symbol = ''A'', Wanted = WantY, Why = ''w''\<rparr>"
        "[\<lparr>Title = ''t'', Decisions = [\<lparr>Symbol = ''A'', Wanted = WantY, Why = ''w''\<rparr>]\<rparr>]" empty_config None]
  by (simp add: met_cases config_State_def empty_config_def)

text \<open>
  C40. A golden that differs from the configuration's makes the verdict false, and every line
  turned on and every line lost is printed.
\<close>

theorem verify_reports_drift:
  assumes "set gold \<noteq> set (cfg_golden config)"
  shows "\<not> fst (Verify config policy (Some gold)) \<and>
     (\<lambda>line. ''    + '' @ line @ nl) ` (set (cfg_golden config) - set gold) \<subseteq> set (snd (Verify config policy (Some gold))) \<and>
     (\<lambda>line. ''    - '' @ line @ nl) ` (set gold - set (cfg_golden config)) \<subseteq> set (snd (Verify config policy (Some gold)))"
proof -
  have ne: "drift gold (cfg_golden config) \<noteq> ([], [])" using drift_empty assms by blast
  obtain added removed where d: "drift gold (cfg_golden config) = (added, removed)"
    by (cases "drift gold (cfg_golden config)")
  then have set_d: "set added = set (cfg_golden config) - set gold" "set removed = set gold - set (cfg_golden config)"
    by (auto simp: drift_def)
  have "set (drift_report added removed) \<subseteq> set (snd (Verify config policy (Some gold)))"
    using ne d by (auto simp: Verify_def Let_def split_beta)
  moreover have "(\<lambda>line. ''    + '' @ line @ nl) ` set added \<subseteq> set (drift_report added removed)"
    "(\<lambda>line. ''    - '' @ line @ nl) ` set removed \<subseteq> set (drift_report added removed)"
    unfolding drift_report_def by (auto simp only: set_append set_map image_subset_iff Un_iff list.set if_False split: if_splits)
  moreover have "\<not> fst (Verify config policy (Some gold))" using assms by (simp add: Verify_held)
  ultimately show ?thesis unfolding set_d by blast
qed

lemma verify_reports_drift_witness:
  "\<not> fst (Verify empty_config [] (Some [''CONFIG_A=y'']))"
  using verify_reports_drift [of "[''CONFIG_A=y'']" empty_config "[]"] by (simp add: empty_config_def)

end
