(* ===== verification/Ikconfig_Policy.thy ===== *)
theory Ikconfig_Policy
  imports Ikconfig_Verify
begin

text \<open>
  \<^verbatim>\<open>internal/ikconfig/policy.go\<close>: the table of decisions the shipped kernel must
  carry, row by row, and the theorem that it asks for something a \<^verbatim>\<open>.config\<close> can
  say: no symbol is decided twice, and the file that states each decision passes \<open>Verify\<close>.
\<close>

section \<open>The table\<close>

abbreviation dec :: "string \<Rightarrow> Want \<Rightarrow> string \<Rightarrow> Decision" where
  "dec s w y \<equiv> \<lparr>Symbol = s, Wanted = w, Why = y\<rparr>"

definition sec_root_enabler :: Section where
  "sec_root_enabler = \<lparr>Title = ''root enabler'',
   Decisions = [
     dec ''EXPERT'' WantY ''gates the KPTI/BHB prompts below'']\<rparr>"

definition sec_preemption :: Section where
  "sec_preemption = \<lparr>Title = ''preemption (7.x arm64: NONE/VOLUNTARY unavailable; LAZY is lightest)'',
   Decisions = [
     dec ''PREEMPT_LAZY'' WantY ''lightest model selectable on 7.x arm64'',
     dec ''PREEMPT'' WantNotY ''full preemption = heaviest non-RT (measured: no sched-pipe gain)'',
     dec ''PREEMPT_DYNAMIC'' WantNotY ''no runtime-switchable preempt indirection'']\<rparr>"

definition sec_arch_hardening :: Section where
  "sec_arch_hardening = \<lparr>Title = ''arch hardening (VM boundary is the containment)'',
   Decisions = [
     dec ''ARM64_PTR_AUTH'' WantNotY ''user PAC key mgmt'',
     dec ''ARM64_PTR_AUTH_KERNEL'' WantNotY ''in-kernel signing codegen'',
     dec ''ARM64_BTI'' WantNotY [],
     dec ''ARM64_POE'' WantNotY [],
     dec ''ARM64_GCS'' WantNotY [],
     dec ''UNMAP_KERNEL_AT_EL0'' WantNotY ''KPTI (also runtime-off via mitigations=off)'',
     dec ''MITIGATE_SPECTRE_BRANCH_HISTORY'' WantNotY ''BHB (also runtime-off via mitigations=off)'',
     dec ''INIT_STACK_NONE'' WantY ''no per-call stack-var zeroing (Apple's choice)'',
     dec ''INIT_STACK_ALL_ZERO'' WantNotY ''must lose the choice to NONE'',
     dec ''LTO_CLANG_THIN'' WantY ''clang ThinLTO (build.sh builds with LLVM=1)'',
     dec ''ARM64_4K_PAGES'' WantY ''Rosetta (amd64 containers) requires 4K guest pages'']\<rparr>"

definition sec_core_plumbing :: Section where
  "sec_core_plumbing = \<lparr>Title = ''core plumbing (tinyconfig strips these; the allowlist MUST restore them)'',
   Decisions = [
     dec ''CC_OPTIMIZE_FOR_PERFORMANCE'' WantY ''-O2 not tinyconfig's -Os'',
     dec ''SMP'' WantY ''2+ vCPUs'',
     dec ''PRINTK'' WantY ''console output at all'',
     dec ''TTY'' WantY ''console + PTYs'',
     dec ''BLOCK'' WantY ''virtio-blk / ext4'',
     dec ''NET'' WantY ''networking core'',
     dec ''INET'' WantY ''IPv4'',
     dec ''UNIX'' WantY ''AF_UNIX (dockerd/containerd/gRPC)'',
     dec ''FUTEX'' WantY ''glibc/pthreads/Go runtime'',
     dec ''BLK_DEV_INITRD'' WantY ''initramfs root (ossein boots a cpio via rdinit=, no root device)'',
     dec ''BINFMT_ELF'' WantY ''run ELF binaries'',
     dec ''BINFMT_SCRIPT'' WantY ''run #! scripts'',
     dec ''FILE_LOCKING'' WantY (''fcntl/flock '' @ em_dash @ '' apt/dpkg/git/DBs; EXPERT-trap, every container needs it''),
     dec ''ADVISE_SYSCALLS'' WantY ''posix_fadvise/madvise; EXPERT-trap'',
     dec ''INOTIFY_USER'' WantY (''file watching '' @ em_dash @ '' countless container tools need it''),
     dec ''SHMEM'' WantY ''tmpfs backing (EXPERT-hidden; traps easily)'',
     dec ''NETDEVICES'' WantY ''menu gate over virtio-net/veth/tun'',
     dec ''VIRTIO_MENU'' WantY ''menu gate over virtio-pci transport'',
     dec ''PCI'' WantY ''VZ virtio-over-PCI'',
     dec ''ARM_GIC_V3'' WantY ''interrupt controller'',
     dec ''ARM_ARCH_TIMER'' WantY ''arch timer'',
     dec ''ARM_PSCI_FW'' WantY ''SMP boot + power-off'']\<rparr>"

definition sec_boot_contract :: Section where
  "sec_boot_contract = \<lparr>Title = ''boot contract (must always be on)'',
   Decisions = [
     dec ''VIRTIO_VSOCKETS'' WantY ''agent lifeline'',
     dec ''IKCONFIG'' WantY ''this check depends on it'',
     dec ''VIRTIO_PCI'' WantY ''virtio transport'',
     dec ''VIRTIO_BLK'' WantY ''root/cache disk'',
     dec ''VIRTIO_NET'' WantY ''guest networking'',
     dec ''VIRTIO_CONSOLE'' WantY ''console'',
     dec ''VIRTIO_FS'' WantY ''host<->guest shares'',
     dec ''FUSE_FS'' WantY ''virtio-fs needs fuse'',
     dec ''EXT4_FS'' WantY ''root disk fs'',
     dec ''OVERLAY_FS'' WantY ''container rootfs'',
     dec ''TMPFS'' WantY ''rootfs backing'',
     dec ''DEVTMPFS'' WantY ''/dev'',
     dec ''EROFS_FS'' WantY ''rootfs lower (mount-instead-of-extract materialization; erofs blob + no driver = boot ENODEV)'',
     dec ''EROFS_FS_XATTR'' WantY ''image xattrs'',
     dec ''EROFS_FS_SECURITY'' WantY ''security.capability on image files'',
     dec ''EROFS_FS_ZIP'' WantNotY (''uncompressed images only '' @ em_dash @ '' ZIP drags LZ4/XZ decompressors into the kernel for nothing''),
     dec ''POSIX_MQUEUE'' WantY ''OCI default mount /dev/mqueue (stage2 mounts it)'',
     dec ''UNIX98_PTYS'' WantY ''OCI default mount /dev/pts (devpts)'',
     dec ''VETH'' WantY ''container net'',
     dec ''BRIDGE'' WantNotY (''cut 2026-07-16 '' @ em_dash @ '' proven inert by a buildkit network-RUN test (B8)''),
     dec ''CGROUP_BPF'' WantY ''runc cgroup2 device policy (buildkit RUN); else bpf_prog_query EINVAL'',
     dec ''STACKPROTECTOR_STRONG'' WantY ''kernel stack canary (correctness net; +192KB, <0.5% runtime)'',
     dec ''SERIAL_AMBA_PL011_CONSOLE'' WantY ''VZ serial console'']\<rparr>"

definition sec_allowlist_sanity :: Section where
  "sec_allowlist_sanity = \<lparr>Title = ''allowlist sanity (never named '' @ right_arrow @ '' must be OFF; proves the empty base held)'',
   Decisions = [
     dec ''USB_SUPPORT'' WantNotY ''no USB in VZ'',
     dec ''SOUND'' WantNotY ''no audio'',
     dec ''DRM'' WantNotY ''headless'',
     dec ''WLAN'' WantNotY ''no wifi'',
     dec ''WIRELESS'' WantNotY ''no wifi subsystem'',
     dec ''ETHERNET'' WantNotY ''physical-NIC driver menu (~69 NET_VENDOR_* stubs); virtio-net doesn't need it'',
     dec ''NETWORK_FILESYSTEMS'' WantNotY ''no NFS/CIFS; ext4/overlay/tmpfs/virtio-fs only'',
     dec ''ATA'' WantNotY ''virtio-blk only'',
     dec ''ARCH_APPLE'' WantNotY ''VZ guest, not bare-metal SoC'',
     dec ''KALLSYMS_ALL'' WantNotY ''full symbol table = Image fat (was on under defconfig)'']\<rparr>"

definition sec_deliberate_cuts :: Section where
  "sec_deliberate_cuts = \<lparr>Title = ''deliberate cuts (must STAY off; if any reverts, something selects it)'',
   Decisions = [
     dec ''SWAP'' WantNotY ''no swap device ever attached'',
     dec ''DEBUG_INFO'' WantNotY ''no debug symbols / Image bloat (DEBUG_KERNEL itself is force-selected by EXPERT, so guard the real feature)'',
     dec ''CFS_BANDWIDTH'' WantNotY ''OCI spec sets no cpu limits (cgroup cpu ctrl cut)'',
     dec ''BLK_CGROUP'' WantNotY ''OCI spec sets no io limits (cgroup io ctrl cut)'',
     dec ''KALLSYMS'' WantNotY ''cut: ~1ns getpid (layout); debug-only, re-add locally to chase a panic'',
     dec ''COMPACTION'' WantNotY ''cut: part of the ~1ns getpid layout regression'',
     dec ''MIGRATION'' WantNotY ''cut: part of the ~1ns getpid layout regression'']\<rparr>"

definition Policy :: "Section list" where
  "Policy = [sec_root_enabler, sec_preemption, sec_arch_hardening, sec_core_plumbing, sec_boot_contract, sec_allowlist_sanity, sec_deliberate_cuts]"

section \<open>A configuration that meets a policy\<close>

definition all_decisions :: "Section list \<Rightarrow> Decision list" where
  "all_decisions p = concat (map Decisions p)"

text \<open>The lines a \<^verbatim>\<open>.config\<close> states decisions with.\<close>

definition decision_line :: "Decision \<Rightarrow> string" where
  "decision_line d =
     (if Wanted d = WantY then ''CONFIG_'' @ Symbol d @ ''=y''
      else ''# CONFIG_'' @ Symbol d @ '' is not set'')"

definition stating :: "Section list \<Rightarrow> string" where
  "stating p = Join (map decision_line (all_decisions p)) [newline]"

definition symbol_ok :: "string \<Rightarrow> bool" where
  "symbol_ok s \<longleftrightarrow> s \<noteq> [] \<and> list_all symbol_char s"

definition consistent :: "Section list \<Rightarrow> bool" where
  "consistent p \<longleftrightarrow>
     distinct (map Symbol (all_decisions p)) \<and> list_all (\<lambda>d. symbol_ok (Symbol d)) (all_decisions p)"

lemma symbol_ok_notin:
  "symbol_ok s \<Longrightarrow> \<not> symbol_char c \<Longrightarrow> c \<notin> set s"
  by (auto simp: symbol_ok_def list_all_iff)

lemma not_symbol_chars:
  "\<not> symbol_char newline" "\<not> symbol_char CHR ''f''" "\<not> symbol_char CHR ''=''"
  by (simp_all add: symbol_char_def newline_def)

lemma decision_line_no_newline: "symbol_ok (Symbol d) \<Longrightarrow> newline \<notin> set (decision_line d)"
  using symbol_ok_notin [OF _ not_symbol_chars(1)]
  by (auto simp: decision_line_def newline_def)

lemma decision_line_no_title:
  assumes "symbol_ok (Symbol d)"
  shows "\<not> Contains (decision_line d) ''Kernel Configuration''"
proof
  assume "Contains (decision_line d) ''Kernel Configuration''"
  then have "CHR ''f'' \<in> set (decision_line d)" by (auto simp: Contains_iff)
  with symbol_ok_notin [OF assms not_symbol_chars(2)] show False
    by (auto simp: decision_line_def split: if_splits)
qed

lemma decided_decision_line:
  assumes "symbol_ok (Symbol d)"
  shows "decided (decision_line d) =
     Some (Symbol d, if Wanted d = WantY then StateY else StateN)"
proof (cases "Wanted d = WantY")
  case True
  have "CHR ''='' \<notin> set (Symbol d)" by (rule symbol_ok_notin [OF assms not_symbol_chars(3)])
  then have "Cut (Symbol d @ ''=y'') ''='' = (Symbol d, ''y'', True)"
    using Cut_char [of "CHR ''=''" "Symbol d" "''y''"] by simp
  moreover have "TrimPrefix (''CONFIG_'' @ Symbol d @ ''=y'') ''CONFIG_'' = Symbol d @ ''=y''"
    by (rule TrimPrefix_append)
  ultimately show ?thesis using True by (simp add: decided_def decision_line_def)
next
  case False
  have "TrimPrefix (''# CONFIG_'' @ Symbol d @ '' is not set'') ''# CONFIG_'' = Symbol d @ '' is not set''"
    by (rule TrimPrefix_append)
  moreover have "HasSuffix (''# CONFIG_'' @ Symbol d @ '' is not set'') '' is not set''"
    by (metis HasSuffix_append append.assoc)
  moreover have "HasPrefix (''# CONFIG_'' @ Symbol d @ '' is not set'') ''# CONFIG_''"
    by (rule HasPrefix_append)
  moreover have "TrimSuffix (Symbol d @ '' is not set'') '' is not set'' = Symbol d"
    by (rule TrimSuffix_append)
  ultimately show ?thesis using False unfolding decided_def decision_line_def
    by (simp only: if_False if_True simp_thms)
qed

lemma body_lines_id: "(\<And>l. l \<in> set ls \<Longrightarrow> \<not> Contains l ''Kernel Configuration'') \<Longrightarrow> body_lines ls = ls"
  by (induction ls) auto

lemma config_State_stating:
  assumes "consistent p" and "d \<in> set (all_decisions p)"
  shows "config_State (Parse (stating p)) (Symbol d) = (if Wanted d = WantY then StateY else StateN)"
proof -
  let ?ds = "all_decisions p"
  have ok: "\<And>x. x \<in> set ?ds \<Longrightarrow> symbol_ok (Symbol x)"
    using assms(1) by (auto simp: consistent_def list_all_iff)
  have ne: "map decision_line ?ds \<noteq> []" using assms(2) by auto
  have "Split newline (stating p) = map decision_line ?ds"
    unfolding stating_def by (rule Split_Join [OF ne]) (auto dest: ok decision_line_no_newline)
  then have "body_lines (Split newline (stating p)) = map decision_line ?ds"
    using body_lines_id [of "map decision_line ?ds"] ok decision_line_no_title by fastforce
  moreover have "List.map_filter decided (map decision_line ds) =
      map (\<lambda>x. (Symbol x, if Wanted x = WantY then StateY else StateN)) ds"
    if "set ds \<subseteq> set ?ds" for ds
    using that by (induction ds) (auto simp: map_filter_simps decided_decision_line ok)
  ultimately have "cfg_states (Parse (stating p)) (Symbol d) =
      map_of (rev (map (\<lambda>x. (Symbol x, if Wanted x = WantY then StateY else StateN)) ?ds)) (Symbol d)"
    by (simp add: Parse_states foldl_decide split: option.splits)
  also have "\<dots> = Some (if Wanted d = WantY then StateY else StateN)"
  proof (rule map_of_is_SomeI)
    show "distinct (map fst (rev (map (\<lambda>x. (Symbol x, if Wanted x = WantY then StateY else StateN)) ?ds)))"
      using assms(1) by (simp add: consistent_def comp_def rev_map [symmetric])
  qed (use assms(2) in auto)
  finally show ?thesis by (simp add: config_State_def)
qed

lemma stating_held: "consistent p \<Longrightarrow> fst (verify_sections (Parse (stating p)) p)"
  using config_State_stating [of p]
  by (fastforce simp: verify_sections_held met.simps all_decisions_def)

lemma Policy_consistent: "consistent Policy"
  by code_simp

section \<open>Properties\<close>



end
