(* ===== verification/Go_Path.thy ===== *)
theory Go_Path
  imports Go_Strings
begin

text \<open>
  The functions of Go's \<^verbatim>\<open>path\<close> and \<^verbatim>\<open>path/filepath\<close> packages the
  repository calls (on the Unix systems it targets the two agree), and the lemma library of
  lexical path cleaning: a path is \<^emph>\<open>parsed\<close> into a root flag and its normalised
  elements, \<^verbatim>\<open>Clean\<close> renders that back, and rendering is inverted by parsing on
  canonical paths. Everything the components need about cleaned paths follows from the
  contract \<open>normal_form\<close> below, which the parser and the renderer are shown to meet.
\<close>

section \<open>Normal forms: a contract\<close>

text \<open>
  A text format with a canonical abstract value: \<open>abs\<close> reads any text, \<open>rep\<close>
  writes a value, and reading what was written gives a good value back. Normalising is
  reading and writing; it is idempotent and its fixed points are the written good values.
\<close>

locale normal_form =
  fixes read_text :: "'t \<Rightarrow> 'a"
    and write_text :: "'a \<Rightarrow> 't"
    and good :: "'a \<Rightarrow> bool"
  assumes read_good: "good (read_text t)"
    and read_write: "good a \<Longrightarrow> read_text (write_text a) = a"
begin

lemma normalise_idem:
  "write_text (read_text (write_text (read_text t))) = write_text (read_text t)"
  by (simp add: read_write read_good)

lemma fixpoint_iff: "write_text (read_text t) = t \<longleftrightarrow> (\<exists>a. good a \<and> t = write_text a)"
  by (metis read_good read_write)

lemma write_inj: "good a \<Longrightarrow> good b \<Longrightarrow> write_text a = write_text b \<Longrightarrow> a = b"
  by (metis read_write)

end

section \<open>Elements of a path\<close>

text \<open>
  \<^verbatim>\<open>Clean\<close> reads the elements left to right: empty ones and \<open>.\<close> are dropped,
  \<open>..\<close> removes the element before it where there is one to remove, is dropped at the
  root, and stays otherwise. The accumulator holds the elements kept, last one first.
\<close>

definition dot :: string where "dot = ''.''"
definition dotdot :: string where "dotdot = ''..''"

fun clean_elems :: "bool \<Rightarrow> string list \<Rightarrow> string list \<Rightarrow> string list" where
  "clean_elems rooted acc [] = rev acc"
| "clean_elems rooted acc (e # es) =
     (if e = [] \<or> e = dot then clean_elems rooted acc es
      else if e = dotdot then
        (case acc of
           [] \<Rightarrow> clean_elems rooted (if rooted then [] else [dotdot]) es
         | x # xs \<Rightarrow> clean_elems rooted (if x = dotdot then dotdot # acc else xs) es)
      else clean_elems rooted (e # acc) es)"

definition IsAbs :: "string \<Rightarrow> bool" where
  "IsAbs p = HasPrefix p ''/''"

definition parse_path :: "string \<Rightarrow> bool \<times> string list" where
  "parse_path p = (IsAbs p, clean_elems (IsAbs p) [] (Split CHR ''/'' p))"

definition render_path :: "bool \<times> string list \<Rightarrow> string" where
  "render_path rc =
     (case rc of (rooted, es) \<Rightarrow>
        if rooted then CHR ''/'' # Join es ''/''
        else if es = [] then dot else Join es ''/'')"

definition Clean :: "string \<Rightarrow> string" where
  "Clean p = render_path (parse_path p)"

text \<open>
  Canonical elements: names that hold no slash, are not empty and not \<open>.\<close>; a
  \<open>..\<close> only in front, and never below the root.
\<close>

definition elem_ok :: "string \<Rightarrow> bool" where
  "elem_ok e \<longleftrightarrow> e \<noteq> [] \<and> e \<noteq> dot \<and> CHR ''/'' \<notin> set e"

definition name_ok :: "string \<Rightarrow> bool" where
  "name_ok e \<longleftrightarrow> elem_ok e \<and> e \<noteq> dotdot"

fun dots_first :: "string list \<Rightarrow> bool" where
  "dots_first [] = True"
| "dots_first (e # es) = (if e = dotdot then dots_first es else dotdot \<notin> set es)"

definition canonical :: "bool \<times> string list \<Rightarrow> bool" where
  "canonical rc \<longleftrightarrow>
     (\<forall>e \<in> set (snd rc). elem_ok e) \<and>
     (if fst rc then dotdot \<notin> set (snd rc) else dots_first (snd rc))"

lemma dot_simps [simp]: "dot \<noteq> []" "dotdot \<noteq> []" "dot \<noteq> dotdot" "dotdot \<noteq> dot"
  by (simp_all add: dot_def dotdot_def)

lemma elem_ok_dotdot [simp]: "elem_ok dotdot"
  by (simp add: elem_ok_def) (simp add: dotdot_def)

lemma dots_first_no_dotdot: "dotdot \<notin> set es \<Longrightarrow> dots_first es"
  by (cases es) auto

lemma dots_first_append_name:
  "dots_first es \<Longrightarrow> e \<noteq> dotdot \<Longrightarrow> dots_first (es @ [e])"
  by (induction es) auto

lemma dots_first_butlast: "dots_first (es @ [e]) \<Longrightarrow> dots_first es"
  by (induction es) (auto split: if_splits)

lemma dots_first_append_dotdot:
  "dots_first (es @ [dotdot]) \<longleftrightarrow> set es \<subseteq> {dotdot}"
  by (induction es) auto

lemma dots_first_last_dotdot: "dots_first es \<Longrightarrow> es \<noteq> [] \<Longrightarrow> last es = dotdot \<Longrightarrow> set es \<subseteq> {dotdot}"
  by (induction es) (auto split: if_splits dest: last_in_set)

text \<open>The accumulator stays canonical, so the result is.\<close>

lemma canonical_step_keeps:
  assumes "canonical (r, rev acc)" and "CHR ''/'' \<notin> set e"
  shows "canonical (r, rev (if e = [] \<or> e = dot then acc
           else if e = dotdot then
             (case acc of [] \<Rightarrow> if r then [] else [dotdot]
              | x # xs \<Rightarrow> if x = dotdot then dotdot # acc else xs)
           else e # acc))"
proof (cases "e = dotdot")
  case True
  show ?thesis
  proof (cases acc)
    case Nil
    with True show ?thesis by (auto simp: canonical_def)
  next
    case (Cons x xs)
    have ok: "\<forall>y \<in> set xs. elem_ok y"
      and df: "if r then dotdot \<notin> set acc else dots_first (rev xs @ [x])"
      using assms(1) Cons by (auto simp: canonical_def)
    show ?thesis
    proof (cases "x = dotdot")
      case x: True
      with df Cons have "\<not> r" "set xs \<subseteq> {dotdot}"
        by (auto simp: dots_first_append_dotdot split: if_splits)
      then have "dots_first ((rev xs @ [dotdot]) @ [dotdot])"
        by (subst dots_first_append_dotdot) simp
      with True x Cons ok \<open>\<not> r\<close> show ?thesis by (simp add: canonical_def)
    next
      case False
      with True Cons ok df show ?thesis
        by (auto simp: canonical_def dest: dots_first_butlast split: if_splits)
    qed
  qed
next
  case False
  show ?thesis
  proof (cases "e = [] \<or> e = dot")
    case True
    then show ?thesis using assms(1) by simp
  next
    case ne: False
    with assms(2) have "elem_ok e" by (simp add: elem_ok_def)
    moreover have "dots_first (rev acc) \<Longrightarrow> dots_first (rev acc @ [e])"
      using False by (simp add: dots_first_append_name)
    ultimately have "canonical (r, rev (e # acc))"
      using assms(1) False by (cases r) (simp_all add: canonical_def)
    then show ?thesis using ne False by simp
  qed
qed

lemma canonical_clean_elems:
  "canonical (r, rev acc) \<Longrightarrow> (\<And>e. e \<in> set es \<Longrightarrow> CHR ''/'' \<notin> set e) \<Longrightarrow>
     canonical (r, clean_elems r acc es)"
proof (induction es arbitrary: acc)
  case Nil
  then show ?case by simp
next
  case (Cons e es)
  let ?acc = "if e = [] \<or> e = dot then acc
           else if e = dotdot then
             (case acc of [] \<Rightarrow> if r then [] else [dotdot]
              | x # xs \<Rightarrow> if x = dotdot then dotdot # acc else xs)
           else e # acc"
  have "canonical (r, rev ?acc)"
    by (rule canonical_step_keeps) (use Cons.prems in auto)
  then have "canonical (r, clean_elems r ?acc es)"
    using Cons.prems(2) by (intro Cons.IH) auto
  moreover have "clean_elems r acc (e # es) = clean_elems r ?acc es"
    by (auto split: list.split)
  ultimately show ?case by metis
qed

text \<open>On elements that are canonical already, nothing changes.\<close>

lemma clean_elems_names:
  "(\<And>e. e \<in> set es \<Longrightarrow> e \<noteq> [] \<and> e \<noteq> dot \<and> e \<noteq> dotdot) \<Longrightarrow>
     clean_elems r acc es = rev acc @ es"
  by (induction es arbitrary: acc) auto

lemma clean_elems_canonical:
  "canonical (False, rev acc @ es) \<Longrightarrow> clean_elems False acc es = rev acc @ es"
proof (induction es arbitrary: acc)
  case Nil
  then show ?case by simp
next
  case (Cons e es)
  have e: "elem_ok e" using Cons.prems by (simp add: canonical_def)
  have IH: "clean_elems False (e # acc) es = rev acc @ e # es"
    using Cons.IH [of "e # acc"] Cons.prems by simp
  show ?case
  proof (cases "e = dotdot \<and> acc \<noteq> []")
    case True
    then obtain x xs where acc: "acc = x # xs" by (cases acc) auto
    have "dots_first (rev acc @ [dotdot] @ es)"
      using Cons.prems True by (simp add: canonical_def)
    then have "dots_first (rev acc @ [dotdot])"
    proof (induction es rule: rev_induct)
      case (snoc y ys)
      then show ?case by (metis append.assoc dots_first_butlast)
    qed simp
    then have "x = dotdot"
      using dots_first_append_dotdot [of "rev xs @ [x]"] by (simp add: acc)
    with True acc IH show ?thesis by simp
  next
    case False
    with IH e show ?thesis by (auto simp: elem_ok_def)
  qed
qed

lemma clean_elems_empty: "clean_elems r acc ([] # es) = clean_elems r acc es"
  by simp

section \<open>Parsing and rendering\<close>

lemma parse_path_canonical: "canonical (parse_path p)"
  unfolding parse_path_def
  by (rule canonical_clean_elems) (auto simp: canonical_def dest: Split_pieces)

lemma Join_elems_no_lead:
  assumes "\<forall>e \<in> set es. elem_ok e" and "es \<noteq> []"
  shows "\<exists>c s. Join es ''/'' = c # s \<and> c \<noteq> CHR ''/''"
proof -
  obtain e es' where es: "es = e # es'" using assms(2) by (cases es) auto
  with assms obtain c s where "e = c # s" "c \<noteq> CHR ''/''"
    by (cases e) (auto simp: elem_ok_def)
  with es show ?thesis by (auto simp: Join_Cons)
qed

lemma parse_render: "canonical rc \<Longrightarrow> parse_path (render_path rc) = rc"
proof -
  assume c: "canonical rc"
  obtain r es where rc: "rc = (r, es)" by (cases rc)
  have ok: "\<forall>e \<in> set es. elem_ok e" using c rc by (simp add: canonical_def)
  then have sp: "es \<noteq> [] \<Longrightarrow> Split CHR ''/'' (Join es ''/'') = es"
    by (intro Split_Join) (auto simp: elem_ok_def)
  show ?thesis
  proof (cases r)
    case True
    with c rc ok have names: "e \<in> set es \<Longrightarrow> e \<noteq> [] \<and> e \<noteq> dot \<and> e \<noteq> dotdot" for e
      by (auto simp: canonical_def elem_ok_def)
    have "parse_path (render_path rc) = (True, clean_elems True [] (Split CHR ''/'' (Join es ''/'')))"
      using True rc by (simp add: parse_path_def render_path_def IsAbs_def)
    moreover have "clean_elems True [] (Split CHR ''/'' (Join es ''/'')) = es"
    proof (cases "es = []")
      case False
      then show ?thesis by (subst sp, simp, subst clean_elems_names) (auto dest: names)
    qed simp
    ultimately show ?thesis using True rc by simp
  next
    case False
    show ?thesis
    proof (cases "es = []")
      case True
      with False rc show ?thesis
        by (simp add: parse_path_def render_path_def IsAbs_def dot_def)
    next
      case ne: False
      have "\<not> IsAbs (Join es ''/'')"
        using Join_elems_no_lead [OF ok ne] by (auto simp: IsAbs_def)
      moreover have "clean_elems False [] es = es"
        using clean_elems_canonical [of "[]" es] c rc False by simp
      ultimately show ?thesis using False rc ne by (simp add: parse_path_def render_path_def sp)
    qed
  qed
qed

interpretation cleaned: normal_form parse_path render_path canonical
  by unfold_locales (auto intro: parse_path_canonical parse_render)

lemma Clean_idem [simp]: "Clean (Clean p) = Clean p"
  unfolding Clean_def by (rule cleaned.normalise_idem)

lemma Clean_fix_iff: "Clean p = p \<longleftrightarrow> (\<exists>rc. canonical rc \<and> p = render_path rc)"
  unfolding Clean_def by (rule cleaned.fixpoint_iff)

lemma parse_Clean: "parse_path (Clean p) = parse_path p"
  by (simp add: Clean_def parse_render parse_path_canonical)

lemma Clean_not_Nil: "Clean p \<noteq> []"
proof -
  obtain r es where p: "parse_path p = (r, es)" by (cases "parse_path p")
  then have "\<forall>e \<in> set es. elem_ok e" using parse_path_canonical [of p] by (simp add: canonical_def)
  then show ?thesis using p Join_elems_no_lead [of es] by (auto simp: Clean_def render_path_def)
qed

lemma IsAbs_Clean: "IsAbs (Clean p) = IsAbs p"
  by (metis fst_conv parse_Clean parse_path_def)

lemma canonical_relative: "canonical (r, es) \<Longrightarrow> canonical (False, es)"
  by (auto simp: canonical_def intro: dots_first_no_dotdot split: if_splits)

section \<open>Join, Split, Dir and Base\<close>

text \<open>
  \<^verbatim>\<open>filepath.Join\<close> of two elements: leading empty elements are ignored and the rest is
  joined with a slash and cleaned.
\<close>

definition PathJoin :: "string \<Rightarrow> string \<Rightarrow> string" where
  "PathJoin a b =
     (if a \<noteq> [] then Clean (a @ ''/'' @ b) else if b \<noteq> [] then Clean b else [])"

text \<open>\<^verbatim>\<open>filepath.Split\<close>: up to and with the last slash, and what follows it.\<close>

definition PathSplit :: "string \<Rightarrow> string \<times> string" where
  "PathSplit p =
     (let name = rev (takeWhile (\<lambda>c. c \<noteq> CHR ''/'') (rev p))
      in (take (length p - length name) p, name))"

definition PathDir :: "string \<Rightarrow> string" where
  "PathDir p = Clean (fst (PathSplit p))"

definition PathBase :: "string \<Rightarrow> string" where
  "PathBase p =
     (if p = [] then ''.''
      else let q = rev (dropWhile (\<lambda>c. c = CHR ''/'') (rev p)); name = snd (PathSplit q)
           in if name = [] then ''/'' else name)"

lemma PathSplit_append: "fst (PathSplit p) @ snd (PathSplit p) = p"
proof -
  have "take (length p - length (takeWhile (\<lambda>c. c \<noteq> CHR ''/'') (rev p))) p
          @ rev (takeWhile (\<lambda>c. c \<noteq> CHR ''/'') (rev p)) = p"
    by (metis append_take_drop_id drop_rev length_rev rev_rev_ident takeWhile_eq_take
        rev_take take_rev length_takeWhile_le)
  then show ?thesis by (simp add: PathSplit_def Let_def)
qed

lemma PathSplit_name_no_slash: "CHR ''/'' \<notin> set (snd (PathSplit p))"
  by (auto simp: PathSplit_def Let_def dest: set_takeWhileD)

lemma takeWhile_no_slash:
  "CHR ''/'' \<notin> set n \<Longrightarrow> takeWhile (\<lambda>c. c \<noteq> CHR ''/'') (rev n) = rev n"
  by (rule takeWhile_all) auto

lemma PathSplit_slash: "CHR ''/'' \<notin> set n \<Longrightarrow> PathSplit (d @ ''/'' @ n) = (d @ ''/'', n)"
  by (simp add: PathSplit_def Let_def takeWhile_append takeWhile_no_slash)

lemma PathSplit_plain: "CHR ''/'' \<notin> set n \<Longrightarrow> PathSplit n = ([], n)"
  by (simp add: PathSplit_def Let_def takeWhile_no_slash)

section \<open>The directory of a rendered path\<close>

lemma clean_elems_snoc_empty: "clean_elems r acc (es @ [[]]) = clean_elems r acc es"
  by (induction r acc es rule: clean_elems.induct) (auto split: list.split)

lemma Clean_slash: "p \<noteq> [] \<Longrightarrow> Clean (p @ ''/'') = Clean p"
  using Split_snoc_sep [of "CHR ''/''" p]
  by (cases p) (simp_all add: Clean_def parse_path_def IsAbs_def clean_elems_snoc_empty)

lemma Join_snoc: "ts \<noteq> [] \<Longrightarrow> Join (ts @ [t]) sep = Join ts sep @ sep @ t"
  by (simp add: Join_append)

lemma PathDir_render:
  assumes "canonical (r, ts @ [t])"
  shows "PathDir (render_path (r, ts @ [t])) = render_path (r, ts)"
proof -
  have t: "CHR ''/'' \<notin> set t" using assms by (simp add: canonical_def elem_ok_def)
  have ts: "canonical (r, ts)"
    using assms by (auto simp: canonical_def dest: dots_first_butlast split: if_splits)
  show ?thesis
  proof (cases "ts = []")
    case True
    with t show ?thesis
      using PathSplit_slash [of t "[]"] PathSplit_plain [of t]
      by (cases r) (simp_all add: PathDir_def render_path_def Clean_def parse_path_def IsAbs_def)
  next
    case False
    let ?d = "(if r then ''/'' else []) @ Join ts ''/''"
    have d: "render_path (r, ts) = ?d" "render_path (r, ts @ [t]) = ?d @ ''/'' @ t"
      using False by (simp_all add: render_path_def Join_snoc)
    have "PathDir (?d @ ''/'' @ t) = Clean (?d @ ''/'')"
      using PathSplit_slash [OF t, of ?d] by (simp add: PathDir_def)
    also have "\<dots> = Clean ?d"
      using Join_elems_no_lead [of ts] ts False by (intro Clean_slash) (auto simp: canonical_def)
    also have "\<dots> = render_path (r, ts)"
      using ts d(1) Clean_fix_iff by metis
    finally show ?thesis using d(2) by simp
  qed
qed

section \<open>A name joined to a directory\<close>

lemma clean_elems_snoc_name: "name_ok n \<Longrightarrow> clean_elems r acc (es @ [n]) = clean_elems r acc es @ [n]"
  by (induction r acc es rule: clean_elems.induct) (auto simp: name_ok_def elem_ok_def split: list.split)

lemma Split_append_any: "Split c (a @ c # b) = Split c a @ Split c b"
  by (induction a) (auto split: list.splits)

lemma parse_path_name:
  assumes "name_ok n"
  shows "parse_path (d @ ''/'' @ n) = (IsAbs (d @ ''/''), snd (parse_path (d @ ''/'')) @ [n])"
proof -
  have n: "CHR ''/'' \<notin> set n" using assms by (simp add: name_ok_def elem_ok_def)
  have abs: "IsAbs (d @ ''/'' @ n) = IsAbs (d @ ''/'')" by (cases d) (simp_all add: IsAbs_def)
  have "Split CHR ''/'' (d @ ''/'' @ n) = butlast (Split CHR ''/'' (d @ ''/'')) @ [n]"
    using Split_append_any [of "CHR ''/''" d n] Split_append_any [of "CHR ''/''" d "[]"] Split_no_sep [OF n] by simp
  moreover have "Split CHR ''/'' (d @ ''/'') = butlast (Split CHR ''/'' (d @ ''/'')) @ [[]]"
    using Split_snoc_sep [of "CHR ''/''" d] by simp
  then have "clean_elems r [] (Split CHR ''/'' (d @ ''/'')) = clean_elems r [] (butlast (Split CHR ''/'' (d @ ''/'')))" for r
    by (metis clean_elems_snoc_empty)
  ultimately show ?thesis
    unfolding parse_path_def abs by (simp add: clean_elems_snoc_name [OF assms])
qed

lemma name_ok_not_Nil: "name_ok n \<Longrightarrow> n \<noteq> []"
  by (simp add: name_ok_def elem_ok_def)

lemma parse_name: "name_ok n \<Longrightarrow> parse_path n = (False, [n])"
  by (cases n) (auto simp: parse_path_def IsAbs_def name_ok_def elem_ok_def Split_no_sep)

text \<open>The elements of a directory, where the empty text stands for the working directory.\<close>

definition dir_elems :: "string \<Rightarrow> bool \<times> string list" where
  "dir_elems d = (if d = [] then (False, []) else parse_path d)"

lemma parse_path_slash: "d \<noteq> [] \<Longrightarrow> parse_path (d @ ''/'') = parse_path d"
  using Clean_slash [of d] parse_Clean by metis

lemma PathJoin_name:
  assumes "name_ok n"
  shows "PathJoin d n = render_path (fst (dir_elems d), snd (dir_elems d) @ [n])"
    and "canonical (fst (dir_elems d), snd (dir_elems d) @ [n])"
proof -
  show "PathJoin d n = render_path (fst (dir_elems d), snd (dir_elems d) @ [n])"
  proof (cases "d = []")
    case True
    with name_ok_not_Nil [OF assms] parse_name [OF assms] show ?thesis
      by (simp add: PathJoin_def dir_elems_def Clean_def)
  next
    case False
    then have "IsAbs (d @ ''/'') = fst (parse_path d)" by (cases d) (simp_all add: parse_path_def IsAbs_def)
    with False parse_path_name [OF assms, of d] parse_path_slash [OF False] show ?thesis
      by (simp add: PathJoin_def dir_elems_def Clean_def)
  qed
  have "canonical (dir_elems d)"
    using parse_path_canonical [of d] by (simp add: dir_elems_def canonical_def)
  then show "canonical (fst (dir_elems d), snd (dir_elems d) @ [n])"
    using assms by (auto simp: canonical_def name_ok_def intro: dots_first_append_name)
qed

lemma parse_PathJoin_name: "name_ok n \<Longrightarrow> parse_path (PathJoin d n) = (fst (dir_elems d), snd (dir_elems d) @ [n])"
  unfolding PathJoin_name(1) by (rule parse_render) (rule PathJoin_name(2))

lemma PathJoin_inj: "name_ok m \<Longrightarrow> name_ok n \<Longrightarrow> PathJoin d m = PathJoin d n \<longleftrightarrow> m = n"
  by (metis parse_PathJoin_name prod.inject last_snoc)

lemma PathDir_PathJoin: "name_ok n \<Longrightarrow> PathDir (PathJoin d n) = Clean d"
  using PathDir_render [OF PathJoin_name(2)] PathJoin_name(1)
  by (simp add: dir_elems_def Clean_def parse_path_def IsAbs_def split: if_splits)

lemma render_snoc:
  assumes "canonical (r, es @ [n])"
  shows "\<exists>d. render_path (r, es @ [n]) = d @ n \<and> (d = [] \<or> (\<exists>e. d = e @ ''/''))"
  using assms by (cases "es = []"; cases r) (auto simp: render_path_def Join_snoc intro: exI [of _ "_ # _"])

text \<open>What names joined to one directory have in common.\<close>

lemma PathJoin_common: "\<exists>x. \<forall>n. name_ok n \<longrightarrow> PathJoin d n = x @ n"
proof -
  obtain r es where d: "dir_elems d = (r, es)" by (cases "dir_elems d")
  have "render_path (r, es @ [n]) = (if r then ''/'' else []) @ (if es = [] then [] else Join es ''/'' @ ''/'') @ n"
    if "name_ok n" for n
    using that by (auto simp: render_path_def Join_snoc)
  then show ?thesis
    using PathJoin_name(1) [of _ d] d
    by (intro exI [of _ "(if r then ''/'' else []) @ (if es = [] then [] else Join es ''/'' @ ''/'')"]) simp
qed

lemma PathSplit_PathJoin:
  assumes "name_ok n"
  shows "snd (PathSplit (PathJoin d n)) = n"
proof -
  have n: "CHR ''/'' \<notin> set n" using assms by (simp add: name_ok_def elem_ok_def)
  obtain x where "PathJoin d n = x @ n" "x = [] \<or> (\<exists>e. x = e @ ''/'')"
    using render_snoc [OF PathJoin_name(2) [OF assms]] PathJoin_name(1) [OF assms] by metis
  with PathSplit_slash [OF n] PathSplit_plain [OF n] show ?thesis by auto
qed

lemma PathBase_PathJoin:
  assumes "name_ok n"
  shows "PathBase (PathJoin d n) = n"
proof -
  have n: "n \<noteq> []" "CHR ''/'' \<notin> set n" using assms by (simp_all add: name_ok_def elem_ok_def)
  obtain x where x: "PathJoin d n = x @ n"
    using render_snoc [OF PathJoin_name(2) [OF assms]] PathJoin_name(1) [OF assms] by metis
  have "last n \<noteq> CHR ''/''" using n by (metis last_in_set)
  then have "dropWhile (\<lambda>c. c = CHR ''/'') (rev (x @ n)) = rev (x @ n)"
    using n(1) by (cases "rev n") (auto simp: last_rev [symmetric] hd_rev rev_eq_Cons_iff)
  with PathSplit_PathJoin [OF assms, of d] x n(1) show ?thesis
    by (simp add: PathBase_def del: rev_append)
qed

end
