(* ===== verification/Go_Effect.thy ===== *)
theory Go_Effect
  imports Go_Prelude
begin

text \<open>
  Programs with effects and errors: a program takes a state and returns a result, which is
  an error or a value, and the state after it. The combinators follow the shapes Go code
  has; the rules about invariants let a component's proof follow its control flow.
\<close>

section \<open>Sequencing\<close>

type_synonym ('a, 's) prog = "'s \<Rightarrow> 'a result \<times> 's"

text \<open>
  \<open>tryE m f k\<close> is Go's \<^verbatim>\<open>x, err := m; if err != nil { return f(err) }; k\<close>;
  \<open>catchE\<close> goes on with the error instead, \<open>ignoreE\<close> is \<^verbatim>\<open>_ = m\<close>, and
  \<open>deferE m d\<close> runs \<open>d\<close> when \<open>m\<close> returns.
\<close>

definition ret :: "'a \<Rightarrow> ('a, 's) prog" where
  "ret x w = (Inr x, w)"

definition failE :: "goerr \<Rightarrow> ('a, 's) prog" where
  "failE e w = (Inl e, w)"

definition catchE :: "('a, 's) prog \<Rightarrow> (goerr \<Rightarrow> ('b, 's) prog) \<Rightarrow> ('a \<Rightarrow> ('b, 's) prog) \<Rightarrow> ('b, 's) prog" where
  "catchE m h k w = (case m w of (Inl e, w') \<Rightarrow> h e w' | (Inr x, w') \<Rightarrow> k x w')"

definition tryE :: "('a, 's) prog \<Rightarrow> (goerr \<Rightarrow> goerr) \<Rightarrow> ('a \<Rightarrow> ('b, 's) prog) \<Rightarrow> ('b, 's) prog" where
  "tryE m f k = catchE m (\<lambda>e. failE (f e)) k"

definition ignoreE :: "('a, 's) prog \<Rightarrow> ('b, 's) prog \<Rightarrow> ('b, 's) prog" where
  "ignoreE m k = catchE m (\<lambda>_. k) (\<lambda>_. k)"

definition deferE :: "('a, 's) prog \<Rightarrow> ('b, 's) prog \<Rightarrow> ('a, 's) prog" where
  "deferE m d w = (case m w of (r, w') \<Rightarrow> (r, snd (d w')))"

definition wrap :: "string \<Rightarrow> goerr \<Rightarrow> goerr" where
  "wrap s e = Errorf s [e]"

text \<open>The same without a state.\<close>

definition tryR :: "'a result \<Rightarrow> (goerr \<Rightarrow> goerr) \<Rightarrow> ('a \<Rightarrow> 'b result) \<Rightarrow> 'b result" where
  "tryR r f k = (case r of Inl e \<Rightarrow> Inl (f e) | Inr x \<Rightarrow> k x)"

text \<open>A loop over a list that returns at the first error.\<close>

fun forE :: "'a list \<Rightarrow> ('a \<Rightarrow> (unit, 's) prog) \<Rightarrow> (unit, 's) prog" where
  "forE [] f = ret ()"
| "forE (x # xs) f = tryE (f x) id (\<lambda>_. forE xs f)"

section \<open>Invariants\<close>

text \<open>An operation keeps a property of the state whether it succeeds or fails.\<close>

definition keeps :: "('s \<Rightarrow> bool) \<Rightarrow> ('a, 's) prog \<Rightarrow> bool" where
  "keeps I m \<longleftrightarrow> (\<forall>w. I w \<longrightarrow> I (snd (m w)))"

lemma keepsI: "(\<And>w. I w \<Longrightarrow> I (snd (m w))) \<Longrightarrow> keeps I m"
  by (simp add: keeps_def)

lemma keepsD: "keeps I m \<Longrightarrow> I w \<Longrightarrow> I (snd (m w))"
  by (simp add: keeps_def)

lemma keeps_ret [keeps_intro]: "keeps I (ret x)"
  by (simp add: keeps_def ret_def)

lemma keeps_failE [keeps_intro]: "keeps I (failE e)"
  by (simp add: keeps_def failE_def)

lemma keeps_catchE [keeps_intro]:
  assumes "keeps I m" and "\<And>e. keeps I (h e)" and "\<And>x. keeps I (k x)"
  shows "keeps I (catchE m h k)"
proof (rule keepsI)
  fix w
  assume "I w"
  obtain r w' where m: "m w = (r, w')" by (cases "m w")
  then have "I w'" using keepsD [OF assms(1) \<open>I w\<close>] by simp
  then show "I (snd (catchE m h k w))"
    using keepsD [OF assms(2)] keepsD [OF assms(3)] m by (cases r) (simp_all add: catchE_def)
qed

text \<open>The same when the continuation keeps the invariant only for the values the program returns.\<close>

lemma keeps_catchE_returned:
  assumes "keeps I m" and "\<And>e. keeps I (h e)" and "\<And>w x w'. m w = (Inr x, w') \<Longrightarrow> keeps I (k x)"
  shows "keeps I (catchE m h k)"
proof (rule keepsI)
  fix w
  assume "I w"
  obtain r w' where m: "m w = (r, w')" by (cases "m w")
  then have "I w'" using keepsD [OF assms(1) \<open>I w\<close>] by simp
  then show "I (snd (catchE m h k w))"
    using keepsD [OF assms(2)] keepsD [OF assms(3)] m by (cases r) (simp_all add: catchE_def)
qed

lemma keeps_tryE [keeps_intro]:
  "keeps I m \<Longrightarrow> (\<And>x. keeps I (k x)) \<Longrightarrow> keeps I (tryE m f k)"
  unfolding tryE_def by (intro keeps_intro)

lemma keeps_ignoreE [keeps_intro]: "keeps I m \<Longrightarrow> keeps I k \<Longrightarrow> keeps I (ignoreE m k)"
  unfolding ignoreE_def by (intro keeps_intro)

lemma keeps_deferE [keeps_intro]: "keeps I m \<Longrightarrow> keeps I d \<Longrightarrow> keeps I (deferE m d)"
  by (simp add: keeps_def deferE_def split_beta)

lemma keeps_forE [keeps_intro]: "(\<And>x. x \<in> set xs \<Longrightarrow> keeps I (f x)) \<Longrightarrow> keeps I (forE xs f)"
  by (induction xs) (auto intro!: keeps_intro)

lemma keeps_if [keeps_intro]:
  "(b \<Longrightarrow> keeps I m) \<Longrightarrow> (\<not> b \<Longrightarrow> keeps I n) \<Longrightarrow> keeps I (if b then m else n)"
  by simp

section \<open>Contracts\<close>

text \<open>
  A contract for a program: from a state that satisfies \<open>P\<close> it either returns a value,
  and \<open>Q\<close> holds of the value and the state after it, or an error, and \<open>E\<close> holds.
  Programs are total, so a contract is about every run.
\<close>

definition contract ::
    "('s \<Rightarrow> bool) \<Rightarrow> ('a, 's) prog \<Rightarrow> ('a \<Rightarrow> 's \<Rightarrow> bool) \<Rightarrow> (goerr \<Rightarrow> 's \<Rightarrow> bool) \<Rightarrow> bool" where
  "contract P m Q E \<longleftrightarrow>
     (\<forall>w. P w \<longrightarrow> (case m w of (Inl e, w') \<Rightarrow> E e w' | (Inr x, w') \<Rightarrow> Q x w'))"

lemma contractI:
  "(\<And>w e w'. P w \<Longrightarrow> m w = (Inl e, w') \<Longrightarrow> E e w') \<Longrightarrow>
   (\<And>w x w'. P w \<Longrightarrow> m w = (Inr x, w') \<Longrightarrow> Q x w') \<Longrightarrow> contract P m Q E"
  by (auto simp: contract_def split: prod.split sum.split)

lemma contract_ok: "contract P m Q E \<Longrightarrow> P w \<Longrightarrow> m w = (Inr x, w') \<Longrightarrow> Q x w'"
  unfolding contract_def by (metis (mono_tags, lifting) old.prod.case old.sum.simps(6))

lemma contract_err: "contract P m Q E \<Longrightarrow> P w \<Longrightarrow> m w = (Inl e, w') \<Longrightarrow> E e w'"
  unfolding contract_def by (metis (mono_tags, lifting) old.prod.case old.sum.simps(5))

lemma contract_conseq:
  "contract P' m Q' E' \<Longrightarrow> (\<And>w. P w \<Longrightarrow> P' w) \<Longrightarrow> (\<And>x w. Q' x w \<Longrightarrow> Q x w) \<Longrightarrow>
     (\<And>e w. E' e w \<Longrightarrow> E e w) \<Longrightarrow> contract P m Q E"
  by (rule contractI) (blast dest: contract_ok contract_err)+

lemma contract_ret: "(\<And>w. P w \<Longrightarrow> Q x w) \<Longrightarrow> contract P (ret x) Q E"
  by (simp add: contract_def ret_def)

lemma contract_failE: "(\<And>w. P w \<Longrightarrow> E e w) \<Longrightarrow> contract P (failE e) Q E"
  by (simp add: contract_def failE_def)

lemma contract_catchE:
  assumes "contract P m Q' E'" and "\<And>e. contract (E' e) (h e) Q E" and "\<And>x. contract (Q' x) (k x) Q E"
  shows "contract P (catchE m h k) Q E"
  using assms unfolding contract_def catchE_def
  by (fastforce split: prod.splits sum.splits)

lemma contract_tryE:
  assumes "contract P m Q' E'" and "\<And>x. contract (Q' x) (k x) Q E" and "\<And>e w. E' e w \<Longrightarrow> E (f e) w"
  shows "contract P (tryE m f k) Q E"
  unfolding tryE_def by (rule contract_catchE [OF assms(1)]) (auto intro: contract_failE assms)

lemma contract_if:
  "(b \<Longrightarrow> contract P m Q E) \<Longrightarrow> (\<not> b \<Longrightarrow> contract P n Q E) \<Longrightarrow> contract P (if b then m else n) Q E"
  by simp

lemma contract_keeps: "keeps I m \<Longrightarrow> contract I m (\<lambda>_. I) (\<lambda>_. I)"
  by (rule contractI) (metis keepsD snd_conv)+

text \<open>Stepping through a successful run.\<close>

lemma tryE_Inr: "tryE m f k w = (Inr y, w2) \<longleftrightarrow> (\<exists>x w1. m w = (Inr x, w1) \<and> k x w1 = (Inr y, w2))"
  by (auto simp: tryE_def catchE_def failE_def split: prod.splits sum.splits)

lemma tryE_Inl:
  "tryE m f k w = (Inl e, w2) \<longleftrightarrow>
     (\<exists>e'. m w = (Inl e', w2) \<and> e = f e') \<or> (\<exists>x w1. m w = (Inr x, w1) \<and> k x w1 = (Inl e, w2))"
  by (auto simp: tryE_def catchE_def failE_def split: prod.splits sum.splits)

lemma catchE_Inr:
  "catchE m h k w = (Inr y, w2) \<longleftrightarrow>
     (\<exists>e w1. m w = (Inl e, w1) \<and> h e w1 = (Inr y, w2)) \<or> (\<exists>x w1. m w = (Inr x, w1) \<and> k x w1 = (Inr y, w2))"
  by (auto simp: catchE_def split: prod.splits sum.splits)

lemma catchE_Inl:
  "catchE m h k w = (Inl e, w2) \<longleftrightarrow>
     (\<exists>e' w1. m w = (Inl e', w1) \<and> h e' w1 = (Inl e, w2)) \<or> (\<exists>x w1. m w = (Inr x, w1) \<and> k x w1 = (Inl e, w2))"
  by (auto simp: catchE_def split: prod.splits sum.splits)

lemma ignoreE_eq: "ignoreE m k w = k (snd (m w))"
  by (simp add: ignoreE_def catchE_def split: prod.splits sum.splits)

lemma tryR_Inr: "tryR r f k = Inr y \<longleftrightarrow> (\<exists>x. r = Inr x \<and> k x = Inr y)"
  by (auto simp: tryR_def split: sum.splits)

lemma tryE_assoc: "tryE (tryE m f k) id h = tryE m f (\<lambda>x. tryE (k x) id h)"
  by (rule ext) (auto simp: tryE_def catchE_def failE_def split: prod.split sum.split)

lemma ret_tryE [simp]: "tryE (ret x) f k = k x"
  by (rule ext) (simp add: tryE_def catchE_def ret_def)

lemma ret_eq: "ret x w = (r, w') \<longleftrightarrow> r = Inr x \<and> w' = w"
  by (auto simp: ret_def)

lemma failE_eq: "failE e w = (r, w') \<longleftrightarrow> r = Inl e \<and> w' = w"
  by (auto simp: failE_def)

text \<open>An operation whose failure runs a cleanup and then fails.\<close>

lemma cleanup_Inr:
  "catchE m (\<lambda>e. ignoreE d (failE (h e))) k w = (Inr y, w2) \<longleftrightarrow>
     (\<exists>x w1. m w = (Inr x, w1) \<and> k x w1 = (Inr y, w2))"
  by (auto simp: catchE_def ignoreE_eq failE_def split: prod.splits sum.splits)

end
