(* ===== verification/Os_World.thy ===== *)
theory Os_World
  imports Go_Path Go_Effect "HOL-Library.Word"
begin

unbundle bit_operations_syntax

text \<open>
  The operating system as the program sees it: a file system, the calls of Go's
  \<^verbatim>\<open>os\<close> package on it, and the ways they fail. A program that has effects is a
  function from a world to a result and the world after it.

  Failures are not decided by the model: a world carries a list of faults, each call takes
  the next one, and a theorem about all worlds is a theorem about every pattern of failures.
  A fault may strike in the middle of a call: it says how many bytes were transferred and
  which paths were unlinked before the error.

  \<open>hist\<close> records every file system the disk went through, so a property of all of them
  is what a process killed at any moment leaves behind. \<open>log\<close> records the calls in
  order, with a flag that says whether each succeeded.

  Paths are taken literally: the model does not follow symbolic links. A call that would
  have to follow one fails with \<open>EINVAL\<close>.
\<close>

section \<open>Worlds\<close>

type_synonym FileMode = "32 word"

datatype node = NFile string FileMode | NDir | NLink string

type_synonym fsys = "string \<Rightarrow> node option"

datatype fault = Pass | Fail errno nat "string list"

datatype event =
    EvMkdir string
  | EvCreate string
  | EvWrite string string
  | EvSync string
  | EvClose string
  | EvRename string string
  | EvRemove string
  | EvRemoveAll string
  | EvSymlink string string
  | EvChmod string FileMode
  | EvMount string string string nat string
  | EvPivot string string
  | EvChdir string
  | EvUnmount string
  | EvExec string "string list"
  | EvPowerOff
  | EvNet string
  | EvVm string

record world =
  fs :: fsys
  hist :: "fsys list"
  log :: "(event \<times> bool) list"
  faults :: "fault list"
  umask :: FileMode

type_synonym ('a, 'z) io = "('a, 'z world_scheme) prog"

section \<open>Primitive calls\<close>

definition emit :: "event \<times> bool \<Rightarrow> 'z world_scheme \<Rightarrow> 'z world_scheme" where
  "emit e w = w\<lparr>log := log w @ [e]\<rparr>"

definition set_fs :: "fsys \<Rightarrow> 'z world_scheme \<Rightarrow> 'z world_scheme" where
  "set_fs f w = w\<lparr>fs := f, hist := hist w @ [f]\<rparr>"

definition next_fault :: "'z world_scheme \<Rightarrow> fault \<times> 'z world_scheme" where
  "next_fault w = (case faults w of [] \<Rightarrow> (Pass, w) | f # fts \<Rightarrow> (f, w\<lparr>faults := fts\<rparr>))"

text \<open>
  A call with an effect on the file system: the event it logs, the error the state of the
  file system forces, its effect, and its effect when a fault cuts it short.
\<close>

definition fs_call ::
    "event \<Rightarrow> (fsys \<Rightarrow> errno option) \<Rightarrow> (fsys \<Rightarrow> fsys) \<Rightarrow> (nat \<Rightarrow> string list \<Rightarrow> fsys \<Rightarrow> fsys) \<Rightarrow> (unit, 'z) io" where
  "fs_call ev pre eff partway w =
     (case next_fault w of
        (Fail e n ps, w) \<Rightarrow> (Inl (Errno e), set_fs (partway n ps (fs w)) (emit (ev, False) w))
      | (Pass, w) \<Rightarrow>
          (case pre (fs w) of
             Some e \<Rightarrow> (Inl (Errno e), emit (ev, False) w)
           | None \<Rightarrow> (Inr (), set_fs (eff (fs w)) (emit (ev, True) w))))"

text \<open>A call that only reads the file system.\<close>

definition fs_read :: "(fsys \<Rightarrow> errno + 'a) \<Rightarrow> ('a, 'z) io" where
  "fs_read rd w =
     (case next_fault w of
        (Fail e n ps, w) \<Rightarrow> (Inl (Errno e), w)
      | (Pass, w) \<Rightarrow> (case rd (fs w) of Inl e \<Rightarrow> (Inl (Errno e), w) | Inr x \<Rightarrow> (Inr x, w)))"

text \<open>A call with an effect outside the file system: it is logged and may fail.\<close>

definition sys_call :: "event \<Rightarrow> (unit, 'z) io" where
  "sys_call ev w =
     (case next_fault w of
        (Fail e n ps, w) \<Rightarrow> (Inl (Errno e), emit (ev, False) w)
      | (Pass, w) \<Rightarrow> (Inr (), emit (ev, True) w))"

section \<open>The os package\<close>

text \<open>The directories a path lies in, outermost first, and the path itself.\<close>

definition ancestors :: "string \<Rightarrow> string list" where
  "ancestors p =
     map (\<lambda>i. take i p) (filter (\<lambda>i. 0 < i \<and> p ! i = CHR ''/'') [0..<length p]) @ [p]"

definition parent_ok :: "fsys \<Rightarrow> string \<Rightarrow> bool" where
  "parent_ok f p \<longleftrightarrow>
     PathDir p = ''.'' \<or> PathDir p = ''/'' \<or> f (PathDir p) = Some NDir"

text \<open>
  What \<^verbatim>\<open>os.Stat\<close> tells. Go calls the size of a directory system-dependent; the
  value here is the smallest one of the host's file system.
\<close>

definition node_size :: "node \<Rightarrow> nat" where
  "node_size n = (case n of NFile b _ \<Rightarrow> length b | NDir \<Rightarrow> 64 | NLink t \<Rightarrow> length t)"

definition node_mode :: "node \<Rightarrow> FileMode" where
  "node_mode n = (case n of NFile _ m \<Rightarrow> m | _ \<Rightarrow> 493)"

definition os_Stat :: "string \<Rightarrow> (node, 'z) io" where
  "os_Stat p = fs_read (\<lambda>f. case f p of None \<Rightarrow> Inl ENOENT | Some (NLink t) \<Rightarrow> Inl EINVAL | Some n \<Rightarrow> Inr n)"

text \<open>\<^verbatim>\<open>os.Open\<close> of a path whose contents are not read.\<close>

abbreviation os_OpenDir :: "string \<Rightarrow> (node, 'z) io" where
  "os_OpenDir p \<equiv> os_Stat p"

definition os_ReadFile :: "string \<Rightarrow> (string, 'z) io" where
  "os_ReadFile p = fs_read (\<lambda>f. case f p of None \<Rightarrow> Inl ENOENT | Some (NFile b m) \<Rightarrow> Inr b | Some _ \<Rightarrow> Inl EINVAL)"

text \<open>
  A file opened for reading, as the reader it is: what its reads return. A fault while
  reading leaves the chunk read before it and the error.
\<close>

definition os_OpenRead :: "string \<Rightarrow> (string list \<times> goerr option, 'z) io" where
  "os_OpenRead p =
     tryE (os_ReadFile p) id (\<lambda>data w.
       case next_fault w of
         (Fail e n ps, w) \<Rightarrow> (Inr ([take n data], Some (Errno e)), w)
       | (Pass, w) \<Rightarrow> (Inr ([data], None), w))"

definition os_MkdirAll :: "string \<Rightarrow> (unit, 'z) io" where
  "os_MkdirAll p =
     fs_call (EvMkdir p)
       (\<lambda>f. if list_all (\<lambda>a. f a = None \<or> f a = Some NDir) (ancestors p) then None else Some ENOTDIR)
       (\<lambda>f. fold (\<lambda>a f. f(a \<mapsto> NDir)) (ancestors p) f)
       (\<lambda>n ps f. fold (\<lambda>a f. if f a = None then f(a \<mapsto> NDir) else f)
          (takeWhile (\<lambda>a. f a = None \<or> f a = Some NDir) (take n (ancestors p))) f)"

definition os_Mkdir :: "string \<Rightarrow> (unit, 'z) io" where
  "os_Mkdir p =
     fs_call (EvMkdir p)
       (\<lambda>f. if f p \<noteq> None then Some EEXIST else if parent_ok f p then None else Some ENOENT)
       (\<lambda>f. f(p \<mapsto> NDir)) (\<lambda>n ps f. f)"

text \<open>\<^verbatim>\<open>os.OpenFile\<close> with \<^verbatim>\<open>O_CREATE|O_TRUNC\<close>; \<^verbatim>\<open>os.Create\<close> is mode 0666 (438).\<close>

definition os_OpenTrunc :: "string \<Rightarrow> FileMode \<Rightarrow> (unit, 'z) io" where
  "os_OpenTrunc p mode w =
     fs_call (EvCreate p)
       (\<lambda>f. case f p of
              None \<Rightarrow> if parent_ok f p then None else Some ENOENT
            | Some (NFile b m) \<Rightarrow> None
            | Some _ \<Rightarrow> Some EINVAL)
       (\<lambda>f. f(p \<mapsto> NFile [] (case f p of Some (NFile b m) \<Rightarrow> m | _ \<Rightarrow> mode AND NOT (umask w))))
       (\<lambda>n ps f. f) w"

definition os_Create :: "string \<Rightarrow> (unit, 'z) io" where
  "os_Create p = os_OpenTrunc p 438"

definition append_file :: "string \<Rightarrow> string \<Rightarrow> fsys \<Rightarrow> fsys" where
  "append_file p b f = (case f p of Some (NFile c m) \<Rightarrow> f(p \<mapsto> NFile (c @ b) m) | _ \<Rightarrow> f)"

text \<open>Writing to the file opened at a path; a fault leaves a part of the bytes written.\<close>

definition os_Write :: "string \<Rightarrow> string \<Rightarrow> (unit, 'z) io" where
  "os_Write p b = fs_call (EvWrite p b) (\<lambda>f. None) (append_file p b) (\<lambda>n ps. append_file p (take n b))"

definition os_Close :: "string \<Rightarrow> (unit, 'z) io" where
  "os_Close p = sys_call (EvClose p)"

definition os_Sync :: "string \<Rightarrow> (unit, 'z) io" where
  "os_Sync p = sys_call (EvSync p)"

definition os_Rename :: "string \<Rightarrow> string \<Rightarrow> (unit, 'z) io" where
  "os_Rename p q =
     fs_call (EvRename p q)
       (\<lambda>f. if f p = None then Some ENOENT else if f q = Some NDir then Some EEXIST
            else if parent_ok f q then None else Some ENOENT)
       (\<lambda>f. (f(q := f p))(p := if p = q then f p else None)) (\<lambda>n ps f. f)"

definition below :: "string \<Rightarrow> string \<Rightarrow> bool" where
  "below d p \<longleftrightarrow> p = d \<or> HasPrefix p (d @ ''/'')"

definition os_Remove :: "string \<Rightarrow> (unit, 'z) io" where
  "os_Remove p =
     fs_call (EvRemove p) (\<lambda>f. if f p = None then Some ENOENT else None)
       (\<lambda>f. f(p := None)) (\<lambda>n ps f. f)"

text \<open>
  \<^verbatim>\<open>os.RemoveAll\<close> unlinks what lies below a path one entry at a time; a fault leaves
  some of it unlinked.
\<close>

definition os_RemoveAll :: "string \<Rightarrow> (unit, 'z) io" where
  "os_RemoveAll d =
     fs_call (EvRemoveAll d) (\<lambda>f. None)
       (\<lambda>f p. if below d p then None else f p)
       (\<lambda>n ps f p. if below d p \<and> p \<in> set ps then None else f p)"

definition os_Symlink :: "string \<Rightarrow> string \<Rightarrow> (unit, 'z) io" where
  "os_Symlink t p =
     fs_call (EvSymlink t p)
       (\<lambda>f. if f p \<noteq> None then Some EEXIST else if parent_ok f p then None else Some ENOENT)
       (\<lambda>f. f(p \<mapsto> NLink t)) (\<lambda>n ps f. f)"

definition os_Chmod :: "string \<Rightarrow> FileMode \<Rightarrow> (unit, 'z) io" where
  "os_Chmod p mode =
     fs_call (EvChmod p mode) (\<lambda>f. if f p = None then Some ENOENT else None)
       (\<lambda>f. case f p of Some (NFile b m) \<Rightarrow> f(p \<mapsto> NFile b mode) | _ \<Rightarrow> f) (\<lambda>n ps f. f)"

text \<open>
  \<^verbatim>\<open>io.Copy\<close> from a reader to the file opened at a path. A reader is what its reads
  return: chunks of bytes, and then the end of file (\<open>None\<close>) or an error.
\<close>

fun io_Copy :: "string \<Rightarrow> string list \<Rightarrow> goerr option \<Rightarrow> (unit, 'z) io" where
  "io_Copy p [] end = (case end of None \<Rightarrow> ret () | Some e \<Rightarrow> failE e)"
| "io_Copy p (c # cs) end = tryE (os_Write p c) id (\<lambda>_. io_Copy p cs end)"

text \<open>\<^verbatim>\<open>os.WriteFile\<close>: open, write, close; a close error counts unless the write failed.\<close>

definition os_WriteFile :: "string \<Rightarrow> string \<Rightarrow> FileMode \<Rightarrow> (unit, 'z) io" where
  "os_WriteFile p data mode =
     tryE (os_OpenTrunc p mode) id (\<lambda>_.
     catchE (os_Write p data) (\<lambda>e. ignoreE (os_Close p) (failE e)) (\<lambda>_. os_Close p))"

section \<open>Invariants of the disk\<close>

text \<open>A property of the file system now and of every one the disk went through.\<close>

definition disk_inv :: "(fsys \<Rightarrow> bool) \<Rightarrow> 'z world_scheme \<Rightarrow> bool" where
  "disk_inv R w \<longleftrightarrow> R (fs w) \<and> (\<forall>f \<in> set (hist w). R f)"

lemma disk_inv_now: "disk_inv R w \<Longrightarrow> R (fs w)"
  by (simp add: disk_inv_def)

text \<open>A property that does not look at a path.\<close>

definition blind :: "(fsys \<Rightarrow> bool) \<Rightarrow> string \<Rightarrow> bool" where
  "blind R p \<longleftrightarrow> (\<forall>f n. R f \<longrightarrow> R (f(p := n)))"

lemma blindD: "blind R p \<Longrightarrow> R f \<Longrightarrow> R (f(p := n))"
  by (simp add: blind_def)

lemma disk_inv_emit [simp]: "disk_inv R (emit e w) = disk_inv R w"
  by (simp add: disk_inv_def emit_def)

lemma disk_inv_faults [simp]: "disk_inv R (w\<lparr>faults := x\<rparr>) = disk_inv R w"
  by (simp add: disk_inv_def)

lemma disk_inv_set_fs [simp]: "disk_inv R (set_fs f w) \<longleftrightarrow> R f \<and> (\<forall>g \<in> set (hist w). R g)"
  by (auto simp: disk_inv_def set_fs_def)

lemma next_fault_fs:
  "next_fault w = (ft, w') \<Longrightarrow> fs w' = fs w \<and> hist w' = hist w \<and> log w' = log w \<and> umask w' = umask w"
  by (auto simp: next_fault_def split: list.splits)

lemma keeps_fs_call:
  assumes "\<And>f. R f \<Longrightarrow> pre f = None \<Longrightarrow> R (eff f)" and "\<And>f n ps. R f \<Longrightarrow> R (partway n ps f)"
  shows "keeps (disk_inv R) (fs_call ev pre eff partway)"
proof (rule keepsI)
  fix w
  assume w: "disk_inv R w"
  obtain ft w1 where nf: "next_fault w = (ft, w1)" by (cases "next_fault w")
  then have w1: "R (fs w1)" "\<forall>g \<in> set (hist w1). R g"
    using w next_fault_fs [OF nf] by (simp_all add: disk_inv_def)
  show "disk_inv R (snd (fs_call ev pre eff partway w))"
  proof (cases ft)
    case Pass
    with nf w1 assms(1) show ?thesis
      by (cases "pre (fs w1)") (simp_all add: fs_call_def disk_inv_def set_fs_def emit_def)
  next
    case Fail
    with nf w1 assms(2) show ?thesis by (simp add: fs_call_def disk_inv_def set_fs_def emit_def)
  qed
qed

lemma keeps_fs_read [keeps_intro]: "keeps (disk_inv R) (fs_read rd)"
proof (rule keepsI)
  fix w
  assume w: "disk_inv R w"
  obtain ft w1 where nf: "next_fault w = (ft, w1)" by (cases "next_fault w")
  then have "disk_inv R w1" using w next_fault_fs [OF nf] by (simp add: disk_inv_def)
  with nf show "disk_inv R (snd (fs_read rd w))"
    by (simp add: fs_read_def split: fault.split sum.split)
qed

lemma keeps_sys_call [keeps_intro]: "keeps (disk_inv R) (sys_call ev)"
proof (rule keepsI)
  fix w
  assume w: "disk_inv R w"
  obtain ft w1 where nf: "next_fault w = (ft, w1)" by (cases "next_fault w")
  then have "disk_inv R w1" using w next_fault_fs [OF nf] by (simp add: disk_inv_def)
  with nf show "disk_inv R (snd (sys_call ev w))"
    by (simp add: sys_call_def split: fault.split)
qed

lemma keeps_Stat [keeps_intro]: "keeps (disk_inv R) (os_Stat p)"
  unfolding os_Stat_def by (intro keeps_intro)

lemma keeps_ReadFile [keeps_intro]: "keeps (disk_inv R) (os_ReadFile p)"
  unfolding os_ReadFile_def by (intro keeps_intro)

lemma keeps_Close [keeps_intro]: "keeps (disk_inv R) (os_Close p)"
  unfolding os_Close_def by (intro keeps_intro)

lemma keeps_Sync [keeps_intro]: "keeps (disk_inv R) (os_Sync p)"
  unfolding os_Sync_def by (intro keeps_intro)

lemma blind_fold:
  "(\<And>a. a \<in> set as \<Longrightarrow> blind R a) \<Longrightarrow> R f \<Longrightarrow> (\<And>a f. R f \<Longrightarrow> blind R a \<Longrightarrow> R (g a f)) \<Longrightarrow> R (fold g as f)"
  by (induction as arbitrary: f) auto

lemma keeps_MkdirAll [keeps_intro]:
  assumes "\<And>a. a \<in> set (ancestors p) \<Longrightarrow> blind R a"
  shows "keeps (disk_inv R) (os_MkdirAll p)"
  unfolding os_MkdirAll_def
proof (rule keeps_fs_call)
  fix f :: fsys
  assume "R f"
  show "R (fold (\<lambda>a f. f(a \<mapsto> NDir)) (ancestors p) f)"
    by (rule blind_fold [where R = R]) (auto intro: assms \<open>R f\<close> blindD [of R])
next
  fix f :: fsys and n and ps :: "string list"
  assume "R f"
  show "R (fold (\<lambda>a f. if f a = None then f(a \<mapsto> NDir) else f)
      (takeWhile (\<lambda>a. f a = None \<or> f a = Some NDir) (take n (ancestors p))) f)"
    by (rule blind_fold [where R = R]) (auto intro: assms \<open>R f\<close> blindD [of R] dest!: set_takeWhileD in_set_takeD)
qed

lemma keeps_Mkdir [keeps_intro]: "blind R p \<Longrightarrow> keeps (disk_inv R) (os_Mkdir p)"
  unfolding os_Mkdir_def by (intro keeps_fs_call) (auto intro: blindD [of R])

lemma keeps_OpenTrunc [keeps_intro]: "blind R p \<Longrightarrow> keeps (disk_inv R) (os_OpenTrunc p mode)"
proof (rule keepsI)
  fix w
  assume b: "blind R p" and w: "disk_inv R w"
  have k: "keeps (disk_inv R)
      (fs_call (EvCreate p) pre (\<lambda>f. f(p \<mapsto> NFile [] (m f))) (\<lambda>n ps f. f))" for pre m
    by (intro keeps_fs_call) (auto intro: blindD [OF b])
  show "disk_inv R (snd (os_OpenTrunc p mode w))"
    unfolding os_OpenTrunc_def by (rule keepsD [OF k w])
qed

lemma keeps_Create [keeps_intro]: "blind R p \<Longrightarrow> keeps (disk_inv R) (os_Create p)"
  unfolding os_Create_def by (intro keeps_intro)

lemma blind_append_file: "blind R p \<Longrightarrow> R f \<Longrightarrow> R (append_file p b f)"
  by (auto simp: append_file_def intro: blindD [of R] split: option.split node.split)

lemma keeps_Write [keeps_intro]: "blind R p \<Longrightarrow> keeps (disk_inv R) (os_Write p b)"
  unfolding os_Write_def by (intro keeps_fs_call) (auto intro: blind_append_file)

lemma keeps_Remove [keeps_intro]: "blind R p \<Longrightarrow> keeps (disk_inv R) (os_Remove p)"
  unfolding os_Remove_def by (intro keeps_fs_call) (auto intro: blindD [of R])

lemma keeps_Symlink [keeps_intro]: "blind R p \<Longrightarrow> keeps (disk_inv R) (os_Symlink t p)"
  unfolding os_Symlink_def by (intro keeps_fs_call) (auto intro: blindD [of R])

lemma keeps_Chmod [keeps_intro]: "blind R p \<Longrightarrow> keeps (disk_inv R) (os_Chmod p m)"
  unfolding os_Chmod_def by (intro keeps_fs_call) (auto intro: blindD [of R] split: option.split node.split)

lemma keeps_io_Copy [keeps_intro]: "blind R p \<Longrightarrow> keeps (disk_inv R) (io_Copy p cs e)"
  by (induction p cs e rule: io_Copy.induct) (auto intro!: keeps_intro split: option.splits)

lemma keeps_OpenRead [keeps_intro]: "keeps (disk_inv R) (os_OpenRead p)"
proof -
  have "keeps (disk_inv R) (\<lambda>w. case next_fault w of
         (Fail e n ps, w) \<Rightarrow> (Inr ([take n data], Some (Errno e)), w)
       | (Pass, w) \<Rightarrow> (Inr ([data], None), w))" for data :: string
  proof (rule keepsI)
    fix w
    assume w: "disk_inv R w"
    obtain ft w1 where nf: "next_fault w = (ft, w1)" by (cases "next_fault w")
    then have "disk_inv R w1" using w next_fault_fs [OF nf] by (simp add: disk_inv_def)
    with nf show "disk_inv R (snd (case next_fault w of
         (Fail e n ps, w) \<Rightarrow> (Inr ([take n data], Some (Errno e)), w)
       | (Pass, w) \<Rightarrow> (Inr ([data], None :: goerr option), w)))"
      by (simp split: fault.split)
  qed
  then show ?thesis unfolding os_OpenRead_def by (intro keeps_intro)
qed

lemma keeps_WriteFile [keeps_intro]: "blind R p \<Longrightarrow> keeps (disk_inv R) (os_WriteFile p d m)"
  unfolding os_WriteFile_def by (intro keeps_intro)

lemma keeps_Rename [keeps_intro]:
  assumes "blind R p" and "blind R q"
  shows "keeps (disk_inv R) (os_Rename p q)"
  unfolding os_Rename_def
  by (intro keeps_fs_call) (use assms in \<open>auto intro: blindD [of R]\<close>)

section \<open>Successful calls\<close>

lemma Write_ok: "os_Write p b w = (Inr u, w') \<Longrightarrow> fs w' = append_file p b (fs w)"
  by (auto simp: os_Write_def fs_call_def set_fs_def emit_def split: prod.splits fault.splits
      dest!: next_fault_fs)

lemma OpenTrunc_ok: "os_OpenTrunc p m w = (Inr u, w') \<Longrightarrow> \<exists>m'. fs w' = (fs w)(p \<mapsto> NFile [] m')"
  by (auto simp: os_OpenTrunc_def fs_call_def set_fs_def emit_def
      split: prod.splits fault.splits option.splits dest!: next_fault_fs)

lemma ReadFile_ok: "os_ReadFile p w = (Inr d, w') \<Longrightarrow> fs w' = fs w \<and> hist w' = hist w \<and> (\<exists>m. fs w p = Some (NFile d m))"
  by (auto simp: os_ReadFile_def fs_read_def split: prod.splits fault.splits option.splits node.splits sum.splits
      dest!: next_fault_fs)

lemma OpenRead_ok:
  assumes "os_OpenRead p w = (Inr r, w')"
  shows "fs w' = fs w \<and> hist w' = hist w \<and> (\<exists>d m. fs w p = Some (NFile d m) \<and> (snd r = None \<longrightarrow> concat (fst r) = d))"
proof -
  from assms obtain d w1 where d: "os_ReadFile p w = (Inr d, w1)"
    and r: "(case next_fault w1 of
         (Fail e n ps, w) \<Rightarrow> (Inr ([take n d], Some (Errno e)), w)
       | (Pass, w) \<Rightarrow> (Inr ([d], None), w)) = (Inr r :: (string list \<times> goerr option) result, w')"
    unfolding os_OpenRead_def tryE_Inr by blast
  obtain ft w2 where nf: "next_fault w1 = (ft, w2)" by (cases "next_fault w1")
  with r have "w' = w2" "snd r = None \<longrightarrow> concat (fst r) = d" by (auto split: fault.splits)
  with ReadFile_ok [OF d] next_fault_fs [OF nf] show ?thesis by auto
qed

lemma sys_call_fs: "sys_call ev w = (r, w') \<Longrightarrow> fs w' = fs w \<and> hist w' = hist w"
  by (auto simp: sys_call_def emit_def split: prod.splits fault.splits dest!: next_fault_fs)

lemma Close_fs: "os_Close p w = (r, w') \<Longrightarrow> fs w' = fs w \<and> hist w' = hist w"
  unfolding os_Close_def by (rule sys_call_fs)

lemma WriteFile_ok:
  assumes "os_WriteFile p d mode w = (Inr u, w')"
  shows "\<exists>m. fs w' p = Some (NFile d m)"
proof -
  from assms obtain v w1 where o: "os_OpenTrunc p mode w = (Inr v, w1)"
    and c: "catchE (os_Write p d) (\<lambda>e. ignoreE (os_Close p) (failE e)) (\<lambda>_. os_Close p) w1 = (Inr u, w')"
    unfolding os_WriteFile_def tryE_Inr by blast
  obtain r w2 where wr: "os_Write p d w1 = (r, w2)" by (cases "os_Write p d w1")
  obtain m where w1: "fs w1 p = Some (NFile [] m)" using OpenTrunc_ok [OF o] by auto
  from c wr obtain v2 where "r = Inr v2" "os_Close p w2 = (Inr u, w')"
    by (cases r) (auto simp: catchE_def ignoreE_eq failE_def)
  then have "fs w' = fs w2" "fs w2 = append_file p d (fs w1)"
    using Close_fs [of p w2 "Inr u" w'] Write_ok [of p d w1 v2 w2] wr by simp_all
  with w1 show ?thesis by (simp add: append_file_def)
qed

section \<open>What a call leaves alone\<close>

text \<open>A program leaves a path alone when the node there is the same after it, whatever happens.\<close>

definition leaves :: "string \<Rightarrow> ('a, 'z) io \<Rightarrow> bool" where
  "leaves q m \<longleftrightarrow> (\<forall>n. keeps (\<lambda>w. fs w q = n) m)"

lemma leavesD: "leaves q m \<Longrightarrow> m w = (r, w') \<Longrightarrow> fs w' q = fs w q"
  unfolding leaves_def keeps_def by (metis snd_conv)

lemma leavesI: "(\<And>n. keeps (\<lambda>w. fs w q = n) m) \<Longrightarrow> leaves q m"
  by (simp add: leaves_def)

lemma leaves_keeps: "leaves q m \<Longrightarrow> keeps (\<lambda>w. fs w q = n) m"
  by (simp add: leaves_def)

lemma leaves_prog:
  "leaves q (ret x)"
  "leaves q (failE e)"
  "leaves q m \<Longrightarrow> (\<And>x. leaves q (k x)) \<Longrightarrow> leaves q (tryE m f k)"
  "leaves q m \<Longrightarrow> (\<And>e. leaves q (h e)) \<Longrightarrow> (\<And>x. leaves q (k x)) \<Longrightarrow> leaves q (catchE m h k)"
  "leaves q m \<Longrightarrow> leaves q m' \<Longrightarrow> leaves q (ignoreE m m')"
  "(b \<Longrightarrow> leaves q m) \<Longrightarrow> (\<not> b \<Longrightarrow> leaves q m') \<Longrightarrow> leaves q (if b then m else m')"
  unfolding leaves_def
  by (auto intro: keeps_ret keeps_failE keeps_tryE keeps_catchE keeps_ignoreE)

lemma leaves_forE: "(\<And>x. x \<in> set xs \<Longrightarrow> leaves q (f x)) \<Longrightarrow> leaves q (forE xs f)"
  unfolding leaves_def by (blast intro: keeps_forE)

lemma leaves_fs_call:
  assumes "\<And>f. eff f q = f q" and "\<And>f n ps. partway n ps f q = f q"
  shows "leaves q (fs_call ev pre eff partway)"
proof (intro leavesI keepsI)
  fix n w
  assume w: "fs w q = n"
  obtain ft w1 where nf: "next_fault w = (ft, w1)" by (cases "next_fault w")
  with w assms next_fault_fs [OF nf] show "fs (snd (fs_call ev pre eff partway w)) q = n"
    by (cases ft; cases "pre (fs w1)") (simp_all add: fs_call_def set_fs_def emit_def)
qed

lemma leaves_fs_read: "leaves q (fs_read rd)"
proof (intro leavesI keepsI)
  fix n w
  assume w: "fs w q = n"
  obtain ft w1 where nf: "next_fault w = (ft, w1)" by (cases "next_fault w")
  with w next_fault_fs [OF nf] show "fs (snd (fs_read rd w)) q = n"
    by (cases ft; cases "rd (fs w1)") (simp_all add: fs_read_def)
qed

lemma leaves_sys_call: "leaves q (sys_call ev)"
  by (intro leavesI keepsI) (metis prod.collapse sys_call_fs)

lemma leaves_reads: "leaves q (os_Stat p)" "leaves q (os_ReadFile p)" "leaves q (os_Close p)" "leaves q (os_Sync p)"
  unfolding os_Stat_def os_ReadFile_def os_Close_def os_Sync_def
  by (rule leaves_fs_read leaves_sys_call)+

lemma fold_leaves: "q \<notin> set as \<Longrightarrow> (\<And>a f. a \<in> set as \<Longrightarrow> a \<noteq> q \<Longrightarrow> g a f q = f q) \<Longrightarrow> fold g as f q = f q"
  by (induction as arbitrary: f) auto

lemma leaves_MkdirAll: "q \<notin> set (ancestors p) \<Longrightarrow> leaves q (os_MkdirAll p)"
  unfolding os_MkdirAll_def
  by (rule leaves_fs_call; rule fold_leaves) (auto dest!: set_takeWhileD in_set_takeD)

lemma leaves_RemoveAll: "\<not> below d q \<Longrightarrow> leaves q (os_RemoveAll d)"
  unfolding os_RemoveAll_def by (intro leaves_fs_call) auto

lemma leaves_Remove: "p \<noteq> q \<Longrightarrow> leaves q (os_Remove p)"
  unfolding os_Remove_def by (intro leaves_fs_call) auto

lemma leaves_Chmod: "p \<noteq> q \<Longrightarrow> leaves q (os_Chmod p m)"
  unfolding os_Chmod_def by (intro leaves_fs_call) (auto split: option.split node.split)

lemma leaves_Write: "p \<noteq> q \<Longrightarrow> leaves q (os_Write p b)"
  unfolding os_Write_def by (intro leaves_fs_call) (auto simp: append_file_def split: option.split node.split)

lemma leaves_OpenTrunc: "p \<noteq> q \<Longrightarrow> leaves q (os_OpenTrunc p m)"
proof (intro leavesI keepsI)
  fix n w
  assume "p \<noteq> q" and w: "fs w q = n"
  have l: "leaves q (fs_call (EvCreate p) pre (\<lambda>f. f(p \<mapsto> NFile [] (h f))) (\<lambda>n ps f. f))" for pre h
    using \<open>p \<noteq> q\<close> by (intro leaves_fs_call) simp_all
  show "fs (snd (os_OpenTrunc p m w)) q = n"
    unfolding os_OpenTrunc_def by (rule keepsD [OF leaves_keeps [OF l] w])
qed

lemma leaves_Mkdir: "p \<noteq> q \<Longrightarrow> leaves q (os_Mkdir p)"
  unfolding os_Mkdir_def by (intro leaves_fs_call) auto

lemma leaves_OpenRead: "leaves q (os_OpenRead p)"
proof (intro leavesI keepsI)
  fix n and w :: "'z world_scheme"
  assume w: "fs w q = n"
  obtain r w1 where r: "os_ReadFile p w = (r, w1)" by (cases "os_ReadFile p w")
  obtain ft w2 where nf: "next_fault w1 = (ft, w2)" by (cases "next_fault w1")
  have "fs w1 q = n" using leavesD [OF leaves_reads(2) r] w by simp
  with r nf next_fault_fs [OF nf] show "fs (snd (os_OpenRead p w)) q = n"
    by (cases r; cases ft) (simp_all add: os_OpenRead_def tryE_def catchE_def failE_def)
qed

lemma leaves_WriteFile: "p \<noteq> q \<Longrightarrow> leaves q (os_WriteFile p d m)"
  unfolding os_WriteFile_def
  by (intro leaves_prog leaves_OpenTrunc leaves_Write leaves_reads)

end
