(* ===== verification/Ikconfig_Cmd.thy ===== *)
theory Ikconfig_Cmd
  imports Ikconfig_Extract Ikconfig_Policy Os_World
begin

text \<open>
  \<^verbatim>\<open>cmd/ikconfig/main.go\<close>: the command that extracts the embedded configuration,
  prints the golden set and verifies an image. The world of the command adds its standard
  output; a fault on a write loses the rest of what was to be written. The command line
  parser is not modelled: the three \<^verbatim>\<open>Run\<close> methods take the paths it leaves in
  their receivers.
\<close>

section \<open>The commands\<close>

record terminal = world +
  stdout :: string

type_synonym ('a, 'z) tio = "('a, 'z terminal_scheme) prog"

definition errDrift :: goerr where
  "errDrift = ErrNew ''a fragment line reverted or the enabled-symbol set changed''"

definition Stdout_Write :: "string \<Rightarrow> (unit, 'z) tio" where
  "Stdout_Write data w =
     (case next_fault w of
        (Fail e n ps, w) \<Rightarrow> (Inl (Errno e), w\<lparr>stdout := stdout w @ take n data\<rparr>)
      | (Pass, w) \<Rightarrow> (Inr (), w\<lparr>stdout := stdout w @ data\<rparr>))"

text \<open>\<^verbatim>\<open>write\<close>, and the \<^verbatim>\<open>fmt.Fprintf\<close> calls whose errors are dropped.\<close>

definition cmd_write :: "string \<Rightarrow> (unit, 'z) tio" where
  "cmd_write data = tryE (Stdout_Write data) (wrap ''write: '') (\<lambda>_. ret ())"

fun print_lines :: "string list \<Rightarrow> (unit, 'z) tio" where
  "print_lines [] = ret ()"
| "print_lines (s # ss) = ignoreE (Stdout_Write s) (print_lines ss)"

definition embedded :: "'r gzip \<Rightarrow> string \<Rightarrow> (string, 'z) io" where
  "embedded gz path =
     tryE (os_ReadFile path) (wrap ''read image: '') (\<lambda>img.
     case Extract gz img of
       Inl e \<Rightarrow> failE e
     | Inr config \<Rightarrow>
         if length config = 0
         then failE (Errorf ('': extracted an empty config from '' @ path) [ErrNoConfig])
         else ret config)"

definition goldenLines :: "string \<Rightarrow> (string list option, 'z) io" where
  "goldenLines path =
     (if path = [] then ret None
      else catchE (os_ReadFile path)
             (\<lambda>e. if errors_Is e (Errno ENOENT) then ret None else failE (wrap ''read golden: '' e))
             (\<lambda>data. ret (Some (Split newline (TrimSuffix data nl)))))"

text \<open>What the golden command prints for a configuration.\<close>

definition golden_text :: "string \<Rightarrow> string" where
  "golden_text config = Join (Golden (Parse config)) nl @ nl"

definition extract_Run :: "'r gzip \<Rightarrow> string \<Rightarrow> (unit, 'z) tio" where
  "extract_Run gz img = tryE (embedded gz img) id cmd_write"

definition golden_Run :: "'r gzip \<Rightarrow> string \<Rightarrow> (unit, 'z) tio" where
  "golden_Run gz img = tryE (embedded gz img) id (\<lambda>config. cmd_write (golden_text config))"

definition verify_Run :: "'r gzip \<Rightarrow> string \<Rightarrow> string \<Rightarrow> (unit, 'z) tio" where
  "verify_Run gz img golden =
     tryE (embedded gz img) id (\<lambda>config.
     tryE (goldenLines golden) id (\<lambda>gold.
     case Verify (Parse config) Policy gold of (ok, report) \<Rightarrow>
       ignoreE (print_lines report)
         (if \<not> ok then failE (Errorf '': see FAIL/DRIFT above'' [errDrift])
          else cmd_write (nl @ ''config OK: every intended decision survived, and no unexpected symbol drift.'' @ nl))))"

text \<open>
  The command line, as the parser leaves it, and \<^verbatim>\<open>main\<close>: the exit status of a
  command (the text of its error on the standard error is left out).
\<close>

datatype cli = ExtractCmd string | GoldenCmd string | VerifyCmd string string

fun cli_Run :: "'r gzip \<Rightarrow> cli \<Rightarrow> (unit, 'z) tio" where
  "cli_Run gz (ExtractCmd img) = extract_Run gz img"
| "cli_Run gz (GoldenCmd img) = golden_Run gz img"
| "cli_Run gz (VerifyCmd img golden) = verify_Run gz img golden"

definition ikconfig_main :: "'r gzip \<Rightarrow> cli \<Rightarrow> 'z terminal_scheme \<Rightarrow> int \<times> 'z terminal_scheme" where
  "ikconfig_main gz root w = (case cli_Run gz root w of (Inl _, w) \<Rightarrow> (1, w) | (Inr _, w) \<Rightarrow> (0, w))"

section \<open>Lemmas\<close>

lemma Golden_no_newline: "l \<in> set (Golden (Parse c)) \<Longrightarrow> newline \<notin> set l"
proof -
  have "set (body_lines ls) \<subseteq> set ls" for ls by (induction ls) auto
  then show "l \<in> set (Golden (Parse c)) \<Longrightarrow> newline \<notin> set l"
    by (auto simp: Golden_def Parse_cfg_golden dest!: subsetD [of "set (body_lines _)"] dest: Split_pieces)
qed

lemma nl_newline: "nl = [newline]"
  by (simp add: nl_def newline_def)

lemma golden_text_lines:
  "Split newline (TrimSuffix (golden_text c) nl) = (if Golden (Parse c) = [] then [[]] else Golden (Parse c))"
  using Split_Join [of "Golden (Parse c)" newline] Golden_no_newline [of _ c]
  by (simp add: golden_text_def nl_newline)

lemma next_fault_stdout: "next_fault (w :: 'z terminal_scheme) = (ft, w1) \<Longrightarrow> stdout w1 = stdout w"
  by (auto simp: next_fault_def split: list.splits)

lemma embedded_ok:
  assumes "embedded gz path w = (Inr config, w')"
  shows "fs w' = fs w \<and> (\<exists>img m. fs w path = Some (NFile img m) \<and> Extract gz img = Inr config \<and> config \<noteq> [])"
proof -
  from assms obtain img w1 where rd: "os_ReadFile path w = (Inr img, w1)"
    and r: "(case Extract gz img of
       Inl e \<Rightarrow> failE e
     | Inr config \<Rightarrow>
         if length config = 0
         then failE (Errorf ('': extracted an empty config from '' @ path) [ErrNoConfig])
         else ret config) w1 = (Inr config, w')"
    unfolding embedded_def tryE_Inr by blast
  from r have "Extract gz img = Inr config" "config \<noteq> []" "w' = w1"
    by (auto simp: failE_eq ret_eq split: sum.splits if_splits)
  with ReadFile_ok [OF rd] show ?thesis by auto
qed

lemma ReadFile_missing:
  assumes "os_ReadFile p w = (Inl e, w')" and "errors_Is e (Errno ENOENT)"
  shows "fs w p = None \<or> (\<exists>n ps. Fail ENOENT n ps \<in> set (faults w))"
proof -
  obtain ft w1 where nf: "next_fault w = (ft, w1)" by (cases "next_fault w")
  show ?thesis
  proof (cases ft)
    case Pass
    with assms nf next_fault_fs [OF nf] show ?thesis
      by (auto simp: os_ReadFile_def fs_read_def split: option.splits node.splits)
  next
    case (Fail x n ps)
    then have "Fail x n ps \<in> set (faults w)"
      using nf by (auto simp: next_fault_def split: list.splits)
    with assms nf Fail show ?thesis by (auto simp: os_ReadFile_def fs_read_def)
  qed
qed

lemma goldenLines_ok:
  assumes "goldenLines path w = (Inr g, w')"
  shows "(g = None \<and> (path = [] \<or> fs w path = None \<or> (\<exists>n ps. Fail ENOENT n ps \<in> set (faults w)))) \<or>
     (\<exists>data m. fs w path = Some (NFile data m) \<and> g = Some (Split newline (TrimSuffix data nl)))"
proof (cases "path = []")
  case True
  with assms show ?thesis by (simp add: goldenLines_def ret_eq)
next
  case False
  obtain r w1 where rd: "os_ReadFile path w = (r, w1)" by (cases "os_ReadFile path w")
  show ?thesis
  proof (cases r)
    case (Inl e)
    with assms False rd have "g = None" "errors_Is e (Errno ENOENT)"
      by (auto simp: goldenLines_def catchE_def ret_eq failE_eq split: if_splits)
    with ReadFile_missing [OF rd [unfolded Inl]] show ?thesis by blast
  next
    case (Inr data)
    with assms False rd have "g = Some (Split newline (TrimSuffix data nl))"
      by (auto simp: goldenLines_def catchE_def ret_eq)
    with ReadFile_ok [OF rd [unfolded Inr]] show ?thesis by blast
  qed
qed

lemma goldenLines_reads:
  assumes "path \<noteq> []" and "fs w path = Some (NFile data m)" and "faults w = []"
  shows "goldenLines path w = (Inr (Some (Split newline (TrimSuffix data nl))), w)"
  using assms by (simp add: goldenLines_def catchE_def os_ReadFile_def fs_read_def next_fault_def ret_def)

text \<open>What a successful verification has established.\<close>

lemma verify_Run_established:
  assumes "verify_Run gz img golden w = (Inr u, w')"
  shows "\<exists>data m config g. fs w img = Some (NFile data m) \<and> Extract gz data = Inr config \<and> config \<noteq> [] \<and>
     fst (Verify (Parse config) Policy g) \<and>
     ((g = None \<and> (golden = [] \<or> fs w golden = None \<or> (\<exists>n ps. Fail ENOENT n ps \<in> set (faults w)))) \<or>
      (\<exists>b m. fs w golden = Some (NFile b m) \<and> g = Some (Split newline (TrimSuffix b nl))))"
proof -
  from assms obtain config w1 g w2 where em: "embedded gz img w = (Inr config, w1)"
    and gl: "goldenLines golden w1 = (Inr g, w2)"
    and r: "(case Verify (Parse config) Policy g of (ok, report) \<Rightarrow>
       ignoreE (print_lines report)
         (if \<not> ok then failE (Errorf '': see FAIL/DRIFT above'' [errDrift])
          else cmd_write (nl @ ''config OK: every intended decision survived, and no unexpected symbol drift.'' @ nl))) w2 = (Inr u, w')"
    unfolding verify_Run_def tryE_Inr by blast
  have "fst (Verify (Parse config) Policy g)"
    using r by (auto simp: ignoreE_eq failE_eq split: prod.splits if_splits)
  moreover have "set (faults w1) \<subseteq> set (faults w)"
    using em by (auto simp: embedded_def tryE_Inr os_ReadFile_def fs_read_def next_fault_def ret_eq failE_eq
        split: list.splits prod.splits fault.splits option.splits node.splits sum.splits if_splits)
  moreover obtain data m where "fs w img = Some (NFile data m)" "Extract gz data = Inr config" "config \<noteq> []" "fs w1 = fs w"
    using embedded_ok [OF em] by blast
  ultimately show ?thesis
    using goldenLines_ok [OF gl] by (intro exI [of _ data] exI [of _ m] exI [of _ config] exI [of _ g]) auto
qed

section \<open>Properties\<close>

lemma golden_Run_out:
  assumes "golden_Run gz img w = (Inr u, w')" and "fs w img = Some (NFile data m)" and "Extract gz data = Inr config"
  shows "stdout w' = stdout w @ golden_text config"
proof -
  from assms(1) obtain c w1 where em: "embedded gz img w = (Inr c, w1)"
    and wr: "cmd_write (golden_text c) w1 = (Inr u, w')"
    unfolding golden_Run_def tryE_Inr by blast
  have "c = config" using embedded_ok [OF em] assms(2,3) by auto
  moreover have "stdout w1 = stdout w"
    using em by (auto simp: embedded_def tryE_Inr os_ReadFile_def fs_read_def ret_eq failE_eq next_fault_def
        split: list.splits prod.splits fault.splits option.splits node.splits sum.splits if_splits)
  moreover have "stdout w' = stdout w1 @ golden_text c"
    using wr by (auto simp: cmd_write_def tryE_Inr Stdout_Write_def ret_eq split: prod.splits fault.splits
        dest!: next_fault_stdout)
  ultimately show ?thesis by simp
qed

text \<open>
  C12. The golden round trip: what the golden command prints for an image, committed to a file
  and given to the verify command, is read back as the golden set of that image's
  configuration, so the verdict is then the policy's alone. It needs a golden set that is not
  empty.
\<close>

theorem golden_round_trip:
  assumes "golden_Run gz img w = (Inr u, w')" and "stdout w = []"
    and "fs w img = Some (NFile data m)" and "Extract gz data = Inr config"
    and "Golden (Parse config) \<noteq> []"
    and "path \<noteq> []" and "fs v path = Some (NFile (stdout w') m')" and "faults v = []"
  shows "goldenLines path v = (Inr (Some (Golden (Parse config))), v) \<and>
     fst (Verify (Parse config) policy (Some (Golden (Parse config)))) = fst (Verify (Parse config) policy None)"
proof -
  have "stdout w' = golden_text config" using golden_Run_out [OF assms(1,3,4)] assms(2) by simp
  then show ?thesis
    using goldenLines_reads [OF assms(6,7,8)] assms(5)
    by (simp add: golden_text_lines Verify_held Golden_def)
qed

definition always_gzip :: "string \<Rightarrow> unit gzip" where
  "always_gzip config = \<lparr>NewReader = (\<lambda>s. Inr ()), ReadAll = (\<lambda>multi r. Inr config)\<rparr>"

definition one_file :: "string \<Rightarrow> string \<Rightarrow> terminal" where
  "one_file p data =
     \<lparr>fs = [p \<mapsto> NFile data 420], hist = [], log = [], faults = [], umask = 18, stdout = []\<rparr>"

lemma one_file_simps [simp]:
  "fs (one_file p data) = [p \<mapsto> NFile data 420]" "faults (one_file p data) = []" "stdout (one_file p data) = []"
  by (simp_all add: one_file_def)

lemma Extract_always: "Extract (always_gzip config) startMarker = Inr config"
  by (simp add: Extract_def always_gzip_def startMarker_def split: prod.split)

lemma embedded_one_file:
  "config \<noteq> [] \<Longrightarrow>
     embedded (always_gzip config) ''img'' (one_file ''img'' startMarker) = (Inr config, one_file ''img'' startMarker)"
  by (simp add: embedded_def tryE_def catchE_def os_ReadFile_def fs_read_def next_fault_def Extract_always ret_def)

lemma golden_round_trip_witness:
  "goldenLines ''g'' (one_file ''g'' (golden_text ''CONFIG_A=y'')) =
     (Inr (Some (Golden (Parse ''CONFIG_A=y''))), one_file ''g'' (golden_text ''CONFIG_A=y''))"
proof -
  let ?w = "one_file ''img'' startMarker"
  have run: "golden_Run (always_gzip ''CONFIG_A=y'') ''img'' ?w = (Inr (), ?w\<lparr>stdout := golden_text ''CONFIG_A=y''\<rparr>)"
    by (simp add: golden_Run_def tryE_def catchE_def embedded_one_file cmd_write_def Stdout_Write_def
        next_fault_def ret_def)
  have ne: "Golden (Parse ''CONFIG_A=y'') \<noteq> []"
    by (simp add: Golden_def Parse_cfg_golden newline_def Contains_def HasPrefix_def golden_line_def
        symbol_char_def value_kept_def)
  show ?thesis
    by (rule golden_round_trip [OF run _ _ Extract_always ne, THEN conjunct1])
      (simp_all add: one_file_def)
qed

text \<open>
  The same round trip fails for an empty golden set: the file is a single newline, which
  reads back as one empty line, and the verification reports drift against the very
  configuration it was printed from.
\<close>

lemma empty_golden_drifts:
  assumes "Golden (Parse config) = []"
    and "path \<noteq> []" and "fs v path = Some (NFile (golden_text config) m)" and "faults v = []"
  shows "goldenLines path v = (Inr (Some [[]]), v) \<and> \<not> fst (Verify (Parse config) policy (Some [[]]))"
  using goldenLines_reads [OF assms(2-4)] assms(1)
  by (simp add: golden_text_lines Verify_held Golden_def)

text \<open>
  C4. A verify command that succeeds has established the whole claim: the image file holds an
  embedded, not empty configuration, every decision of the shipped policy is met by it, and
  its golden set is the committed one, unless no golden was named or the golden file did not
  exist.
\<close>

theorem verify_Run_sound:
  assumes "verify_Run gz img golden w = (Inr u, w')"
  shows "\<exists>data m config. fs w img = Some (NFile data m) \<and> Extract gz data = Inr config \<and> config \<noteq> [] \<and>
     list_all (\<lambda>d. met (Wanted d) (config_State (Parse config) (Symbol d))) (all_decisions Policy) \<and>
     (golden = [] \<or> fs w golden = None \<or> (\<exists>n ps. Fail ENOENT n ps \<in> set (faults w)) \<or>
      (\<exists>b m. fs w golden = Some (NFile b m) \<and> set (Split newline (TrimSuffix b nl)) = set (Golden (Parse config))))"
  using verify_Run_established [OF assms]
  by (auto simp: Verify_held verify_sections_held all_decisions_def list_all_iff Golden_def)

lemma print_lines_Inr: "\<exists>w'. print_lines ls w = (Inr (), w')"
  by (induction ls arbitrary: w) (auto simp: ret_eq ignoreE_eq)

lemma print_lines_faults: "faults w = [] \<Longrightarrow> faults (snd (print_lines ls w)) = []"
  by (induction ls arbitrary: w) (auto simp: ret_def ignoreE_eq Stdout_Write_def next_fault_def)

lemma verify_Run_sound_witness:
  "\<exists>data m config. fs (one_file ''img'' startMarker) ''img'' = Some (NFile data m) \<and>
     Extract (always_gzip (stating Policy)) data = Inr config \<and>
     list_all (\<lambda>d. met (Wanted d) (config_State (Parse config) (Symbol d))) (all_decisions Policy)"
proof -
  let ?w = "one_file ''img'' startMarker"
  have ne: "stating Policy \<noteq> []" by code_simp
  have v: "fst (Verify (Parse (stating Policy)) Policy None)"
    using stating_held [OF Policy_consistent] by (simp add: Verify_held)
  obtain report where rep: "Verify (Parse (stating Policy)) Policy None = (True, report)"
    using v by (metis prod.collapse)
  have "faults (snd (print_lines report ?w)) = []" by (rule print_lines_faults) (simp add: one_file_def)
  then have "\<exists>w'. verify_Run (always_gzip (stating Policy)) ''img'' [] ?w = (Inr (), w')"
    by (simp add: verify_Run_def tryE_def catchE_def embedded_one_file [OF ne] goldenLines_def ret_def rep
        ignoreE_eq cmd_write_def Stdout_Write_def next_fault_def)
  then obtain w' where "verify_Run (always_gzip (stating Policy)) ''img'' [] ?w = (Inr (), w')" by blast
  from verify_Run_sound [OF this] show ?thesis by blast
qed

end
