(* ===== verification/Guest_Init.thy ===== *)
theory Guest_Init
  imports Os_World Go_Strconv
begin

text \<open>
  \<^verbatim>\<open>cmd/ossein-kernel/init/main.go\<close>: PID 1 of the build microVM. It runs on the
  world of \<open>Os_World\<close>, whose \<open>fs\<close> holds the guest's files; mounts, the pivot and the
  power-off are events of its log. The netlink and DHCP libraries and the build script are
  parameters.
\<close>

section \<open>Constants\<close>

definition initFailedStatus :: int where "initFailedStatus = 254"

definition kernelShare :: string where "kernelShare = ''/kernel''"
definition statusPath :: string where "statusPath = ''/kernel/status''"
definition buildScript :: string where "buildScript = ''/kernel/build.sh''"
definition buildLog :: string where "buildLog = ''/kernel/build.log''"
definition envFile :: string where "envFile = ''/kernel/build.env''"
definition overlayMountpoint :: string where "overlayMountpoint = ''/ram''"
definition fsTmpfs :: string where "fsTmpfs = ''tmpfs''"
definition MS_BIND :: nat where "MS_BIND = 4096"

definition fileMode :: FileMode where
  "fileMode = 420"  \<comment> \<open>0o644\<close>

definition errNoEthernet :: goerr where "errNoEthernet = ErrNew ''no ethernet interface found''"

section \<open>The overlay root\<close>

definition mount :: "string \<Rightarrow> string \<Rightarrow> string \<Rightarrow> nat \<Rightarrow> string \<Rightarrow> (unit, 'z) io" where
  "mount source target fstype flags data = sys_call (EvMount source target fstype flags data)"

definition setupOverlayRoot :: "(unit, 'z) io" where
  "setupOverlayRoot =
     tryE (mount ''tmpfs'' overlayMountpoint ''tmpfs'' 0 [])
       (wrap (''mount tmpfs on '' @ overlayMountpoint @ '': '')) (\<lambda>_.
     let lower = overlayMountpoint @ ''/lower''; upper = overlayMountpoint @ ''/upper'';
         work = overlayMountpoint @ ''/work''; newRoot = overlayMountpoint @ ''/root'';
         opts = ''lowerdir='' @ lower @ '',upperdir='' @ upper @ '',workdir='' @ work;
         oldRoot = newRoot @ ''/oldroot''
     in
     tryE (forE [lower, upper, work, newRoot]
             (\<lambda>d. tryE (os_Mkdir d) (wrap (''mkdir '' @ d @ '': '')) ret)) id (\<lambda>_.
     tryE (mount ''/'' lower [] MS_BIND []) (wrap (''bind / -> '' @ lower @ '': '')) (\<lambda>_.
     tryE (mount ''overlay'' newRoot ''overlay'' 0 opts) (wrap (''mount overlay ('' @ opts @ ''): '')) (\<lambda>_.
     tryE (os_Mkdir oldRoot) (wrap (''mkdir '' @ oldRoot @ '': '')) (\<lambda>_.
     tryE (sys_call (EvPivot newRoot oldRoot)) (wrap ''pivot_root: '') (\<lambda>_.
     tryE (sys_call (EvChdir ''/'')) (wrap ''chdir /: '') (\<lambda>_.
     ignoreE (sys_call (EvUnmount ''/oldroot'')) (ret ()))))))))"

section \<open>Base mounts and shares\<close>

record mountSpec =
  ms_source :: string
  ms_target :: string
  ms_fstype :: string
  ms_flags :: nat
  ms_data :: string

definition base_mounts :: "mountSpec list" where
  "base_mounts =
     [\<lparr>ms_source = ''proc'', ms_target = ''/proc'', ms_fstype = ''proc'', ms_flags = 0, ms_data = []\<rparr>,
      \<lparr>ms_source = ''sysfs'', ms_target = ''/sys'', ms_fstype = ''sysfs'', ms_flags = 0, ms_data = []\<rparr>,
      \<lparr>ms_source = ''devtmpfs'', ms_target = ''/dev'', ms_fstype = ''devtmpfs'', ms_flags = 0, ms_data = []\<rparr>,
      \<lparr>ms_source = ''devpts'', ms_target = ''/dev/pts'', ms_fstype = ''devpts'', ms_flags = 0, ms_data = ''gid=5,mode=620''\<rparr>,
      \<lparr>ms_source = fsTmpfs, ms_target = ''/dev/shm'', ms_fstype = fsTmpfs, ms_flags = 0, ms_data = []\<rparr>,
      \<lparr>ms_source = fsTmpfs, ms_target = ''/run'', ms_fstype = fsTmpfs, ms_flags = 0, ms_data = []\<rparr>,
      \<lparr>ms_source = fsTmpfs, ms_target = ''/tmp'', ms_fstype = fsTmpfs, ms_flags = 0, ms_data = []\<rparr>,
      \<lparr>ms_source = fsTmpfs, ms_target = ''/kbuild'', ms_fstype = fsTmpfs, ms_flags = 0, ms_data = []\<rparr>]"

definition spec_event :: "mountSpec \<Rightarrow> event" where
  "spec_event s = EvMount (ms_source s) (ms_target s) (ms_fstype s) (ms_flags s) (ms_data s)"

definition mount_spec :: "mountSpec \<Rightarrow> (unit, 'z) io" where
  "mount_spec s =
     tryE (os_MkdirAll (ms_target s)) (wrap (''mkdir '' @ ms_target s @ '': '')) (\<lambda>_.
     catchE (mount (ms_source s) (ms_target s) (ms_fstype s) (ms_flags s) (ms_data s))
       (\<lambda>e. if ms_target s = ''/dev'' \<and> errors_Is e (Errno EBUSY) then ret ()
            else failE (wrap (''mount '' @ ms_fstype s @ '' on '' @ ms_target s @ '': '') e))
       ret)"

definition mountBase :: "(unit, 'z) io" where
  "mountBase = forE base_mounts mount_spec"

definition mountVirtiofs :: "string \<Rightarrow> string \<Rightarrow> (unit, 'z) io" where
  "mountVirtiofs tag target =
     tryE (os_MkdirAll target) (wrap (''mkdir '' @ target @ '': '')) (\<lambda>_.
     tryE (mount tag target ''virtiofs'' 0 [])
       (wrap (''mount virtiofs '' @ tag @ '' on '' @ target @ '': '')) ret)"

definition cmdlineHas :: "string \<Rightarrow> (bool, 'z) io" where
  "cmdlineHas token =
     catchE (os_ReadFile ''/proc/cmdline'') (\<lambda>_. ret False) (\<lambda>data. ret (token \<in> set (Fields data)))"

definition mountShares :: "(unit, 'z) io" where
  "mountShares =
     tryE (mountVirtiofs ''kernel'' kernelShare) id (\<lambda>_.
     tryE (cmdlineHas ''ossein.llvm=1'') id (\<lambda>llvm.
     if llvm then tryE (mountVirtiofs ''llvm'' ''/opt/llvm'') id (\<lambda>_. ret ()) else ret ()))"

section \<open>The network\<close>

text \<open>An IPv4 address, and its text as \<^verbatim>\<open>net.IP\<close> writes it.\<close>

type_synonym ipv4 = "8 word \<times> 8 word \<times> 8 word \<times> 8 word"

definition IP_String :: "ipv4 \<Rightarrow> string" where
  "IP_String ip =
     (case ip of (a, b, c, d) \<Rightarrow> Join (map (\<lambda>w. Itoa (uint w)) [a, b, c, d]) ''.'')"

record link =
  link_Name :: string
  link_Type :: string
  link_Index :: int

record ack =
  SubnetMask :: "ipv4 option"
  YourIPAddr :: ipv4
  Router :: "ipv4 list"
  DNS :: "ipv4 list"

record ('s, 'c) netdeps =
  LinkList :: "(link list, 's) prog"
  LinkSetUp :: "link \<Rightarrow> (unit, 's) prog"
  DhcpNew :: "string \<Rightarrow> ('c, 's) prog"
  DhcpRequest :: "'c \<Rightarrow> (ack, 's) prog"
  DhcpClose :: "'c \<Rightarrow> (unit, 's) prog"
  AddrAdd :: "link \<Rightarrow> ipv4 \<Rightarrow> ipv4 \<Rightarrow> (unit, 's) prog"
  RouteAdd :: "int \<Rightarrow> ipv4 \<Rightarrow> (unit, 's) prog"
  AddrString :: "ipv4 \<Rightarrow> ipv4 \<Rightarrow> string"

definition findEthernet :: "('z world_scheme, 'c) netdeps \<Rightarrow> (link, 'z) io" where
  "findEthernet nd =
     tryE (LinkList nd) (wrap ''list links: '') (\<lambda>links.
       case find (\<lambda>l. link_Name l \<noteq> ''lo'' \<and> link_Type l \<noteq> []) links of
         None \<Rightarrow> failE errNoEthernet
       | Some l \<Rightarrow> ret l)"

definition resolv_text :: "ipv4 list \<Rightarrow> string" where
  "resolv_text servers = concat (map (\<lambda>s. ''nameserver '' @ IP_String s @ [CHR 0x0A]) servers)"

definition writeResolvConf :: "ipv4 list \<Rightarrow> (unit, 'z) io" where
  "writeResolvConf servers =
     (let builder = resolv_text servers
      in if length builder = 0 then ret ()
         else
           tryE (os_MkdirAll ''/etc'') (wrap ''mkdir /etc: '') (\<lambda>_.
           tryE (os_WriteFile ''/etc/resolv.conf'' builder fileMode) (wrap ''write /etc/resolv.conf: '')
             (\<lambda>_. ret ())))"

definition bringUpNetwork :: "('z world_scheme, 'c) netdeps \<Rightarrow> (unit, 'z) io" where
  "bringUpNetwork nd =
     tryE (findEthernet nd) id (\<lambda>link.
     tryE (LinkSetUp nd link) (wrap (''link up '' @ link_Name link @ '': '')) (\<lambda>_.
     tryE (DhcpNew nd (link_Name link)) (wrap (''dhcp client on '' @ link_Name link @ '': '')) (\<lambda>client.
     deferE
       (tryE (DhcpRequest nd client) (wrap ''dhcp request: '') (\<lambda>ack.
        let mask = (case SubnetMask ack of None \<Rightarrow> (255, 255, 255, 0) | Some m \<Rightarrow> m)
        in tryE (AddrAdd nd link (YourIPAddr ack) mask)
             (wrap (''assign '' @ AddrString nd (YourIPAddr ack) mask @ '': '')) (\<lambda>_.
        tryE (case Router ack of
                [] \<Rightarrow> ret ()
              | gw # _ \<Rightarrow> tryE (RouteAdd nd (link_Index link) gw)
                            (wrap (''default route via '' @ IP_String gw @ '': '')) ret) id (\<lambda>_.
        tryE (writeResolvConf (DNS ack)) (wrap ''resolv.conf: '') (\<lambda>_. ret ())))))
       (DhcpClose nd client))))"

section \<open>The build\<close>

text \<open>
  \<^verbatim>\<open>bufio.Scanner\<close> by lines: a line ends at a newline, a carriage return before it is
  dropped, the last line may lack the newline. A line longer than the scanner's buffer
  allows (65535 bytes, with its carriage return) ends the scan with an error.
\<close>

definition max_line :: nat where "max_line = 65535"

definition ErrTooLong :: goerr where "ErrTooLong = ErrNew ''bufio.Scanner: token too long''"

definition raw_lines :: "string \<Rightarrow> string list" where
  "raw_lines s = (let ls = Split CHR 0x0A s in if last ls = [] then butlast ls else ls)"

definition drop_cr :: "string \<Rightarrow> string" where
  "drop_cr l = (if l \<noteq> [] \<and> last l = CHR 0x0D then butlast l else l)"

definition scan_lines :: "string \<Rightarrow> string list \<times> goerr option" where
  "scan_lines s =
     (map drop_cr (takeWhile (\<lambda>l. length l \<le> max_line) (raw_lines s)),
      if list_all (\<lambda>l. length l \<le> max_line) (raw_lines s) then None else Some ErrTooLong)"

definition base_env :: "string list" where
  "base_env = [''PATH=/usr/local/sbin:/usr/local/bin:/usr/sbin:/usr/bin:/sbin:/bin'']"

definition env_lines :: "string list \<Rightarrow> string list" where
  "env_lines ls = filter (\<lambda>l. l \<noteq> [] \<and> \<not> HasPrefix l ''#'') (map TrimSpace ls)"

definition readEnvFile :: "string \<Rightarrow> (string list, 'z) io" where
  "readEnvFile path =
     catchE (os_OpenRead path)
       (\<lambda>e. if errors_Is e (Errno ENOENT) then ret base_env
            else failE (wrap (''open '' @ path @ '': '') e))
       (\<lambda>file.
          case snd file of
            Some e \<Rightarrow>
              failE (wrap (''read '' @ path @ '': '')
                (case snd (scan_lines (concat (fst file))) of Some e' \<Rightarrow> e' | None \<Rightarrow> e))
          | None \<Rightarrow>
              (case scan_lines (concat (fst file)) of
                 (ls, Some e) \<Rightarrow> failE (wrap (''read '' @ path @ '': '') e)
               | (ls, None) \<Rightarrow> ret (base_env @ env_lines ls)))"

text \<open>
  What running the script under bash comes to: it exits with zero, it exits otherwise (with
  \<open>-1\<close> when a signal ended it), or running it failed.
\<close>

datatype bash_result = BashOK | BashExit int | BashErr goerr

type_synonym 'z bash = "string list \<Rightarrow> 'z world_scheme \<Rightarrow> bash_result \<times> 'z world_scheme"

text \<open>A code with an optional error, as \<^verbatim>\<open>run\<close> and \<^verbatim>\<open>runBuild\<close> return them.\<close>

type_synonym 'z outcome = "'z world_scheme \<Rightarrow> (int \<times> goerr option) \<times> 'z world_scheme"

definition or_fail :: "(goerr \<Rightarrow> goerr) \<Rightarrow> ('a, 'z) io \<Rightarrow> ('a \<Rightarrow> 'z outcome) \<Rightarrow> 'z outcome" where
  "or_fail f m k w =
     (case m w of (Inl e, w) \<Rightarrow> ((initFailedStatus, Some (f e)), w) | (Inr x, w) \<Rightarrow> k x w)"

definition run_bash :: "'z bash \<Rightarrow> string list \<Rightarrow> 'z outcome" where
  "run_bash bash env w =
     (case bash env (emit (EvExec buildScript env, True) w) of (res, w) \<Rightarrow>
        (case res of
           BashOK \<Rightarrow> ((0, None), w)
         | BashExit c \<Rightarrow> ((c, None), w)
         | BashErr e \<Rightarrow> ((initFailedStatus, Some (wrap (''exec '' @ buildScript @ '': '') e)), w)))"

definition runBuild :: "'z bash \<Rightarrow> 'z outcome" where
  "runBuild bash =
     or_fail id (readEnvFile envFile) (\<lambda>env.
     or_fail (wrap (''open '' @ buildLog @ '': '')) (os_OpenTrunc buildLog fileMode) (\<lambda>_ w.
     case run_bash bash env w of (r, w) \<Rightarrow>
       (r, snd (ignoreE (os_Sync buildLog) (os_Close buildLog) w))))"

definition run :: "('z world_scheme, 'c) netdeps \<Rightarrow> 'z bash \<Rightarrow> 'z outcome" where
  "run nd bash =
     or_fail (wrap ''overlay root: '') setupOverlayRoot (\<lambda>_.
     or_fail (wrap ''base mounts: '') mountBase (\<lambda>_.
     or_fail (wrap ''virtiofs shares: '') mountShares (\<lambda>_.
     or_fail id (cmdlineHas ''ossein.net=1'') (\<lambda>net.
     or_fail (wrap ''network: '') (if net then bringUpNetwork nd else ret ()) (\<lambda>_ w.
     case runBuild bash w of ((code, err), w) \<Rightarrow>
       ((code, map_option (wrap ''build: '') err), w))))))"

definition writeStatus :: "int \<Rightarrow> (unit, 'z) io" where
  "writeStatus code =
     tryE (os_OpenTrunc statusPath fileMode) (wrap (''open '' @ statusPath @ '': '')) (\<lambda>_.
     catchE (os_Write statusPath (Itoa code @ [CHR 0x0A]))
       (\<lambda>e. ignoreE (os_Close statusPath) (failE (wrap (''write '' @ statusPath @ '': '') e))) (\<lambda>_.
     catchE (os_Sync statusPath)
       (\<lambda>e. ignoreE (os_Close statusPath) (failE (wrap (''fsync '' @ statusPath @ '': '') e))) (\<lambda>_.
     tryE (os_Close statusPath) (wrap (''close '' @ statusPath @ '': '')) (\<lambda>_.
     catchE (os_OpenDir kernelShare) (\<lambda>_. ret ())
       (\<lambda>_. ignoreE (os_Sync kernelShare) (ignoreE (os_Close kernelShare) (ret ())))))))"

text \<open>The code recorded: what \<^verbatim>\<open>run\<close> returned, but never zero with an error.\<close>

definition status_code :: "int \<times> goerr option \<Rightarrow> int" where
  "status_code r = (case r of (code, err) \<Rightarrow> if err \<noteq> None \<and> code = 0 then initFailedStatus else code)"

text \<open>\<^verbatim>\<open>main\<close> returns at the power-off; after it the process only waits.\<close>

definition guest_main :: "('z world_scheme, 'c) netdeps \<Rightarrow> 'z bash \<Rightarrow> 'z world_scheme \<Rightarrow> 'z world_scheme" where
  "guest_main nd bash w =
     (case run nd bash (w\<lparr>umask := 0\<rparr>) of (r, w) \<Rightarrow>
        snd (ignoreE (writeStatus (status_code r)) (sys_call EvPowerOff) w))"

end
