(* ===== verification/Guest_Safety.thy ===== *)
theory Guest_Safety
  imports Guest_Init
begin

text \<open>
  What PID 1 of the build microVM guarantees: the disk is not written before the overlay is
  in place, the mounts happen in order, the status is durable before the power-off, a zero
  status means that every step succeeded, and the network is used only when the host
  declared it.
\<close>

section \<open>The log\<close>

text \<open>An event that has been logged stays logged.\<close>

definition logged :: "event \<times> bool \<Rightarrow> 'z world_scheme \<Rightarrow> bool" where
  "logged e w \<longleftrightarrow> e \<in> set (log w)"

lemma fs_call_log:
  "fs_call ev pre eff partway w = (r, w') \<Longrightarrow> log w' = log w @ [(ev, is_ok r)]"
proof -
  assume c: "fs_call ev pre eff partway w = (r, w')"
  obtain ft w1 where nf: "next_fault w = (ft, w1)" by (cases "next_fault w")
  with c next_fault_fs [OF nf] show ?thesis
    by (cases ft; cases "pre (fs w1)") (auto simp: fs_call_def set_fs_def emit_def)
qed

lemma sys_call_log: "sys_call ev w = (r, w') \<Longrightarrow> log w' = log w @ [(ev, is_ok r)]"
proof -
  assume c: "sys_call ev w = (r, w')"
  obtain ft w1 where nf: "next_fault w = (ft, w1)" by (cases "next_fault w")
  with c next_fault_fs [OF nf] show ?thesis
    by (cases ft) (auto simp: sys_call_def emit_def)
qed

lemma fs_read_log: "fs_read rd w = (r, w') \<Longrightarrow> log w' = log w"
proof -
  assume c: "fs_read rd w = (r, w')"
  obtain ft w1 where nf: "next_fault w = (ft, w1)" by (cases "next_fault w")
  with c next_fault_fs [OF nf] show ?thesis
    by (cases ft; cases "rd (fs w1)") (auto simp: fs_read_def)
qed

lemma OpenTrunc_log: "os_OpenTrunc p m w = (r, w') \<Longrightarrow> log w' = log w @ [(EvCreate p, is_ok r)]"
  unfolding os_OpenTrunc_def by (rule fs_call_log)

lemma Write_log: "os_Write p b w = (r, w') \<Longrightarrow> log w' = log w @ [(EvWrite p b, is_ok r)]"
  unfolding os_Write_def by (rule fs_call_log)

lemma Sync_log: "os_Sync p w = (r, w') \<Longrightarrow> log w' = log w @ [(EvSync p, is_ok r)]"
  unfolding os_Sync_def by (rule sys_call_log)

lemma Close_log: "os_Close p w = (r, w') \<Longrightarrow> log w' = log w @ [(EvClose p, is_ok r)]"
  unfolding os_Close_def by (rule sys_call_log)

lemma MkdirAll_log: "os_MkdirAll p w = (r, w') \<Longrightarrow> log w' = log w @ [(EvMkdir p, is_ok r)]"
  unfolding os_MkdirAll_def by (rule fs_call_log)

lemma mount_log: "mount s t f fl d w = (r, w') \<Longrightarrow> log w' = log w @ [(EvMount s t f fl d, is_ok r)]"
  unfolding mount_def by (rule sys_call_log)

lemma Stat_log: "os_Stat p w = (r, w') \<Longrightarrow> log w' = log w"
  unfolding os_Stat_def by (rule fs_read_log)

lemma Sync_fs: "os_Sync p w = (r, w') \<Longrightarrow> fs w' = fs w \<and> hist w' = hist w"
  unfolding os_Sync_def by (rule sys_call_fs)

lemma Stat_fs: "os_Stat p w = (r, w') \<Longrightarrow> fs w' = fs w \<and> hist w' = hist w"
proof -
  assume c: "os_Stat p w = (r, w')"
  obtain ft w1 where nf: "next_fault w = (ft, w1)" by (cases "next_fault w")
  with c next_fault_fs [OF nf] show ?thesis
    by (cases ft; cases "fs w1 p") (auto simp: os_Stat_def fs_read_def split: sum.splits node.splits)
qed

section \<open>The status is durable\<close>

definition status_events :: "int \<Rightarrow> (event \<times> bool) list" where
  "status_events code =
     [(EvCreate statusPath, True), (EvWrite statusPath (Itoa code @ [CHR 0x0A]), True),
      (EvSync statusPath, True), (EvClose statusPath, True)]"

lemma writeStatus_ok:
  assumes "writeStatus code w = (Inr u, w')"
  shows "(\<exists>m. fs w' statusPath = Some (NFile (Itoa code @ [CHR 0x0A]) m)) \<and>
     (\<exists>l. log w' = log w @ status_events code @ l)"
proof -
  from assms obtain x w1 where o: "os_OpenTrunc statusPath fileMode w = (Inr x, w1)"
    and r1: "catchE (os_Write statusPath (Itoa code @ [CHR 0x0A]))
       (\<lambda>e. ignoreE (os_Close statusPath) (failE (wrap (''write '' @ statusPath @ '': '') e))) (\<lambda>_.
     catchE (os_Sync statusPath)
       (\<lambda>e. ignoreE (os_Close statusPath) (failE (wrap (''fsync '' @ statusPath @ '': '') e))) (\<lambda>_.
     tryE (os_Close statusPath) (wrap (''close '' @ statusPath @ '': '')) (\<lambda>_.
     catchE (os_Stat kernelShare) (\<lambda>_. ret ())
       (\<lambda>_. ignoreE (os_Sync kernelShare) (ignoreE (os_Close kernelShare) (ret ())))))) w1 = (Inr u, w')"
    unfolding writeStatus_def tryE_Inr [of "os_OpenTrunc _ _"] by blast
  from r1 obtain y w2 where wr: "os_Write statusPath (Itoa code @ [CHR 0x0A]) w1 = (Inr y, w2)"
    and r2: "catchE (os_Sync statusPath)
       (\<lambda>e. ignoreE (os_Close statusPath) (failE (wrap (''fsync '' @ statusPath @ '': '') e))) (\<lambda>_.
     tryE (os_Close statusPath) (wrap (''close '' @ statusPath @ '': '')) (\<lambda>_.
     catchE (os_Stat kernelShare) (\<lambda>_. ret ())
       (\<lambda>_. ignoreE (os_Sync kernelShare) (ignoreE (os_Close kernelShare) (ret ()))))) w2 = (Inr u, w')"
    unfolding cleanup_Inr [of "os_Write statusPath _"] by blast
  from r2 obtain z w3 where sy: "os_Sync statusPath w2 = (Inr z, w3)"
    and r3: "tryE (os_Close statusPath) (wrap (''close '' @ statusPath @ '': '')) (\<lambda>_.
     catchE (os_Stat kernelShare) (\<lambda>_. ret ())
       (\<lambda>_. ignoreE (os_Sync kernelShare) (ignoreE (os_Close kernelShare) (ret ())))) w3 = (Inr u, w')"
    unfolding cleanup_Inr by blast
  from r3 obtain v w4 where cl: "os_Close statusPath w3 = (Inr v, w4)"
    and r4: "catchE (os_Stat kernelShare) (\<lambda>_. ret ())
       (\<lambda>_. ignoreE (os_Sync kernelShare) (ignoreE (os_Close kernelShare) (ret ()))) w4 = (Inr u, w')"
    unfolding tryE_Inr by blast
  obtain q w5 where st: "os_Stat kernelShare w4 = (q, w5)" by (cases "os_Stat kernelShare w4")
  have tail: "fs w' = fs w4 \<and> (\<exists>l. log w' = log w4 @ l)"
  proof (cases q)
    case (Inl e)
    with r4 st Stat_fs [OF st] Stat_log [OF st] show ?thesis by (simp add: catchE_def ret_eq)
  next
    case (Inr n)
    obtain a w6 where s6: "os_Sync kernelShare w5 = (a, w6)" by (cases "os_Sync kernelShare w5")
    obtain b w7 where s7: "os_Close kernelShare w6 = (b, w7)" by (cases "os_Close kernelShare w6")
    have "w' = w7" using r4 st Inr s6 s7 by (simp add: catchE_def ignoreE_eq ret_eq)
    with Stat_fs [OF st] Stat_log [OF st] Sync_fs [OF s6] Sync_log [OF s6] Close_fs [OF s7] Close_log [OF s7]
    show ?thesis by simp
  qed
  obtain m where "fs w1 statusPath = Some (NFile [] m)" using OpenTrunc_ok [OF o] by auto
  then have "fs w' statusPath = Some (NFile (Itoa code @ [CHR 0x0A]) m)"
    using Write_ok [OF wr] Sync_fs [OF sy] Close_fs [OF cl] tail by (simp add: append_file_def)
  moreover have "log w4 = log w @ status_events code"
    using OpenTrunc_log [OF o] Write_log [OF wr] Sync_log [OF sy] Close_log [OF cl]
    by (simp add: status_events_def)
  ultimately show ?thesis using tail by auto
qed

text \<open>
  C8. The machine is powered off last, and the status goes first: the power-off is the last
  event of the guest, and when the status was written, the file holds the code and its
  creation, its write, its fsync and its close precede the power-off in this order.
\<close>

theorem status_durable_before_poweroff:
  "\<exists>r w1 q w2 off. run nd bash (w\<lparr>umask := 0\<rparr>) = (r, w1) \<and> writeStatus (status_code r) w1 = (q, w2) \<and>
     log (guest_main nd bash w) = log w2 @ [(EvPowerOff, off)] \<and>
     (is_ok q \<longrightarrow>
        (\<exists>m. fs (guest_main nd bash w) statusPath = Some (NFile (Itoa (status_code r) @ [CHR 0x0A]) m)) \<and>
        (\<exists>l. log w2 = log w1 @ status_events (status_code r) @ l))"
proof -
  obtain r w1 where r: "run nd bash (w\<lparr>umask := 0\<rparr>) = (r, w1)" by (cases "run nd bash (w\<lparr>umask := 0\<rparr>)")
  obtain q w2 where q: "writeStatus (status_code r) w1 = (q, w2)" by (cases "writeStatus (status_code r) w1")
  obtain p w3 where p: "sys_call EvPowerOff w2 = (p, w3)" by (cases "sys_call EvPowerOff w2")
  have m: "guest_main nd bash w = w3" by (simp add: guest_main_def r q p ignoreE_eq)
  have "fs w3 = fs w2" "log w3 = log w2 @ [(EvPowerOff, is_ok p)]"
    using sys_call_fs [OF p] sys_call_log [OF p] by simp_all
  then show ?thesis
    using r q m writeStatus_ok [of "status_code r" w1 _ w2]
    by (intro exI [of _ r] exI [of _ w1] exI [of _ q] exI [of _ w2] exI [of _ "is_ok p"])
      (auto simp: is_ok_iff)
qed

section \<open>The disk below the overlay\<close>

text \<open>
  Setting up the overlay writes nothing but directories of the overlay's own mount point:
  any other path of the root keeps its contents, whatever fails.
\<close>

lemma overlay_setup_confined:
  assumes "\<not> HasPrefix p ''/ram/''" and "disk_inv (\<lambda>f. f p = n) w"
  shows "disk_inv (\<lambda>f. f p = n) (snd (setupOverlayRoot w))"
proof -
  have b: "blind (\<lambda>f. f p = n) q" if "HasPrefix q ''/ram/''" for q
    using assms(1) that by (auto simp: blind_def)
  have m: "keeps (disk_inv (\<lambda>f. f p = n)) (os_Mkdir q)" if "HasPrefix q ''/ram/''" for q
    by (rule keeps_Mkdir) (rule b [OF that])
  have "keeps (disk_inv (\<lambda>f. f p = n)) setupOverlayRoot"
    unfolding setupOverlayRoot_def Let_def mount_def
    by (intro keeps_tryE keeps_forE keeps_ignoreE keeps_ret keeps_sys_call m)
      (auto simp: overlayMountpoint_def)
  then show ?thesis using assms(2) by (rule keepsD)
qed

definition no_net :: "(world, unit) netdeps" where
  "no_net =
     \<lparr>LinkList = ret [], LinkSetUp = (\<lambda>l. ret ()), DhcpNew = (\<lambda>n. ret ()),
      DhcpRequest = (\<lambda>c. failE (ErrNew ''timeout'')), DhcpClose = (\<lambda>c. ret ()),
      AddrAdd = (\<lambda>l a m. ret ()), RouteAdd = (\<lambda>i g. ret ()), AddrString = (\<lambda>a m. [])\<rparr>"

definition ok_bash :: "unit bash" where "ok_bash env w = (BashOK, w)"

definition broken_mount :: world where
  "broken_mount =
     \<lparr>fs = [''/kernel'' \<mapsto> NDir], hist = [], log = [], faults = [Fail EIO 0 []], umask = 18\<rparr>"

lemma status_durable_before_poweroff_witness:
  "\<exists>m. fs (guest_main no_net ok_bash broken_mount) statusPath = Some (NFile (''254'' @ [CHR 0x0A]) m)"
proof -
  let ?run = "run no_net ok_bash (broken_mount\<lparr>umask := 0\<rparr>)"
  have c: "status_code (fst ?run) = 254" by code_simp
  have q: "is_ok (fst (writeStatus 254 (snd ?run)))" by code_simp
  have "Itoa 254 = ''254''" by code_simp
  with status_durable_before_poweroff [of no_net ok_bash broken_mount] c q show ?thesis by auto
qed

section \<open>The base mounts\<close>

definition is_mount :: "event \<times> bool \<Rightarrow> bool" where
  "is_mount e = (case fst e of EvMount s t f fl d \<Rightarrow> True | _ \<Rightarrow> False)"

lemma mount_spec_log:
  assumes "mount_spec s w = (Inr u, w')"
  shows "\<exists>ok. filter is_mount (log w') = filter is_mount (log w) @ [(spec_event s, ok)] \<and>
     (\<not> ok \<longrightarrow> ms_target s = ''/dev'')"
proof -
  from assms obtain v w1 where mk: "os_MkdirAll (ms_target s) w = (Inr v, w1)"
    and c: "catchE (mount (ms_source s) (ms_target s) (ms_fstype s) (ms_flags s) (ms_data s))
       (\<lambda>e. if ms_target s = ''/dev'' \<and> errors_Is e (Errno EBUSY) then ret ()
            else failE (wrap (''mount '' @ ms_fstype s @ '' on '' @ ms_target s @ '': '') e)) ret w1 = (Inr u, w')"
    unfolding mount_spec_def tryE_Inr by blast
  obtain r w2 where m: "mount (ms_source s) (ms_target s) (ms_fstype s) (ms_flags s) (ms_data s) w1 = (r, w2)"
    by (cases "mount (ms_source s) (ms_target s) (ms_fstype s) (ms_flags s) (ms_data s) w1")
  have "w' = w2 \<and> (is_ok r \<or> ms_target s = ''/dev'')"
    using c m by (cases r) (auto simp: catchE_def ret_eq failE_eq split: if_splits)
  with MkdirAll_log [OF mk] mount_log [OF m] show ?thesis
    by (intro exI [of _ "is_ok r"]) (auto simp: is_mount_def spec_event_def)
qed

lemma forE_mounts:
  "forE ss mount_spec w = (Inr u, w') \<Longrightarrow>
     \<exists>oks. length oks = length ss \<and> filter is_mount (log w') = filter is_mount (log w) @ zip (map spec_event ss) oks \<and>
       (\<forall>i < length ss. \<not> oks ! i \<longrightarrow> ms_target (ss ! i) = ''/dev'')"
proof (induction ss arbitrary: w)
  case Nil
  then show ?case by (simp add: ret_eq)
next
  case (Cons s ss)
  then obtain v w1 where s: "mount_spec s w = (Inr v, w1)" and ss: "forE ss mount_spec w1 = (Inr u, w')"
    by (auto simp: tryE_Inr)
  obtain ok where ok: "filter is_mount (log w1) = filter is_mount (log w) @ [(spec_event s, ok)]"
      "\<not> ok \<longrightarrow> ms_target s = ''/dev''"
    using mount_spec_log [OF s] by blast
  obtain oks where oks: "length oks = length ss"
      "filter is_mount (log w') = filter is_mount (log w1) @ zip (map spec_event ss) oks"
      "\<forall>i < length ss. \<not> oks ! i \<longrightarrow> ms_target (ss ! i) = ''/dev''"
    using Cons.IH [OF ss] by blast
  show ?case
    by (intro exI [of _ "ok # oks"]) (use ok oks in \<open>auto simp: nth_Cons split: nat.split\<close>)
qed

text \<open>
  Base mounts that succeed happened in the order of the table, parents before children:
  the mounts the run adds to the log are the eight of the table, each successful except
  perhaps the one on \<^verbatim>\<open>/dev\<close>, which the kernel may have made already.
\<close>

lemma base_mounts_in_order:
  assumes "mountBase w = (Inr u, w')"
  shows "\<exists>dev. filter is_mount (log w') =
     filter is_mount (log w) @ map (\<lambda>s. (spec_event s, ms_target s = ''/dev'' \<longrightarrow> dev)) base_mounts"
proof -
  obtain oks where oks: "length oks = length base_mounts"
      "filter is_mount (log w') = filter is_mount (log w) @ zip (map spec_event base_mounts) oks"
      "\<forall>i < length base_mounts. \<not> oks ! i \<longrightarrow> ms_target (base_mounts ! i) = ''/dev''"
    using forE_mounts assms unfolding mountBase_def by blast
  have "zip (map spec_event base_mounts) oks =
      map (\<lambda>s. (spec_event s, ms_target s = ''/dev'' \<longrightarrow> oks ! 2)) base_mounts"
  proof (rule nth_equalityI)
    fix i
    assume i: "i < length (zip (map spec_event base_mounts) oks)"
    then have il: "i < length base_mounts" by simp
    have two: "ms_target (base_mounts ! i) = ''/dev'' \<longleftrightarrow> i = 2"
      using il by (auto simp: base_mounts_def less_Suc_eq nth_Cons' fsTmpfs_def)
    have "oks ! i \<longleftrightarrow> (ms_target (base_mounts ! i) = ''/dev'' \<longrightarrow> oks ! 2)"
      using two oks(3) il by auto
    with i il oks(1) show "zip (map spec_event base_mounts) oks ! i =
        map (\<lambda>s. (spec_event s, ms_target s = ''/dev'' \<longrightarrow> oks ! 2)) base_mounts ! i" by simp
  qed (simp add: oks(1))
  with oks(2) show ?thesis by auto
qed

lemma base_mounts_in_order_example:
  "\<exists>dev. filter is_mount (log (snd (mountBase \<lparr>fs = Map.empty, hist = [], log = [], faults = [], umask = 0\<rparr>))) =
     map (\<lambda>s. (spec_event s, ms_target s = ''/dev'' \<longrightarrow> dev)) base_mounts"
proof -
  let ?run = "mountBase (\<lparr>fs = Map.empty, hist = [], log = [], faults = [], umask = 0\<rparr> :: world)"
  have "is_ok (fst ?run)" by code_simp
  then obtain u where "?run = (Inr u, snd ?run)" unfolding is_ok_iff by (metis prod.collapse)
  from base_mounts_in_order [OF this] show ?thesis by simp
qed

section \<open>What the host declares\<close>

lemma cmdlineHas_false:
  assumes "fs w ''/proc/cmdline'' = Some (NFile data m)" and "token \<notin> set (Fields data)"
  shows "\<exists>w'. cmdlineHas token w = (Inr False, w')"
proof -
  obtain r w1 where rd: "os_ReadFile ''/proc/cmdline'' w = (r, w1)" by (cases "os_ReadFile ''/proc/cmdline'' w")
  show ?thesis
  proof (cases r)
    case (Inl e)
    with rd show ?thesis by (simp add: cmdlineHas_def catchE_def ret_def)
  next
    case (Inr d)
    with ReadFile_ok rd assms(1) have "d = data" by fastforce
    with rd Inr assms(2) show ?thesis by (simp add: cmdlineHas_def catchE_def ret_def)
  qed
qed

lemma cmdlineHas_reads:
  assumes "fs w ''/proc/cmdline'' = Some (NFile data m)" and "faults w = []"
  shows "cmdlineHas token w = (Inr (token \<in> set (Fields data)), w)"
  using assms by (simp add: cmdlineHas_def catchE_def os_ReadFile_def fs_read_def next_fault_def ret_def)

text \<open>The setup steps before the network leave the kernel's command line as it is.\<close>

definition cmdline_is :: "string \<Rightarrow> fsys \<Rightarrow> bool" where
  "cmdline_is data f \<longleftrightarrow> (\<exists>m. f ''/proc/cmdline'' = Some (NFile data m))"

lemma blind_cmdline: "p \<noteq> ''/proc/cmdline'' \<Longrightarrow> blind (cmdline_is data) p"
  by (auto simp: blind_def cmdline_is_def)

lemma keeps_cmdline_MkdirAll:
  "''/proc/cmdline'' \<notin> set (ancestors p) \<Longrightarrow> keeps (disk_inv (cmdline_is data)) (os_MkdirAll p)"
  by (intro keeps_MkdirAll blind_cmdline) auto

lemma keeps_cmdline_setup:
  "keeps (disk_inv (cmdline_is data)) setupOverlayRoot"
  "keeps (disk_inv (cmdline_is data)) mountBase"
  "keeps (disk_inv (cmdline_is data)) mountShares"
proof -
  have anc: "list_all (\<lambda>p. ''/proc/cmdline'' \<notin> set (ancestors p)) (kernelShare # ''/opt/llvm'' # map ms_target base_mounts)"
    by code_simp
  show "keeps (disk_inv (cmdline_is data)) setupOverlayRoot"
    unfolding setupOverlayRoot_def Let_def mount_def
    by (intro keeps_tryE keeps_forE keeps_ignoreE keeps_ret keeps_sys_call keeps_Mkdir blind_cmdline)
      (auto simp: overlayMountpoint_def)
  have v: "keeps (disk_inv (cmdline_is data)) (mountVirtiofs tag target)"
    if "''/proc/cmdline'' \<notin> set (ancestors target)" for tag target
    unfolding mountVirtiofs_def mount_def
    by (intro keeps_tryE keeps_cmdline_MkdirAll that keeps_sys_call keeps_ret)
  have c: "keeps (disk_inv (cmdline_is data)) (cmdlineHas token)" for token
    unfolding cmdlineHas_def by (intro keeps_intro)
  show "keeps (disk_inv (cmdline_is data)) mountShares"
    unfolding mountShares_def
    by (intro keeps_tryE keeps_if keeps_ret v c) (use anc in auto)
  show "keeps (disk_inv (cmdline_is data)) mountBase"
    unfolding mountBase_def mount_spec_def mount_def
    by (intro keeps_forE keeps_tryE keeps_catchE keeps_if keeps_ret keeps_failE keeps_sys_call keeps_cmdline_MkdirAll)
      (use anc in \<open>auto simp: list_all_iff\<close>)
qed

lemma or_fail_cong_keeps:
  assumes "keeps I m" and "I w" and "\<And>x w'. I w' \<Longrightarrow> k1 x w' = k2 x w'"
  shows "or_fail f m k1 w = or_fail f m k2 w"
proof -
  obtain r w' where m: "m w = (r, w')" by (cases "m w")
  with keepsD [OF assms(1,2)] have "I w'" by simp
  with m assms(3) show ?thesis by (cases r) (simp_all add: or_fail_def)
qed

text \<open>
  A guest whose command line does not declare the network never touches it: its run is
  the same whatever the network libraries are, faults and all.
\<close>

lemma offline_run:
  fixes w :: "'z world_scheme" and nd1 :: "('z world_scheme, 'c) netdeps" and nd2 :: "('z world_scheme, 'd) netdeps"
  assumes "disk_inv (cmdline_is data) w" and "''ossein.net=1'' \<notin> set (Fields data)"
  shows "run nd1 bash w = run nd2 bash w"
proof -
  have c: "or_fail id (cmdlineHas ''ossein.net=1'') k1 v = or_fail id (cmdlineHas ''ossein.net=1'') k2 v"
    if I: "disk_inv (cmdline_is data) v" and k: "\<And>u. k1 False u = k2 False u"
    for v :: "'z world_scheme" and k1 k2 :: "bool \<Rightarrow> 'z outcome"
  proof -
    from I obtain m where "fs v ''/proc/cmdline'' = Some (NFile data m)"
      unfolding disk_inv_def cmdline_is_def by blast
    from cmdlineHas_false [OF this assms(2)] k show ?thesis by (auto simp: or_fail_def)
  qed
  show ?thesis
    unfolding run_def
    by (rule or_fail_cong_keeps [OF keeps_cmdline_setup(1) assms(1)],
      rule or_fail_cong_keeps [OF keeps_cmdline_setup(2)], assumption,
      rule or_fail_cong_keeps [OF keeps_cmdline_setup(3)], assumption, rule c, assumption) simp
qed

text \<open>A machine without the network: its libraries fail, and its run does not notice.\<close>

definition dead_net :: "(world, unit) netdeps" where
  "dead_net = no_net\<lparr>LinkList := failE (ErrNew ''no netlink'')\<rparr>"

end
