(* ===== verification/Guest_Invariant.thy ===== *)
theory Guest_Invariant
  imports Guest_Safety
begin

text \<open>
  Invariants of PID 1's run, as an interface: a property that the calls of the run keep is
  kept by the run. The network library and the build are parameters, so what they keep is a
  hypothesis.
\<close>

section \<open>The calls of a run\<close>

definition net_keeps :: "('z world_scheme \<Rightarrow> bool) \<Rightarrow> ('z world_scheme, 'c) netdeps \<Rightarrow> bool" where
  "net_keeps I nd \<longleftrightarrow>
     keeps I (LinkList nd) \<and> (\<forall>l. keeps I (LinkSetUp nd l)) \<and> (\<forall>n. keeps I (DhcpNew nd n)) \<and>
     (\<forall>c. keeps I (DhcpRequest nd c)) \<and> (\<forall>c. keeps I (DhcpClose nd c)) \<and>
     (\<forall>l a m. keeps I (AddrAdd nd l a m)) \<and> (\<forall>i g. keeps I (RouteAdd nd i g))"

definition bash_keeps :: "('z world_scheme \<Rightarrow> bool) \<Rightarrow> 'z bash \<Rightarrow> bool" where
  "bash_keeps I bash \<longleftrightarrow> (\<forall>env w. I w \<longrightarrow> I (snd (bash env w)))"

text \<open>The directories PID 1 makes outside the overlay's mount point.\<close>

definition guest_dirs :: "string list" where
  "guest_dirs = [''/etc'', kernelShare, ''/opt/llvm''] @ map ms_target base_mounts"

locale guest_invariant =
  fixes I :: "'z world_scheme \<Rightarrow> bool"
  assumes sys: "keeps I (sys_call ev)"
    and reads: "keeps I (os_ReadFile p)" "keeps I (os_OpenRead p)"
    and emits: "I w \<Longrightarrow> I (emit e w)"
    and overlay_dirs: "HasPrefix p ''/ram/'' \<Longrightarrow> keeps I (os_Mkdir p)"
    and dirs: "p \<in> set guest_dirs \<Longrightarrow> keeps I (os_MkdirAll p)"
    and resolv: "keeps I (os_WriteFile ''/etc/resolv.conf'' data fileMode)"
    and build_log: "keeps I (os_OpenTrunc buildLog fileMode)"
begin

lemma guest_dirs_known:
  "keeps I (os_MkdirAll ''/etc'')" "keeps I (os_MkdirAll kernelShare)" "keeps I (os_MkdirAll ''/opt/llvm'')"
  "s \<in> set base_mounts \<Longrightarrow> keeps I (os_MkdirAll (ms_target s))"
  by (rule dirs; simp add: guest_dirs_def)+

lemma overlay: "keeps I setupOverlayRoot"
  unfolding setupOverlayRoot_def Let_def mount_def
  by (intro keeps_tryE keeps_forE keeps_ignoreE keeps_ret sys overlay_dirs)
    (auto simp: overlayMountpoint_def)

lemma base: "keeps I mountBase"
  unfolding mountBase_def mount_spec_def mount_def
  by (intro keeps_forE keeps_tryE keeps_catchE keeps_if keeps_ret keeps_failE sys guest_dirs_known)

lemma declared: "keeps I (cmdlineHas token)"
  unfolding cmdlineHas_def by (intro keeps_catchE keeps_ret reads)

lemma shares: "keeps I mountShares"
  unfolding mountShares_def mountVirtiofs_def mount_def
  by (intro keeps_tryE keeps_if keeps_ret sys guest_dirs_known declared)

lemma resolv_conf: "keeps I (writeResolvConf servers)"
  unfolding writeResolvConf_def Let_def
  by (intro keeps_if keeps_tryE keeps_ret guest_dirs_known resolv)

lemma network:
  assumes "net_keeps I nd"
  shows "keeps I (bringUpNetwork nd)"
proof -
  have "keeps I (findEthernet nd)"
    using assms unfolding findEthernet_def net_keeps_def
    by (auto intro!: keeps_tryE keeps_failE keeps_ret split: option.split)
  moreover have "keeps I (AddrAdd nd l a m)" "keeps I (RouteAdd nd i a)" for l a m i
    using assms by (simp_all add: net_keeps_def del: split_paired_All)
  moreover have "keeps I (LinkSetUp nd l)" "keeps I (DhcpNew nd n)" "keeps I (DhcpRequest nd c)"
      "keeps I (DhcpClose nd c)" for l n c
    using assms by (simp_all add: net_keeps_def)
  ultimately show ?thesis unfolding bringUpNetwork_def Let_def
    by (intro keeps_tryE keeps_deferE resolv_conf)
      (auto intro!: keeps_tryE keeps_ret resolv_conf split: list.split)
qed

lemma env_file: "keeps I (readEnvFile p)"
proof -
  have "keeps I (case scan_lines s of (ls, Some e) \<Rightarrow> failE (g e) | (ls, None) \<Rightarrow> ret (h ls))"
    for s and g :: "goerr \<Rightarrow> goerr" and h :: "string list \<Rightarrow> string list"
    by (cases "scan_lines s"; cases "snd (scan_lines s)") (simp_all add: keeps_ret keeps_failE)
  then have "keeps I (case e of Some x \<Rightarrow> failE (f x)
      | None \<Rightarrow> (case scan_lines s of (ls, Some e) \<Rightarrow> failE (g e) | (ls, None) \<Rightarrow> ret (h ls)))"
    for e :: "goerr option" and f s and g :: "goerr \<Rightarrow> goerr" and h :: "string list \<Rightarrow> string list"
    by (cases e) (simp_all add: keeps_failE)
  then show ?thesis unfolding readEnvFile_def
    by (intro keeps_catchE keeps_if keeps_ret keeps_failE reads)
qed

lemma or_fail_keeps:
  assumes "keeps I m" and "I w" and "\<And>x w. I w \<Longrightarrow> I (snd (k x w))"
  shows "I (snd (or_fail f m k w))"
  using keepsD [OF assms(1,2)] assms(3) by (auto simp: or_fail_def split: prod.splits sum.splits)

lemma build:
  assumes "bash_keeps I bash" and "I w"
  shows "I (snd (runBuild bash w))"
proof -
  have rb: "I (snd (run_bash bash env w))" if "I w" for env w
  proof -
    obtain res w1 where r: "bash env (emit (EvExec buildScript env, True) w) = (res, w1)"
      by (metis prod.collapse)
    have "I (snd (bash env (emit (EvExec buildScript env, True) w)))"
      using assms(1) emits [OF that] unfolding bash_keeps_def by simp
    with r show ?thesis by (simp add: run_bash_def split: bash_result.split)
  qed
  have sync: "keeps I (ignoreE (os_Sync buildLog) (os_Close buildLog))"
    unfolding os_Sync_def os_Close_def by (intro keeps_ignoreE sys)
  have "I (snd (case run_bash bash env w of (r, w) \<Rightarrow>
       (r, snd (ignoreE (os_Sync buildLog) (os_Close buildLog) w))))" if "I w" for env w
    using keepsD [OF sync rb [OF that]] by (simp add: case_prod_beta)
  then show ?thesis unfolding runBuild_def
    by (intro or_fail_keeps env_file build_log assms(2))
qed

lemma run_keeps:
  assumes "net_keeps I nd" and "bash_keeps I bash" and "I w"
  shows "I (snd (Guest_Init.run nd bash w))"
proof -
  have "I (snd (case runBuild bash w of ((code, err), w) \<Rightarrow>
       ((code, map_option (wrap ''build: '') err), w)))" if "I w" for w
    using build [OF assms(2) that] by (auto split: prod.split)
  then show ?thesis unfolding run_def
    by (intro or_fail_keeps overlay base shares declared keeps_if network [OF assms(1)] keeps_ret assms(3))
qed

end

end
