(* ===== verification/Guest_Tree.thy ===== *)
theory Guest_Tree
  imports Guest_Invariant
begin

text \<open>
  The file system of the guest as a typed tree: whatever exists has a directory as its
  parent. Every call PID 1 makes keeps it so, whether it succeeds or fails in the middle.
\<close>

section \<open>Trees\<close>

definition tree :: "fsys \<Rightarrow> bool" where
  "tree f \<longleftrightarrow> (\<forall>p. f p \<noteq> None \<longrightarrow> parent_ok f p)"

lemma treeD: "tree f \<Longrightarrow> f p \<noteq> None \<Longrightarrow> parent_ok f p"
  by (simp add: tree_def)

text \<open>Adding a directory, or a file where no directory is, under a parent.\<close>

lemma tree_add:
  assumes "tree f" and "parent_ok f p" and "n = NDir \<or> f p \<noteq> Some NDir"
  shows "tree (f(p \<mapsto> n))"
  unfolding tree_def
proof (intro allI impI)
  fix q
  assume "(f(p \<mapsto> n)) q \<noteq> None"
  then have "parent_ok f q" using assms(1,2) by (cases "q = p") (auto simp: tree_def)
  with assms(3) show "parent_ok (f(p \<mapsto> n)) q" by (auto simp: parent_ok_def)
qed

lemma keeps_tree_Mkdir: "keeps (disk_inv tree) (os_Mkdir p)"
  unfolding os_Mkdir_def
  by (intro keeps_fs_call) (auto intro!: tree_add split: if_splits)

lemma keeps_tree_OpenTrunc: "keeps (disk_inv tree) (os_OpenTrunc p mode)"
proof (rule keepsI)
  fix w :: "'z world_scheme"
  assume w: "disk_inv tree w"
  have k: "keeps (disk_inv tree)
      (fs_call (EvCreate p)
        (\<lambda>f. case f p of None \<Rightarrow> if parent_ok f p then None else Some ENOENT | Some (NFile b m) \<Rightarrow> None | Some _ \<Rightarrow> Some EINVAL)
        (\<lambda>f. f(p \<mapsto> NFile [] (m f))) (\<lambda>n ps f. f))" for m
    by (intro keeps_fs_call)
      (auto intro!: tree_add dest: treeD [of _ p] split: option.splits node.splits if_splits)
  show "disk_inv tree (snd (os_OpenTrunc p mode w))"
    unfolding os_OpenTrunc_def by (rule keepsD [OF k w])
qed

lemma tree_append: "tree f \<Longrightarrow> tree (append_file p b f)"
  using treeD [of f p] by (auto simp: append_file_def intro!: tree_add split: option.split node.split)

lemma keeps_tree_Write: "keeps (disk_inv tree) (os_Write p b)"
  unfolding os_Write_def by (intro keeps_fs_call) (auto intro: tree_append)

text \<open>\<^verbatim>\<open>os.MkdirAll\<close> of a path whose ancestors are listed parents first.\<close>

fun chain :: "string set \<Rightarrow> string list \<Rightarrow> bool" where
  "chain S [] = True"
| "chain S (a # as) = ((PathDir a = ''.'' \<or> PathDir a = ''/'' \<or> PathDir a \<in> S) \<and> chain (insert a S) as)"

lemma tree_dirs:
  "chain S as \<Longrightarrow> tree f \<Longrightarrow> \<forall>a \<in> S. f a = Some NDir \<Longrightarrow> \<forall>a \<in> set as. f a = None \<or> f a = Some NDir \<Longrightarrow>
     tree (fold (\<lambda>a f. f(a \<mapsto> NDir)) as f)"
proof (induction as arbitrary: S f)
  case (Cons a as)
  have "tree (f(a \<mapsto> NDir))"
    using Cons.prems by (intro tree_add) (auto simp: parent_ok_def)
  moreover have "chain (insert a S) as" "\<forall>b \<in> insert a S. (f(a \<mapsto> NDir)) b = Some NDir"
      "\<forall>b \<in> set as. (f(a \<mapsto> NDir)) b = None \<or> (f(a \<mapsto> NDir)) b = Some NDir"
    using Cons.prems by simp_all
  ultimately have "tree (fold (\<lambda>a f. f(a \<mapsto> NDir)) as (f(a \<mapsto> NDir)))" by (intro Cons.IH)
  then show ?case by (simp only: fold_Cons o_apply)
qed simp

lemma chain_prefix: "chain S (as @ bs) \<Longrightarrow> chain S as"
  by (induction as arbitrary: S) auto

lemma fold_dirs_missing:
  "\<forall>a \<in> set as. f a = None \<or> f a = Some NDir \<Longrightarrow>
     fold (\<lambda>a f. if f a = None then f(a \<mapsto> NDir) else f) as f = fold (\<lambda>a f. f(a \<mapsto> NDir)) as f"
proof (induction as arbitrary: f)
  case (Cons a as)
  then have "(if f a = None then f(a \<mapsto> NDir) else f) = f(a \<mapsto> NDir)" by (auto simp: fun_upd_idem)
  with Cons show ?case by simp
qed simp

lemma keeps_tree_MkdirAll:
  assumes "chain {} (ancestors p)"
  shows "keeps (disk_inv tree) (os_MkdirAll p)"
  unfolding os_MkdirAll_def
proof (rule keeps_fs_call)
  fix f :: fsys
  assume "tree f"
    and "(if list_all (\<lambda>a. f a = None \<or> f a = Some NDir) (ancestors p) then None else Some ENOTDIR) = None"
  then show "tree (fold (\<lambda>a f. f(a \<mapsto> NDir)) (ancestors p) f)"
    using assms by (intro tree_dirs) (auto simp: list_all_iff split: if_splits)
next
  fix f :: fsys and n and ps :: "string list"
  assume f: "tree f"
  let ?as = "takeWhile (\<lambda>a. f a = None \<or> f a = Some NDir) (take n (ancestors p))"
  have ok: "\<forall>a \<in> set ?as. f a = None \<or> f a = Some NDir" by (auto dest: set_takeWhileD)
  have "chain {} ?as"
    using assms chain_prefix takeWhile_dropWhile_id append_take_drop_id by metis
  with f ok show "tree (fold (\<lambda>a f. if f a = None then f(a \<mapsto> NDir) else f) ?as f)"
    by (simp add: fold_dirs_missing tree_dirs)
qed

section \<open>PID 1\<close>

lemmas keeps_tree = keeps_tree_Mkdir keeps_tree_OpenTrunc keeps_tree_Write

lemma guest_dirs_chain: "list_all (\<lambda>p. chain {} (ancestors p)) guest_dirs"
  by code_simp

interpretation tree_kept: guest_invariant "disk_inv tree"
proof unfold_locales
  show "p \<in> set guest_dirs \<Longrightarrow> keeps (disk_inv tree) (os_MkdirAll p)" for p
    using guest_dirs_chain by (intro keeps_tree_MkdirAll) (auto simp: list_all_iff)
  show "keeps (disk_inv tree) (os_WriteFile ''/etc/resolv.conf'' data fileMode)" for data
    unfolding os_WriteFile_def by (intro keeps_intro keeps_tree)
qed (simp_all add: keeps_intro keeps_tree)

lemma keeps_tree_writeStatus: "keeps (disk_inv tree) (writeStatus code)"
  unfolding writeStatus_def by (intro keeps_intro keeps_tree)



end
