(* ===== verification/Os_Staged.thy ===== *)
theory Os_Staged
  imports Os_World
begin

text \<open>
  The contract of a staged write. Every cacheable artifact is produced under a temporary
  name and renamed into place only on success. \<open>produce\<close> is the producer: it touches no
  path but the temporary one, and when it succeeds what it left there is good. Whatever
  fails, and whenever the process is killed, the destination then holds what it held before
  or something good.
\<close>

definition old_or_good :: "string \<Rightarrow> node option \<Rightarrow> (node \<Rightarrow> bool) \<Rightarrow> fsys \<Rightarrow> bool" where
  "old_or_good dest old good f \<longleftrightarrow> f dest = old \<or> (\<exists>n. f dest = Some n \<and> good n)"

lemma blind_old_or_good: "p \<noteq> dest \<Longrightarrow> blind (old_or_good dest old good) p"
  by (simp add: blind_def old_or_good_def)

text \<open>What a successful rename does, and what any rename can do to another property.\<close>

lemma Rename_ok:
  "os_Rename p q w = (Inr u, w') \<Longrightarrow> p \<noteq> q \<Longrightarrow>
     fs w p \<noteq> None \<and> fs w' = (fs w)(q := fs w p, p := None) \<and> hist w' = hist w @ [fs w']"
  by (auto simp: os_Rename_def fs_call_def set_fs_def emit_def split: prod.splits fault.splits if_splits
      dest!: next_fault_fs)

lemma Rename_err:
  "os_Rename p q w = (Inl e, w') \<Longrightarrow> fs w' = fs w \<and> set (hist w') \<subseteq> insert (fs w) (set (hist w))"
  by (auto simp: os_Rename_def fs_call_def set_fs_def emit_def split: prod.splits fault.splits if_splits
      dest!: next_fault_fs)

locale staged =
  fixes produce :: "('a, 'z) io"
    and tmp dest :: string
    and good :: "node \<Rightarrow> bool"
  assumes distinct_paths: "tmp \<noteq> dest"
    and produce_frame: "blind R tmp \<Longrightarrow> keeps (disk_inv R) produce"
    and produce_good: "produce w = (Inr x, w') \<Longrightarrow> \<exists>n. fs w' tmp = Some n \<and> good n"
begin

lemma rename_safe:
  assumes "disk_inv (old_or_good dest old good) w" and "\<exists>n. fs w tmp = Some n \<and> good n"
    and "os_Rename tmp dest w = (r, w')"
  shows "disk_inv (old_or_good dest old good) w'"
proof (cases r)
  case (Inl e)
  then have "fs w' = fs w" "set (hist w') \<subseteq> insert (fs w) (set (hist w))"
    using Rename_err assms(3) by blast+
  with assms(1) show ?thesis by (auto simp: disk_inv_def)
next
  case (Inr u)
  then have w': "fs w' = (fs w)(dest := fs w tmp, tmp := None)" "hist w' = hist w @ [fs w']"
    using Rename_ok distinct_paths assms(3) by blast+
  then have "old_or_good dest old good (fs w')"
    using assms(2) distinct_paths by (simp add: old_or_good_def)
  with w' assms(1) show ?thesis by (auto simp: disk_inv_def)
qed

lemma install_safe:
  assumes "disk_inv (old_or_good dest old good) w"
  shows "disk_inv (old_or_good dest old good)
           (snd (tryE produce id (\<lambda>_. tryE (os_Rename tmp dest) f (\<lambda>_. ret ())) w))"
proof -
  obtain r w1 where p: "produce w = (r, w1)" by (cases "produce w")
  have "blind (old_or_good dest old good) tmp"
    using distinct_paths by (rule blind_old_or_good)
  then have w1: "disk_inv (old_or_good dest old good) w1"
    using keepsD [OF produce_frame assms] p by simp
  obtain q w2 where rn: "os_Rename tmp dest w1 = (q, w2)" by (cases "os_Rename tmp dest w1")
  show ?thesis
  proof (cases r)
    case (Inl e)
    with p w1 show ?thesis by (simp add: tryE_def catchE_def failE_def)
  next
    case (Inr x)
    then have "\<exists>n. fs w1 tmp = Some n \<and> good n" using p produce_good by blast
    then have "disk_inv (old_or_good dest old good) w2" using rename_safe w1 rn by blast
    with Inr p rn show ?thesis
      by (cases q) (simp_all add: tryE_def catchE_def failE_def ret_def)
  qed
qed

lemma install_ok:
  assumes "tryE produce id (\<lambda>_. tryE (os_Rename tmp dest) f (\<lambda>_. ret ())) w = (Inr u, w')"
  shows "\<exists>n. fs w' dest = Some n \<and> good n"
proof -
  from assms obtain x w1 v w2 where p: "produce w = (Inr x, w1)"
      and rn: "os_Rename tmp dest w1 = (Inr v, w2)" and "w' = w2"
    by (auto simp: tryE_Inr ret_eq)
  moreover obtain n where "fs w1 tmp = Some n" "good n" using produce_good [OF p] by blast
  ultimately show ?thesis using Rename_ok [OF rn distinct_paths] distinct_paths by simp
qed

end

end
