(* ===== verification/Host_Download.thy ===== *)
theory Host_Download
  imports Os_Staged Go_Strconv
begin

text \<open>
  \<^verbatim>\<open>cmd/ossein-kernel/main.go\<close>, the downloads: cache paths, checksums, the stall
  watchdog, the retry loop and \<^verbatim>\<open>fetchFile\<close>.

  The world of the host adds to the operating system a clock (in milliseconds), the moment
  the run's context is cancelled (if it is) and the replies the network will give. The HTTP
  client is a parameter in this sense: a reply is what one call of it comes to, and a body is
  what reading it comes to, each with its delay. A call of the client with no reply left
  fails. Where an arrival and a cancellation fall on the same millisecond the model lets the
  arrival win; between the watchdog and a cancelled context it lets the context win.

  The hash and the check \<^verbatim>\<open>http.NewRequest\<close> makes of a URL are parameters.
\<close>

section \<open>The host's world\<close>

datatype read_end = More | Eof | ReadErr goerr

text \<open>One read of a body: the delay, the bytes (possibly none), and how it ends.\<close>

type_synonym read_event = "nat \<times> string \<times> read_end"

datatype net_reply =
    DoErr nat goerr
  | Response nat nat string "read_event list"

record host = world +
  now :: nat
  cancel_at :: "nat option"
  net :: "net_reply list"

type_synonym ('a, 'z) hio = "('a, 'z host_scheme) prog"

definition ctxCanceled :: goerr where "ctxCanceled = ErrNew ''context canceled''"

text \<open>\<^verbatim>\<open>ctx.Err() != nil\<close>\<close>

definition ctx_done :: "'z host_scheme \<Rightarrow> bool" where
  "ctx_done w = (case cancel_at w of None \<Rightarrow> False | Some c \<Rightarrow> c \<le> now w)"

record fetch_deps =
  NewRequest :: "string \<Rightarrow> unit result"
  sha256_hex :: "string \<Rightarrow> string"

section \<open>Paths\<close>

definition buildDir :: "string \<Rightarrow> string" where
  "buildDir limen_build = (if limen_build \<noteq> [] then limen_build else ''.build'')"

definition scratchDir :: "string \<Rightarrow> string" where
  "scratchDir limen_build = PathJoin (buildDir limen_build) ''kernel-scratch''"

definition partialSuffix :: string where "partialSuffix = ''.part''"
definition cacheKeyLen :: nat where "cacheKeyLen = 12"

definition cachePath :: "string \<Rightarrow> string \<Rightarrow> string" where
  "cachePath base wantSHA =
     (if length wantSHA < cacheKeyLen then base
      else case PathSplit base of (dir, name) \<Rightarrow>
        (case Cut name ''.'' of (stem, ext, _) \<Rightarrow>
           PathJoin dir (stem @ ''-'' @ take cacheKeyLen wantSHA @ ''.'' @ ext)))"

section \<open>Checksums and the cache\<close>

definition errSHAMismatch :: goerr where "errSHAMismatch = ErrNew ''sha256 mismatch''"

definition verifySHA :: "fetch_deps \<Rightarrow> string \<Rightarrow> string \<Rightarrow> (unit, 'z) io" where
  "verifySHA d file want =
     tryE (os_OpenRead file) (wrap (''open '' @ file @ '': '')) (\<lambda>handle.
     case snd handle of
       Some e \<Rightarrow> failE (wrap (''hash '' @ file @ '': '') e)
     | None \<Rightarrow>
         (let got = sha256_hex d (concat (fst handle))
          in if \<not> EqualFold got want
             then failE (Errorf ('': got '' @ got @ '' want '' @ want) [errSHAMismatch])
             else ret ()))"

definition cachedArtifactOK :: "fetch_deps \<Rightarrow> string \<Rightarrow> string \<Rightarrow> (bool, 'z) io" where
  "cachedArtifactOK d dest wantSHA =
     catchE (os_Stat dest) (\<lambda>_. ret False) (\<lambda>fi.
     if node_size fi = 0 then ret False
     else if wantSHA = [] then ret True
     else catchE (verifySHA d dest wantSHA) (\<lambda>_. ret False) (\<lambda>_. ret True))"

section \<open>One attempt\<close>

definition downloadAttempts :: nat where "downloadAttempts = 3"
definition downloadRetryWait :: nat where "downloadRetryWait = 3000"
definition downloadIdleTimeout :: nat where "downloadIdleTimeout = 60000"

definition errDownloadHTTP :: goerr where "errDownloadHTTP = ErrNew ''download failed''"

definition errDownloadStall :: goerr where
  "errDownloadStall = ErrNew ''download stalled (no data within idle window)''"

text \<open>
  When the request's context ends if nothing else happens, and whether the watchdog is what
  ends it: \<open>deadline\<close> is when the timer of the stall reader will fire.
\<close>

definition ctx_end :: "nat \<Rightarrow> 'z host_scheme \<Rightarrow> nat \<times> bool" where
  "ctx_end deadline w =
     (case cancel_at w of None \<Rightarrow> (deadline, True)
      | Some c \<Rightarrow> if deadline < c then (deadline, True) else (c, False))"

datatype read_result = Got string read_end | Interrupted bool

text \<open>
  \<^verbatim>\<open>stallReader.Read\<close>: the read returns what arrives, or an error once the context
  has ended; the timer is reset when bytes arrived. It returns the result, the new deadline
  and the reads left.
\<close>

definition stall_Read ::
    "nat \<Rightarrow> nat \<Rightarrow> read_event list \<Rightarrow> 'z host_scheme \<Rightarrow> (read_result \<times> nat \<times> read_event list) \<times> 'z host_scheme" where
  "stall_Read idle deadline evs w =
     (let (t_end, stalled) = ctx_end deadline w;
          interrupted = ((Interrupted stalled, deadline, []), w\<lparr>now := max (now w) t_end\<rparr>)
      in case evs of
           [] \<Rightarrow> interrupted
         | (d, b, e) # rest \<Rightarrow>
             if now w + d \<le> t_end
             then ((Got b e, if length b > 0 then now w + d + idle else deadline, rest), w\<lparr>now := now w + d\<rparr>)
             else interrupted)"

lemma stall_Read_shorter:
  "stall_Read idle deadline src w = ((Got b e, deadline', src'), w') \<Longrightarrow> length src' < length src"
  by (auto simp: stall_Read_def Let_def split: prod.splits list.splits if_splits)

text \<open>
  The copy loop; it returns the bytes written, the error and whether the watchdog caused it.
  The progress lines it logs are left out. Every read uses up an event of the body, and a
  body that has none left ends at the watchdog, so the loop terminates.
\<close>

function copyWithProgress ::
    "nat \<Rightarrow> string \<Rightarrow> nat \<Rightarrow> read_event list \<Rightarrow> nat \<Rightarrow> 'z host_scheme
       \<Rightarrow> (nat \<times> goerr option \<times> bool) \<times> 'z host_scheme" where
  "copyWithProgress idle dst deadline src written w =
     (case stall_Read idle deadline src w of
        ((Interrupted stalled, _, _), w) \<Rightarrow>
          ((written, Some (wrap ''read download: '' ctxCanceled), stalled), w)
      | ((Got b e, deadline, src), w) \<Rightarrow>
          (case (if length b > 0 then os_Write dst b w else (Inr (), w)) of
             (Inl we, w) \<Rightarrow> ((written, Some (wrap ''write download: '' we), False), w)
           | (Inr _, w) \<Rightarrow>
               (let written = written + length b
                in case e of
                     Eof \<Rightarrow> ((written, None, False), w)
                   | ReadErr re \<Rightarrow> ((written, Some (wrap ''read download: '' re), False), w)
                   | More \<Rightarrow> copyWithProgress idle dst deadline src written w)))"
  by pat_completeness auto
termination
  by (relation "measure (\<lambda>(idle, dst, deadline, src, written, w). length src)")
    (auto dest: stall_Read_shorter [OF sym])

declare copyWithProgress.simps [simp del]

definition client_Do :: "string \<Rightarrow> (nat \<times> string \<times> read_event list, 'z) hio" where
  "client_Do url w =
     (case net w of
        [] \<Rightarrow> (Inl (ErrNew ''no reply''), emit (EvNet url, False) w)
      | reply # rest \<Rightarrow>
          (let w = w\<lparr>net := rest\<rparr>;
               d = (case reply of DoErr d _ \<Rightarrow> d | Response d _ _ _ \<Rightarrow> d);
               cut_short = (case cancel_at w of None \<Rightarrow> False | Some c \<Rightarrow> c < now w + d)
           in if cut_short
              then (Inl ctxCanceled,
                    emit (EvNet url, False) (w\<lparr>now := max (now w) (the (cancel_at w))\<rparr>))
              else case reply of
                     DoErr d e \<Rightarrow> (Inl e, emit (EvNet url, False) (w\<lparr>now := now w + d\<rparr>))
                   | Response d code status body \<Rightarrow>
                       (Inr (code, status, body), emit (EvNet url, True) (w\<lparr>now := now w + d\<rparr>))))"

definition copy_body :: "string \<Rightarrow> read_event list \<Rightarrow> string \<Rightarrow> (nat, 'z) hio" where
  "copy_body tmp body label w =
     (case copyWithProgress downloadIdleTimeout tmp (now w + downloadIdleTimeout) body 0 w of
        ((written, err, stalled), w) \<Rightarrow>
        (case os_Close tmp w of (closed, w) \<Rightarrow>
           (let err = (case closed of
                         Inl ce \<Rightarrow> (if err = None then Some (wrap (''close temp file '' @ tmp @ '': '') ce) else err)
                       | Inr _ \<Rightarrow> err)
            in case err of
                 None \<Rightarrow> (Inr written, w)
               | Some e \<Rightarrow>
                   if stalled then (Inl (wrap (''download '' @ label @ '': '') errDownloadStall), w)
                   else (Inl e, w))))"

definition downloadAttempt :: "fetch_deps \<Rightarrow> string \<Rightarrow> string \<Rightarrow> string \<Rightarrow> (nat, 'z) hio" where
  "downloadAttempt d url tmp label =
     (case NewRequest d url of
        Inl e \<Rightarrow> failE (wrap (''build request for '' @ label @ '': '') e)
      | Inr _ \<Rightarrow>
          tryE (client_Do url) (wrap (''download '' @ label @ '': '')) (\<lambda>(code, status, body).
          if code \<noteq> 200 then failE (Errorf ('': '' @ label @ '' HTTP '' @ status) [errDownloadHTTP])
          else
            tryE (os_Create tmp) (wrap (''create temp file '' @ tmp @ '': '')) (\<lambda>_.
            copy_body tmp body label)))"

section \<open>Retries and fetchFile\<close>

text \<open>The wait between attempts: true when it ran its course, false when the context ended it.\<close>

definition retry_wait :: "'z host_scheme \<Rightarrow> bool \<times> 'z host_scheme" where
  "retry_wait w =
     (case cancel_at w of
        Some c \<Rightarrow> if c \<le> now w + downloadRetryWait then (False, w\<lparr>now := max (now w) c\<rparr>)
                  else (True, w\<lparr>now := now w + downloadRetryWait\<rparr>)
      | None \<Rightarrow> (True, w\<lparr>now := now w + downloadRetryWait\<rparr>))"

definition interrupted_err :: "string \<Rightarrow> goerr" where
  "interrupted_err label = wrap (''download '' @ label @ '' interrupted: '') ctxCanceled"

text \<open>The loop: how many attempts are left, and the error of the last one (none at first).\<close>

fun download_loop ::
    "fetch_deps \<Rightarrow> string \<Rightarrow> string \<Rightarrow> string \<Rightarrow> nat \<Rightarrow> goerr option \<Rightarrow> (nat, 'z) hio" where
  "download_loop d url tmp label 0 err w =
     (case err of None \<Rightarrow> (Inr 0, w) | Some e \<Rightarrow> (Inl e, w))"
| "download_loop d url tmp label (Suc n) err w =
     (case (if err = None then (True, w) else retry_wait w) of (goes_on, w) \<Rightarrow>
        if \<not> goes_on then (Inl (interrupted_err label), w)
        else
          (case downloadAttempt d url tmp label w of
             (Inr written, w) \<Rightarrow> (Inr written, w)
           | (Inl e, w) \<Rightarrow>
               if ctx_done w then (Inl (interrupted_err label), w)
               else download_loop d url tmp label n (Some e) w))"

definition downloadWithRetries :: "fetch_deps \<Rightarrow> string \<Rightarrow> string \<Rightarrow> string \<Rightarrow> (nat, 'z) hio" where
  "downloadWithRetries d url tmp label = download_loop d url tmp label downloadAttempts None"

definition fetchFile :: "fetch_deps \<Rightarrow> string \<Rightarrow> string \<Rightarrow> string \<Rightarrow> string \<Rightarrow> (unit, 'z) hio" where
  "fetchFile d url dest wantSHA label =
     tryE (cachedArtifactOK d dest wantSHA) id (\<lambda>cached.
     if cached then ret ()
     else
       tryE (os_MkdirAll (PathDir dest)) (wrap (''create dest dir for '' @ label @ '': '')) (\<lambda>_.
       let tmp = dest @ partialSuffix
       in tryE (downloadWithRetries d url tmp label) id (\<lambda>written.
          tryE (if wantSHA \<noteq> [] then verifySHA d tmp wantSHA else ret ()) id (\<lambda>_.
          tryE (os_Rename tmp dest) (wrap (''rename '' @ tmp @ '' to '' @ dest @ '': '')) (\<lambda>_.
          ret ())))))"

section \<open>Frames\<close>

lemma disk_inv_host [simp]:
  "disk_inv R (w\<lparr>now := t\<rparr>) = disk_inv R w" "disk_inv R (w\<lparr>net := r\<rparr>) = disk_inv R w"
  by (simp_all add: disk_inv_def)

lemma host_fields [simp]:
  "fs (w\<lparr>now := t\<rparr>) = fs w" "fs (w\<lparr>net := r\<rparr>) = fs w" "fs (emit e w) = fs w"
  "hist (emit e w) = hist w" "cancel_at (emit e w) = cancel_at w"
  by (simp_all add: emit_def)

lemma stall_Read_world: "stall_Read idle deadline src w = (r, w') \<Longrightarrow> \<exists>t. w' = w\<lparr>now := t\<rparr>"
  by (auto simp: stall_Read_def Let_def split: prod.splits list.splits if_splits)

lemma keeps_verifySHA [keeps_intro]: "keeps (disk_inv R) (verifySHA d file want)"
  unfolding verifySHA_def by (intro keeps_intro) (auto intro!: keeps_intro simp: Let_def split: option.split)

lemma keeps_cachedArtifactOK [keeps_intro]: "keeps (disk_inv R) (cachedArtifactOK d dest want)"
  unfolding cachedArtifactOK_def by (intro keeps_intro)

text \<open>One step of the copy loop.\<close>

lemma copy_interrupted:
  "stall_Read idle deadline src w = ((Interrupted st, dl, src'), w1) \<Longrightarrow>
     copyWithProgress idle dst deadline src written w =
       ((written, Some (wrap ''read download: '' ctxCanceled), st), w1)"
  by (simp add: copyWithProgress.simps [of idle dst deadline src])

lemma copy_got:
  "stall_Read idle deadline src w = ((Got b e, dl, src'), w1) \<Longrightarrow>
   (if length b > 0 then os_Write dst b w1 else (Inr (), w1)) = (q, w2) \<Longrightarrow>
     copyWithProgress idle dst deadline src written w =
       (case q of
          Inl we \<Rightarrow> ((written, Some (wrap ''write download: '' we), False), w2)
        | Inr _ \<Rightarrow>
            (case e of
               Eof \<Rightarrow> ((written + length b, None, False), w2)
             | ReadErr re \<Rightarrow> ((written + length b, Some (wrap ''read download: '' re), False), w2)
             | More \<Rightarrow> copyWithProgress idle dst dl src' (written + length b) w2))"
  by (cases q) (simp_all add: copyWithProgress.simps [of idle dst deadline src] Let_def)

text \<open>What the reads of a body up to its end make up, if the body has an end.\<close>

fun body_data :: "read_event list \<Rightarrow> string option" where
  "body_data [] = None"
| "body_data ((d, b, More) # evs) = map_option (\<lambda>s. b @ s) (body_data evs)"
| "body_data ((d, b, Eof) # evs) = Some b"
| "body_data ((d, b, ReadErr e) # evs) = None"

lemma stall_Read_Got:
  "stall_Read idle deadline src w = ((Got b e, dl, src'), w1) \<Longrightarrow>
     \<exists>d. src = (d, b, e) # src' \<and> w1 = w\<lparr>now := now w + d\<rparr>"
  by (auto simp: stall_Read_def Let_def split: prod.splits list.splits if_splits)

lemma write_chunk_keeps:
  assumes "blind R dst" and "disk_inv R w1"
    and "(if length b > 0 then os_Write dst b w1 else (Inr (), w1)) = (q, w2)"
  shows "disk_inv R w2"
  using assms keepsD [OF keeps_Write [OF assms(1)] assms(2), of b] by (auto split: if_splits)

lemma write_chunk_ok:
  assumes "fs w1 dst = Some (NFile c m)"
    and "(if length b > 0 then os_Write dst b w1 else (Inr (), w1)) = (Inr u, w2)"
  shows "fs w2 dst = Some (NFile (c @ b) m)"
  using assms by (auto simp: append_file_def split: if_splits dest!: Write_ok)

lemma copy_keeps:
  assumes "blind R dst"
  shows "disk_inv R w \<Longrightarrow> disk_inv R (snd (copyWithProgress idle dst deadline src written w))"
proof (induction src arbitrary: deadline written w)
  case (Cons ev src)
  obtain rr dl src' w1 where sr: "stall_Read idle deadline (ev # src) w = ((rr, dl, src'), w1)"
    by (metis prod.collapse)
  have w1: "disk_inv R w1" using stall_Read_world [OF sr] Cons.prems by auto
  show ?case
  proof (cases rr)
    case (Interrupted st)
    with sr w1 show ?thesis by (simp add: copy_interrupted)
  next
    case (Got b e)
    obtain q w2 where q: "(if length b > 0 then os_Write dst b w1 else (Inr (), w1)) = (q, w2)"
      by (metis prod.collapse)
    have w2: "disk_inv R w2" by (rule write_chunk_keeps [OF assms w1 q])
    have "src' = src" using stall_Read_Got sr Got by blast
    with w2 Cons.IH show ?thesis
      by (simp add: copy_got [OF sr [unfolded Got] q] split: sum.split read_end.split)
  qed
next
  case Nil
  then show ?case
    by (auto simp: copyWithProgress.simps stall_Read_def Let_def split: prod.split)
qed

lemma copy_ok:
  "fs w dst = Some (NFile c m) \<Longrightarrow>
   copyWithProgress idle dst deadline src written w = ((n, None, st), w') \<Longrightarrow>
     \<exists>data. body_data src = Some data \<and> fs w' dst = Some (NFile (c @ data) m) \<and> n = written + length data"
proof (induction src arbitrary: deadline written w c)
  case (Cons ev src)
  obtain rr dl src' w1 where sr: "stall_Read idle deadline (ev # src) w = ((rr, dl, src'), w1)"
    by (metis prod.collapse)
  obtain b e where rr: "rr = Got b e"
    using Cons.prems(2) sr by (cases rr) (auto simp: copy_interrupted)
  obtain d where ev: "ev = (d, b, e)" "src' = src" and w1: "w1 = w\<lparr>now := now w + d\<rparr>"
    using stall_Read_Got [OF sr [unfolded rr]] by blast
  obtain q w2 where q: "(if length b > 0 then os_Write dst b w1 else (Inr (), w1)) = (q, w2)"
    by (metis prod.collapse)
  obtain u where u: "q = Inr u"
    using Cons.prems(2) copy_got [OF sr [unfolded rr] q] by (cases q) auto
  have c: "fs w2 dst = Some (NFile (c @ b) m)"
    by (rule write_chunk_ok [OF _ q [unfolded u]]) (use Cons.prems(1) w1 in simp)
  show ?case
  proof (cases e)
    case More
    then have "copyWithProgress idle dst dl src (written + length b) w2 = ((n, None, st), w')"
      using Cons.prems(2) copy_got [OF sr [unfolded rr] q] u ev by simp
    from Cons.IH [OF c this] show ?thesis using ev More by auto
  next
    case Eof
    then show ?thesis using Cons.prems(2) copy_got [OF sr [unfolded rr] q] u ev c by auto
  next
    case (ReadErr re)
    then show ?thesis using Cons.prems(2) copy_got [OF sr [unfolded rr] q] u by auto
  qed
next
  case Nil
  then show ?case
    by (auto simp: copyWithProgress.simps stall_Read_def Let_def split: prod.splits)
qed

lemma keeps_copy_body [keeps_intro]:
  assumes "blind R tmp"
  shows "keeps (disk_inv R) (copy_body tmp body label :: (nat, 'z) hio)"
proof (rule keepsI)
  fix w :: "'z host_scheme"
  assume w: "disk_inv R w"
  obtain n err st w1 where c:
    "copyWithProgress downloadIdleTimeout tmp (now w + downloadIdleTimeout) body 0 w = ((n, err, st), w1)"
    by (metis prod.collapse)
  obtain r w2 where cl: "os_Close tmp w1 = (r, w2)" by (cases "os_Close tmp w1")
  have "disk_inv R w1" using copy_keeps [OF assms w] c by (metis snd_conv)
  then have "disk_inv R w2" using Close_fs [OF cl] by (simp add: disk_inv_def)
  then show "disk_inv R (snd (copy_body tmp body label w))"
    by (simp add: copy_body_def c cl Let_def split: sum.split option.split)
qed

lemma keeps_client_Do [keeps_intro]: "keeps (disk_inv R) (client_Do url)"
  by (rule keepsI) (auto simp: client_Do_def Let_def split: list.split net_reply.split)

lemma keeps_downloadAttempt [keeps_intro]:
  "blind R tmp \<Longrightarrow> keeps (disk_inv R) (downloadAttempt d url tmp label)"
  unfolding downloadAttempt_def
  by (auto split: sum.split prod.split intro!: keeps_intro)

lemma retry_wait_world: "retry_wait w = (b, w') \<Longrightarrow> \<exists>t. w' = w\<lparr>now := t\<rparr>"
  by (auto simp: retry_wait_def split: option.splits if_splits)

lemma keeps_download_loop:
  assumes "blind R tmp"
  shows "disk_inv R w \<Longrightarrow> disk_inv R (snd (download_loop d url tmp label n err w))"
proof (induction n arbitrary: err w)
  case 0
  then show ?case by (simp split: option.split)
next
  case (Suc n)
  obtain g w1 where g: "(if err = None then (True, w) else retry_wait w) = (g, w1)"
    by (metis prod.collapse)
  have w1: "disk_inv R w1" using g Suc.prems retry_wait_world [of w g w1] by (auto split: if_splits)
  obtain r w2 where r: "downloadAttempt d url tmp label w1 = (r, w2)"
    by (cases "downloadAttempt d url tmp label w1")
  have "disk_inv R w2" using keepsD [OF keeps_downloadAttempt [OF assms] w1] r by (metis snd_conv)
  then show ?case using w1 g r Suc.IH by (simp split: sum.split)
qed

lemma keeps_downloadWithRetries [keeps_intro]:
  "blind R tmp \<Longrightarrow> keeps (disk_inv R) (downloadWithRetries d url tmp label)"
  unfolding downloadWithRetries_def by (rule keepsI) (rule keeps_download_loop)

end
