(* ===== verification/Host_Fetch.thy ===== *)
theory Host_Fetch
  imports Host_Download
begin

text \<open>
  What \<^verbatim>\<open>fetchFile\<close> guarantees. The download and its verification are a staged
  producer, so the contract of \<open>Os_Staged\<close> gives the destination's safety at every
  moment of the run; the retry loop is bounded and the watchdog fires exactly on a gap.
\<close>

section \<open>Successful steps\<close>

lemma verifySHA_ok:
  assumes "verifySHA d file want w = (Inr u, w')"
  shows "fs w' = fs w \<and> hist w' = hist w \<and>
     (\<exists>b m. fs w file = Some (NFile b m) \<and> EqualFold (sha256_hex d b) want)"
proof -
  from assms obtain h w1 where h: "os_OpenRead file w = (Inr h, w1)"
    and r: "(case snd h of
       Some e \<Rightarrow> failE (wrap (''hash '' @ file @ '': '') e)
     | None \<Rightarrow>
         (let got = sha256_hex d (concat (fst h))
          in if \<not> EqualFold got want
             then failE (Errorf ('': got '' @ got @ '' want '' @ want) [errSHAMismatch])
             else ret ())) w1 = (Inr u, w')"
    unfolding verifySHA_def tryE_Inr by blast
  have "snd h = None" "EqualFold (sha256_hex d (concat (fst h))) want" "w' = w1"
    using r by (auto simp: failE_eq ret_eq Let_def split: option.splits if_splits)
  with OpenRead_ok [OF h] show ?thesis by auto
qed

text \<open>An attempt that succeeds leaves the body of a 200 reply in the file.\<close>

definition served :: "net_reply list \<Rightarrow> string \<Rightarrow> bool" where
  "served replies b \<longleftrightarrow> (\<exists>dl status body. Response dl 200 status body \<in> set replies \<and> body_data body = Some b)"

lemma client_Do_ok:
  "client_Do url w = (Inr (code, status, body), w') \<Longrightarrow>
     \<exists>dl rest. net w = Response dl code status body # rest \<and> net w' = rest"
  by (auto simp: client_Do_def Let_def emit_def split: list.splits if_splits net_reply.splits)

lemma Create_ok: "os_Create p w = (Inr u, w') \<Longrightarrow> \<exists>m. fs w' p = Some (NFile [] m)"
  unfolding os_Create_def by (auto dest!: OpenTrunc_ok)

lemma copy_body_ok:
  assumes "fs w tmp = Some (NFile [] m)" and "copy_body tmp body label w = (Inr n, w')"
  shows "\<exists>b. body_data body = Some b \<and> fs w' tmp = Some (NFile b m) \<and> n = length b"
proof -
  obtain k err st w1 where c:
    "copyWithProgress downloadIdleTimeout tmp (now w + downloadIdleTimeout) body 0 w = ((k, err, st), w1)"
    by (metis prod.collapse)
  obtain r w2 where cl: "os_Close tmp w1 = (r, w2)" by (cases "os_Close tmp w1")
  have "err = None" "n = k" "w' = w2"
    using assms(2) by (auto simp: copy_body_def c cl Let_def split: sum.splits option.splits if_splits)
  with copy_ok [OF assms(1)] c Close_fs [OF cl] show ?thesis by fastforce
qed

lemma downloadAttempt_ok:
  assumes "downloadAttempt d url tmp label w = (Inr n, w')"
  shows "\<exists>b m. served (net w) b \<and> fs w' tmp = Some (NFile b m) \<and> n = length b"
proof -
  from assms obtain code status body w1 u w2
    where cd: "client_Do url w = (Inr (code, status, body), w1)" and "code = 200"
      and cr: "os_Create tmp w1 = (Inr u, w2)" and cb: "copy_body tmp body label w2 = (Inr n, w')"
    unfolding downloadAttempt_def
    by (auto simp: tryE_Inr failE_eq split: sum.splits if_splits)
  from Create_ok [OF cr] obtain m where "fs w2 tmp = Some (NFile [] m)" by blast
  from copy_body_ok [OF this cb] client_Do_ok [OF cd] \<open>code = 200\<close> show ?thesis
    by (fastforce simp: served_def)
qed

lemma next_fault_net: "next_fault (w :: 'z host_scheme) = (ft, w1) \<Longrightarrow> net w1 = net w"
  by (auto simp: next_fault_def split: list.splits)

lemma fs_call_net: "net (snd (fs_call ev pre eff partway (w :: 'z host_scheme))) = net w"
proof -
  obtain ft w1 where nf: "next_fault w = (ft, w1)" by (cases "next_fault w")
  with next_fault_net [OF nf] show ?thesis
    by (cases ft; cases "pre (fs w1)") (simp_all add: fs_call_def set_fs_def emit_def)
qed

lemma sys_call_net: "net (snd (sys_call ev (w :: 'z host_scheme))) = net w"
proof -
  obtain ft w1 where nf: "next_fault w = (ft, w1)" by (cases "next_fault w")
  with next_fault_net [OF nf] show ?thesis
    by (cases ft) (simp_all add: sys_call_def emit_def)
qed

lemma Create_net: "net (snd (os_Create p (w :: 'z host_scheme))) = net w"
  unfolding os_Create_def os_OpenTrunc_def by (rule fs_call_net)

lemma Write_net: "net (snd (os_Write p b (w :: 'z host_scheme))) = net w"
  unfolding os_Write_def by (rule fs_call_net)

lemma Close_net: "net (snd (os_Close p (w :: 'z host_scheme))) = net w"
  unfolding os_Close_def by (rule sys_call_net)

lemma copy_net: "net (snd (copyWithProgress idle dst deadline src written w)) = net w"
proof (induction src arbitrary: deadline written w)
  case (Cons ev src)
  obtain rr dl src' w1 where sr: "stall_Read idle deadline (ev # src) w = ((rr, dl, src'), w1)"
    by (metis prod.collapse)
  have w1: "net w1 = net w" using stall_Read_world [OF sr] by auto
  show ?case
  proof (cases rr)
    case (Interrupted st)
    with sr w1 show ?thesis by (simp add: copy_interrupted)
  next
    case (Got b e)
    obtain q w2 where q: "(if length b > 0 then os_Write dst b w1 else (Inr (), w1)) = (q, w2)"
      by (metis prod.collapse)
    have "net w2 = net w" using q w1 Write_net [of dst b w1] by (auto split: if_splits)
    moreover have "src' = src" using stall_Read_Got sr Got by blast
    ultimately show ?thesis using Cons.IH
      by (simp add: copy_got [OF sr [unfolded Got] q] split: sum.split read_end.split)
  qed
next
  case Nil
  show ?case by (simp add: copyWithProgress.simps stall_Read_def Let_def split: prod.split)
qed

lemma copy_body_net: "net (snd (copy_body tmp body label w)) = net w"
proof -
  obtain k err st w1 where c:
    "copyWithProgress downloadIdleTimeout tmp (now w + downloadIdleTimeout) body 0 w = ((k, err, st), w1)"
    by (metis prod.collapse)
  obtain r w2 where cl: "os_Close tmp w1 = (r, w2)" by (cases "os_Close tmp w1")
  have "net w2 = net w"
    using c cl copy_net [of downloadIdleTimeout tmp "now w + downloadIdleTimeout" body 0 w] Close_net [of tmp w1] by simp
  then show ?thesis by (simp add: copy_body_def c cl Let_def split: sum.split option.split)
qed

text \<open>An attempt uses up at most one reply.\<close>

lemma downloadAttempt_net:
  "net (snd (downloadAttempt d url tmp label w)) = net w \<or>
   net (snd (downloadAttempt d url tmp label w)) = tl (net w)"
proof -
  obtain r w1 where cd: "client_Do url w = (r, w1)" by (cases "client_Do url w")
  have w1: "net w1 = tl (net w)"
    using cd by (auto simp: client_Do_def Let_def emit_def split: list.splits if_splits net_reply.splits)
  have cr: "net (snd (tryE (os_Create tmp) f (\<lambda>_. copy_body tmp body label) w1)) = net w1" for f body
  proof -
    obtain q w2 where q: "os_Create tmp w1 = (q, w2)" by (cases "os_Create tmp w1")
    then have "net w2 = net w1" using Create_net [of tmp w1] by simp
    with q copy_body_net [of tmp body label w2] show ?thesis
      by (cases q) (simp_all add: tryE_def catchE_def failE_def)
  qed
  show ?thesis
    using w1 cr cd
    by (auto simp: downloadAttempt_def tryE_def [of "client_Do url"] catchE_def [of "client_Do url"]
        failE_def split: sum.split)
qed

lemma download_loop_ok:
  "download_loop d url tmp label n err w = (Inr k, w') \<Longrightarrow> n > 0 \<Longrightarrow>
     \<exists>b m. served (net w) b \<and> fs w' tmp = Some (NFile b m) \<and> k = length b"
proof (induction n arbitrary: err w)
  case (Suc n)
  obtain g w1 where g: "(if err = None then (True, w) else retry_wait w) = (g, w1)"
    by (metis prod.collapse)
  have w1: "net w1 = net w" using g retry_wait_world [of w g w1] by (auto split: if_splits)
  obtain r w2 where r: "downloadAttempt d url tmp label w1 = (r, w2)"
    by (cases "downloadAttempt d url tmp label w1")
  have gt: "g" using Suc.prems(1) g by (auto split: if_splits)
  show ?case
  proof (cases r)
    case (Inr j)
    then have "k = j" "w' = w2" using Suc.prems(1) g gt r by simp_all
    with downloadAttempt_ok [OF r [unfolded Inr]] w1 show ?thesis by simp
  next
    case (Inl e)
    then have dl: "download_loop d url tmp label n (Some e) w2 = (Inr k, w')"
      using Suc.prems(1) g gt r by (simp split: if_splits)
    then have "n > 0" by (cases n) auto
    from Suc.IH [OF dl this] obtain b m
      where b: "served (net w2) b" "fs w' tmp = Some (NFile b m)" "k = length b" by blast
    have "set (net w2) \<subseteq> set (net w)"
      using downloadAttempt_net [of d url tmp label w1] r w1
      by (metis list.set_sel(2) snd_conv subsetI tl_Nil)
    then have "served (net w) b" using b(1) by (auto simp: served_def)
    with b show ?thesis by blast
  qed
qed simp

section \<open>fetchFile as a staged write\<close>

text \<open>What the destination may be trusted to hold.\<close>

definition verified :: "fetch_deps \<Rightarrow> string \<Rightarrow> node \<Rightarrow> bool" where
  "verified d want n \<longleftrightarrow>
     (\<exists>b m. n = NFile b m \<and> (want \<noteq> [] \<longrightarrow> EqualFold (sha256_hex d b) want))"

definition fetch_produce :: "fetch_deps \<Rightarrow> string \<Rightarrow> string \<Rightarrow> string \<Rightarrow> string \<Rightarrow> (unit, 'z) hio" where
  "fetch_produce d url dest wantSHA label =
     tryE (downloadWithRetries d url (dest @ partialSuffix) label) id (\<lambda>written.
       if wantSHA \<noteq> [] then verifySHA d (dest @ partialSuffix) wantSHA else ret ())"

text \<open>
  A file whose directory is created without touching the file itself: the path is none of
  the directories it lies in.
\<close>

definition proper_file :: "string \<Rightarrow> bool" where
  "proper_file dest \<longleftrightarrow> dest \<notin> set (ancestors (PathDir dest))"

lemma fetchFile_staged:
  "fetchFile d url dest wantSHA label =
     tryE (cachedArtifactOK d dest wantSHA) id (\<lambda>cached.
     if cached then ret ()
     else
       tryE (os_MkdirAll (PathDir dest)) (wrap (''create dest dir for '' @ label @ '': '')) (\<lambda>_.
       tryE (fetch_produce d url dest wantSHA label) id (\<lambda>_.
       tryE (os_Rename (dest @ partialSuffix) dest)
         (wrap (''rename '' @ (dest @ partialSuffix) @ '' to '' @ dest @ '': '')) (\<lambda>_. ret ()))))"
  unfolding fetchFile_def fetch_produce_def Let_def tryE_assoc by (rule refl)

lemma partial_distinct [simp]: "partialSuffix \<noteq> []"
  by (simp add: partialSuffix_def)

interpretation fetched: staged
  "fetch_produce d url dest want label" "dest @ partialSuffix" dest "verified d want"
  for d url dest want label
proof unfold_locales
  show "dest @ partialSuffix \<noteq> dest" by simp
  show "keeps (disk_inv R) (fetch_produce d url dest want label)" if "blind R (dest @ partialSuffix)" for R
    using that unfolding fetch_produce_def by (intro keeps_intro)
  fix w :: "'z host_scheme" and x w'
  assume "fetch_produce d url dest want label w = (Inr x, w')"
  then obtain k w1 where dl: "downloadWithRetries d url (dest @ partialSuffix) label w = (Inr k, w1)"
    and v: "(if want \<noteq> [] then verifySHA d (dest @ partialSuffix) want else ret ()) w1 = (Inr x, w')"
    unfolding fetch_produce_def tryE_Inr by blast
  from dl obtain b m where "fs w1 (dest @ partialSuffix) = Some (NFile b m)"
    unfolding downloadWithRetries_def by (auto simp: downloadAttempts_def dest!: download_loop_ok)
  with v show "\<exists>n. fs w' (dest @ partialSuffix) = Some n \<and> verified d want n"
    by (auto simp: verified_def ret_eq split: if_splits dest!: verifySHA_ok)
qed

lemma fetchFile_safe:
  assumes "proper_file dest" and "disk_inv (old_or_good dest old (verified d want)) w"
  shows "disk_inv (old_or_good dest old (verified d want)) (snd (fetchFile d url dest want label w))"
proof -
  let ?I = "disk_inv (old_or_good dest old (verified d want))"
  have mk: "keeps ?I (os_MkdirAll (PathDir dest))"
    using assms(1) by (intro keeps_intro blind_old_or_good) (auto simp: proper_file_def)
  have inst: "keeps ?I (tryE (fetch_produce d url dest want label) id (\<lambda>_.
      tryE (os_Rename (dest @ partialSuffix) dest) f (\<lambda>_. ret ())))" for f
    by (rule keepsI) (rule fetched.install_safe)
  have "keeps ?I (fetchFile d url dest want label)"
    unfolding fetchFile_staged by (intro keeps_intro mk inst)
  then show ?thesis using assms(2) by (rule keepsD)
qed

lemma cachedArtifactOK_true:
  assumes "cachedArtifactOK d dest want w = (Inr True, w')"
  shows "fs w' = fs w \<and> (\<exists>n. fs w dest = Some n \<and> node_size n > 0 \<and> (want \<noteq> [] \<longrightarrow> verified d want n))"
proof -
  obtain r w1 where st: "os_Stat dest w = (r, w1)" by (cases "os_Stat dest w")
  with assms obtain n where r: "r = Inr n"
    by (cases r) (auto simp: cachedArtifactOK_def catchE_def ret_def)
  have n: "fs w dest = Some n" "fs w1 = fs w" "node_size n > 0"
    using st r assms
    by (auto simp: os_Stat_def fs_read_def cachedArtifactOK_def catchE_def ret_def
        split: prod.splits fault.splits option.splits node.splits sum.splits if_splits dest!: next_fault_fs)
  show ?thesis
  proof (cases "want = []")
    case True
    with n st r assms show ?thesis by (auto simp: cachedArtifactOK_def catchE_def ret_def)
  next
    case False
    obtain q w2 where v: "verifySHA d dest want w1 = (q, w2)" by (cases "verifySHA d dest want w1")
    with assms st r n(3) False have "q = Inr ()" "w' = w2"
      by (auto simp: cachedArtifactOK_def catchE_def ret_def split: sum.splits)
    with verifySHA_ok v n False show ?thesis by (fastforce simp: verified_def)
  qed
qed

lemma fetchFile_verified:
  assumes "fetchFile d url dest want label w = (Inr u, w')" and "want \<noteq> []"
  shows "\<exists>n. fs w' dest = Some n \<and> verified d want n"
proof -
  from assms(1) obtain c w1 where c: "cachedArtifactOK d dest want w = (Inr c, w1)"
    and r: "(if c then ret ()
     else
       tryE (os_MkdirAll (PathDir dest)) (wrap (''create dest dir for '' @ label @ '': '')) (\<lambda>_.
       tryE (fetch_produce d url dest want label) id (\<lambda>_.
       tryE (os_Rename (dest @ partialSuffix) dest)
         (wrap (''rename '' @ (dest @ partialSuffix) @ '' to '' @ dest @ '': '')) (\<lambda>_. ret ())))) w1 = (Inr u, w')"
    unfolding fetchFile_staged tryE_Inr by blast
  show ?thesis
  proof (cases c)
    case True
    with r c cachedArtifactOK_true assms(2) show ?thesis by (fastforce simp: ret_eq)
  next
    case False
    with r obtain v w2 where "tryE (fetch_produce d url dest want label) id (\<lambda>_.
       tryE (os_Rename (dest @ partialSuffix) dest)
         (wrap (''rename '' @ (dest @ partialSuffix) @ '' to '' @ dest @ '': '')) (\<lambda>_. ret ())) w2 = (Inr u, w')"
      by (auto simp: tryE_Inr [of "os_MkdirAll _"])
    then show ?thesis by (rule fetched.install_ok)
  qed
qed

end
