(* ===== verification/Rootfs.thy ===== *)
theory Rootfs
  imports Go_Path Os_World
begin

text \<open>
  \<^verbatim>\<open>internal/rootfs/rootfs.go\<close>: building the Debian root disk. The code's
  dependencies are parameters: the ext4 writer, the registry client and the image type. They
  are programs over the same state the code runs on, collected in the records \<open>ext4\<close>
  and \<open>deps\<close>. The tar stream is what the \<^verbatim>\<open>archive/tar\<close> reader returns: entries,
  then the end of the archive or an error.
\<close>

section \<open>Archives and dependencies\<close>

datatype typeflag = TypeReg | TypeDir | TypeSymlink | TypeLink | TypeOther char

record tar_header =
  Name :: string
  Typeflag :: typeflag
  Linkname :: string
  Mode :: int
  Uid :: int
  Gid :: int

text \<open>An entry: its header, the chunks its body is read in, and how the reading ends.\<close>

type_synonym tar_entry = "tar_header \<times> string list \<times> goerr option"

text \<open>A stream: its entries, and the error the reader stops with (\<open>None\<close> is the end of file).\<close>

type_synonym tar_stream = "tar_entry list \<times> goerr option"

record ('s, 'h) ext4 =
  efs_Mkdir :: "string \<Rightarrow> (unit, 's) prog"
  efs_Symlink :: "string \<Rightarrow> string \<Rightarrow> (unit, 's) prog"
  efs_OpenFile :: "string \<Rightarrow> ('h, 's) prog"
  efs_Write :: "'h \<Rightarrow> string \<Rightarrow> (unit, 's) prog"
  efs_Close :: "'h \<Rightarrow> (unit, 's) prog"
  efs_Chmod :: "string \<Rightarrow> FileMode \<Rightarrow> (unit, 's) prog"
  efs_Chown :: "string \<Rightarrow> int \<Rightarrow> int \<Rightarrow> (unit, 's) prog"

section \<open>Paths on the disk\<close>

definition slash :: string where "slash = ''/''"
definition initGuestPath :: string where "initGuestPath = ''/ossein-init''"

definition initMode :: FileMode where
  "initMode = 493"  \<comment> \<open>0o755\<close>

definition diskPath :: "string \<Rightarrow> string" where
  "diskPath raw =
     (let cleaned = TrimLeft (Clean raw) slash
      in if cleaned = [] then ''.'' else cleaned)"

section \<open>Writing entries\<close>

definition perm :: "int \<Rightarrow> FileMode" where
  "perm mode = word_of_int mode AND 511"  \<comment> \<open>os.FileMode(mode).Perm(), 0o777\<close>

fun efs_Copy :: "('s, 'h) ext4 \<Rightarrow> 'h \<Rightarrow> string list \<Rightarrow> goerr option \<Rightarrow> (unit, 's) prog" where
  "efs_Copy efs out [] end = (case end of None \<Rightarrow> ret () | Some e \<Rightarrow> failE e)"
| "efs_Copy efs out (c # cs) end = tryE (efs_Write efs out c) id (\<lambda>_. efs_Copy efs out cs end)"

definition writeReg :: "('s, 'h) ext4 \<Rightarrow> string \<Rightarrow> string list \<times> goerr option \<Rightarrow> (unit, 's) prog" where
  "writeReg efs dest src =
     tryE (efs_OpenFile efs dest) (wrap (''create '' @ dest @ '': '')) (\<lambda>out.
     catchE (efs_Copy efs out (fst src) (snd src))
       (\<lambda>e. ignoreE (efs_Close efs out) (failE (wrap (''write '' @ dest @ '': '') e)))
       (\<lambda>_. tryE (efs_Close efs out) (wrap (''close '' @ dest @ '': '')) (\<lambda>_. ret ())))"

definition applyMeta :: "('s, 'h) ext4 \<Rightarrow> string \<Rightarrow> tar_header \<Rightarrow> (unit, 's) prog" where
  "applyMeta efs dest hdr =
     tryE (efs_Chmod efs dest (perm (Mode hdr))) (wrap (''chmod '' @ dest @ '': '')) (\<lambda>_.
     tryE (efs_Chown efs dest (Uid hdr) (Gid hdr)) (wrap (''chown '' @ dest @ '': '')) (\<lambda>_. ret ()))"

definition mkParent :: "('s, 'h) ext4 \<Rightarrow> string \<Rightarrow> (unit, 's) prog" where
  "mkParent efs dest =
     (let dir = PathDir dest
      in if dir = ''.'' \<or> dir = ''/'' \<or> dir = [] then ret ()
         else tryE (efs_Mkdir efs dir) (wrap (''mkdir parent '' @ dir @ '': '')) (\<lambda>_. ret ()))"

definition writeEntry :: "('s, 'h) ext4 \<Rightarrow> string \<Rightarrow> tar_entry \<Rightarrow> (unit, 's) prog" where
  "writeEntry efs dest entry =
     (case entry of (hdr, body) \<Rightarrow>
       (case Typeflag hdr of
          TypeDir \<Rightarrow>
            tryE (efs_Mkdir efs dest) (wrap (''mkdir '' @ dest @ '': '')) (\<lambda>_. applyMeta efs dest hdr)
        | TypeReg \<Rightarrow>
            tryE (mkParent efs dest) id (\<lambda>_.
            tryE (writeReg efs dest body) id (\<lambda>_. applyMeta efs dest hdr))
        | TypeSymlink \<Rightarrow>
            tryE (mkParent efs dest) id (\<lambda>_.
            tryE (efs_Symlink efs (Linkname hdr) dest)
              (wrap (''symlink '' @ dest @ '' -> '' @ Linkname hdr @ '': '')) (\<lambda>_. ret ()))
        | TypeLink \<Rightarrow>
            tryE (mkParent efs dest) id (\<lambda>_.
            let target = slash @ diskPath (Linkname hdr)
            in tryE (efs_Symlink efs target dest)
                 (wrap (''hardlink-as-symlink '' @ dest @ '' -> '' @ target @ '': '')) (\<lambda>_. ret ()))
        | TypeOther _ \<Rightarrow> ret ()))"

fun unpackEntries :: "('s, 'h) ext4 \<Rightarrow> tar_entry list \<Rightarrow> goerr option \<Rightarrow> (unit, 's) prog" where
  "unpackEntries efs [] end =
     (case end of None \<Rightarrow> ret () | Some e \<Rightarrow> failE (wrap ''read rootfs tar: '' e))"
| "unpackEntries efs (entry # rest) end =
     (let dest = diskPath (Name (fst entry))
      in if dest = [] \<or> dest = ''.'' then unpackEntries efs rest end
         else tryE (writeEntry efs dest entry) id (\<lambda>_. unpackEntries efs rest end))"

definition unpackTar :: "('s, 'h) ext4 \<Rightarrow> tar_stream \<Rightarrow> (unit, 's) prog" where
  "unpackTar efs src = unpackEntries efs (fst src) (snd src)"

section \<open>Building the disk\<close>

definition ellipsis :: string where "ellipsis = [CHR 0xE2, CHR 0x80, CHR 0xA6]"

text \<open>
  The dependencies of \<open>Build\<close>: the digest parser of the registry library, the pull,
  the flattening of an image to a tar stream, the image file and its formatting. The ext4
  file system the formatting returns is used through \<open>ext4\<close>.
\<close>

record platform =
  OS :: string
  Architecture :: string

definition guest_platform :: platform where
  "guest_platform = \<lparr>OS = ''linux'', Architecture = ''arm64''\<rparr>"

record ext4_params =
  fs_start :: int
  sectorSize :: int
  SectorsPerBlock :: int
  VolumeName :: string

definition ext4SectorSize :: int where "ext4SectorSize = 512"
definition sectorsPerBlock4k :: int where "sectorsPerBlock4k = 8"
definition volumeLabel :: string where "volumeLabel = ''ossein-debian''"

definition disk_params :: ext4_params where
  "disk_params =
     \<lparr>fs_start = 0, sectorSize = ext4SectorSize, SectorsPerBlock = sectorsPerBlock4k, VolumeName = volumeLabel\<rparr>"

record ('s, 'h, 'i, 'b) deps =
  NewDigest :: "string \<Rightarrow> unit result"
  Pull :: "platform \<Rightarrow> string \<Rightarrow> ('i, 's) prog"
  MutateExtract :: "'i \<Rightarrow> tar_stream"
  CreateFromPath :: "string \<Rightarrow> int \<Rightarrow> ('b, 's) prog"
  Ext4Create :: "ext4_params \<Rightarrow> 'b \<Rightarrow> int \<Rightarrow> (('s, 'h) ext4, 's) prog"
  BackClose :: "'b \<Rightarrow> (unit, 's) prog"

definition embedInit ::
    "('z world_scheme, 'h) ext4 \<Rightarrow> string \<Rightarrow> (unit, 'z) io" where
  "embedInit efs initBin =
     tryE (os_OpenRead initBin) (wrap (''open init binary '' @ initBin @ '': '')) (\<lambda>src.
     let dest = diskPath initGuestPath
     in tryE (writeReg efs dest src) id (\<lambda>_.
        tryE (efs_Chmod efs dest initMode) (wrap ''chmod init: '') (\<lambda>_. ret ())))"

definition cleanup ::
    "('z world_scheme, 'h, 'i, 'b) deps \<Rightarrow> 'b \<Rightarrow> string \<Rightarrow> goerr \<Rightarrow> (unit, 'z) io" where
  "cleanup d back out cause =
     ignoreE (BackClose d back) (ignoreE (os_Remove out) (failE cause))"

definition Build ::
    "('z world_scheme, 'h, 'i, 'b) deps \<Rightarrow> string \<Rightarrow> string \<Rightarrow> string \<Rightarrow> int \<Rightarrow> (unit, 'z) io" where
  "Build d imageRef initBin outExt4 sizeBytes =
     (case NewDigest d imageRef of
        Inl e \<Rightarrow> failE (wrap (''image ref '' @ quoted imageRef @ '' must be digest-pinned (repo@sha256:'' @ ellipsis @ ''): '') e)
      | Inr _ \<Rightarrow>
          tryE (Pull d guest_platform imageRef) (wrap (''pull '' @ imageRef @ '': '')) (\<lambda>img.
          ignoreE (os_Remove outExt4) (
          tryE (CreateFromPath d outExt4 sizeBytes) (wrap ''create image file: '') (\<lambda>back.
          catchE (Ext4Create d disk_params back sizeBytes) (\<lambda>e. cleanup d back outExt4 (wrap ''format ext4: '' e)) (\<lambda>efs.
          catchE (unpackTar efs (MutateExtract d img)) (cleanup d back outExt4) (\<lambda>_.
          catchE (efs_Mkdir efs ''ram'') (\<lambda>e. cleanup d back outExt4 (wrap ''mkdir /ram: '' e)) (\<lambda>_.
          catchE (embedInit efs initBin) (cleanup d back outExt4) (\<lambda>_.
          catchE (BackClose d back)
            (\<lambda>e. ignoreE (os_Remove outExt4) (failE (wrap ''flush image: '' e)))
            (\<lambda>_. ret ())))))))))"

section \<open>The path mapper\<close>

lemma TrimLeft_Join:
  assumes "\<forall>e \<in> set es. elem_ok e"
  shows "TrimLeft (Join es ''/'') slash = Join es ''/''"
proof (cases "es = []")
  case False
  from Join_elems_no_lead [OF assms this] show ?thesis by (auto simp: TrimLeft_def slash_def)
qed (simp add: TrimLeft_def)

text \<open>\<open>diskPath\<close> renders the elements of the path without the root.\<close>

lemma diskPath_render: "diskPath raw = render_path (False, snd (parse_path raw))"
proof -
  obtain r es where p: "parse_path raw = (r, es)" by (cases "parse_path raw")
  then have ok: "\<forall>e \<in> set es. elem_ok e"
    using parse_path_canonical [of raw] by (simp add: canonical_def)
  have tl: "TrimLeft (Clean raw) slash = Join es ''/''" if "r \<or> es \<noteq> []"
    using that p TrimLeft_Join [OF ok]
    by (cases r) (simp_all add: Clean_def render_path_def TrimLeft_def slash_def)
  have ne: "es \<noteq> [] \<Longrightarrow> Join es ''/'' \<noteq> []"
    using Join_elems_no_lead [OF ok] by auto
  show ?thesis
  proof (cases "r \<or> es \<noteq> []")
    case True
    with tl ne p show ?thesis
      by (cases "es = []") (simp_all add: diskPath_def render_path_def dot_def Let_def)
  next
    case False
    with p show ?thesis
      by (simp add: diskPath_def Clean_def render_path_def dot_def TrimLeft_def slash_def)
  qed
qed

interpretation disk: normal_form
  "\<lambda>p. snd (parse_path p)" "\<lambda>es. render_path (False, es)" "\<lambda>es. canonical (False, es)"
proof unfold_locales
  show "canonical (False, snd (parse_path t))" for t
    using parse_path_canonical [of t] canonical_relative by (metis prod.collapse)
qed (simp add: parse_render)

lemma diskPath_clean: "Clean (diskPath raw) = diskPath raw"
  unfolding diskPath_render Clean_fix_iff using disk.read_good by blast

lemma diskPath_relative: "\<not> IsAbs (diskPath raw)"
  unfolding diskPath_render using parse_render [OF disk.read_good [of raw]]
  by (metis fst_conv parse_path_def)

lemma diskPath_again: "diskPath (diskPath raw) = diskPath raw"
  unfolding diskPath_render by (rule disk.normalise_idem)

section \<open>Only well-formed paths reach the ext4 writer\<close>

definition disk_path_ok :: "string \<Rightarrow> bool" where
  "disk_path_ok p \<longleftrightarrow> p \<noteq> [] \<and> \<not> IsAbs p \<and> Clean p = p \<and> p \<noteq> ''.''"

text \<open>Two writers that agree on well-formed paths (and on open files).\<close>

definition agree :: "('s, 'h) ext4 \<Rightarrow> ('s, 'h) ext4 \<Rightarrow> bool" where
  "agree e1 e2 \<longleftrightarrow>
     efs_Write e1 = efs_Write e2 \<and> efs_Close e1 = efs_Close e2 \<and>
     (\<forall>p. disk_path_ok p \<longrightarrow>
        efs_Mkdir e1 p = efs_Mkdir e2 p \<and> (\<forall>t. efs_Symlink e1 t p = efs_Symlink e2 t p) \<and>
        efs_OpenFile e1 p = efs_OpenFile e2 p \<and> efs_Chmod e1 p = efs_Chmod e2 p \<and>
        efs_Chown e1 p = efs_Chown e2 p)"

lemma diskPath_ok: "diskPath raw \<noteq> ''.'' \<Longrightarrow> disk_path_ok (diskPath raw)"
  using diskPath_clean [of raw] Clean_not_Nil [of "diskPath raw"] diskPath_relative [of raw]
  by (auto simp: disk_path_ok_def)

lemma PathDir_relative:
  assumes "\<not> IsAbs p"
  shows "\<not> IsAbs (PathDir p)"
proof -
  obtain d n where dn: "PathSplit p = (d, n)" by (cases "PathSplit p")
  then have p: "p = d @ n" using PathSplit_append [of p] by simp
  have "\<not> IsAbs d" using assms p by (cases d) (auto simp: IsAbs_def)
  then show ?thesis using dn by (simp add: PathDir_def IsAbs_Clean)
qed

lemma PathDir_ok:
  assumes "disk_path_ok p" and "PathDir p \<noteq> ''.''"
  shows "disk_path_ok (PathDir p)"
  using assms PathDir_relative [of p] Clean_not_Nil by (auto simp: disk_path_ok_def PathDir_def)

lemma efs_Copy_agree: "agree e1 e2 \<Longrightarrow> efs_Copy e1 out cs end = efs_Copy e2 out cs end"
  by (induction cs) (simp_all add: agree_def)

lemma writeReg_agree: "agree e1 e2 \<Longrightarrow> disk_path_ok p \<Longrightarrow> writeReg e1 p src = writeReg e2 p src"
  using efs_Copy_agree [of e1 e2] unfolding writeReg_def agree_def by presburger

lemma mkParent_agree: "agree e1 e2 \<Longrightarrow> disk_path_ok p \<Longrightarrow> mkParent e1 p = mkParent e2 p"
  using PathDir_ok [of p] by (auto simp: mkParent_def Let_def agree_def)

lemma applyMeta_agree: "agree e1 e2 \<Longrightarrow> disk_path_ok p \<Longrightarrow> applyMeta e1 p h = applyMeta e2 p h"
  by (simp add: applyMeta_def agree_def)

lemma writeEntry_agree:
  assumes "agree e1 e2" and "disk_path_ok p"
  shows "writeEntry e1 p en = writeEntry e2 p en"
proof -
  have "efs_Mkdir e1 p = efs_Mkdir e2 p" "efs_Symlink e1 t p = efs_Symlink e2 t p" for t
    using assms by (auto simp: agree_def)
  then show ?thesis
    by (simp add: writeEntry_def writeReg_agree [OF assms] mkParent_agree [OF assms]
        applyMeta_agree [OF assms] split: prod.split typeflag.split)
qed

lemma unpackEntries_agree:
  "agree e1 e2 \<Longrightarrow> unpackEntries e1 es end = unpackEntries e2 es end"
  by (induction es) (auto simp: Let_def writeEntry_agree diskPath_ok)

section \<open>Cleaning up\<close>

text \<open>The image file is gone, or its removal is what failed last.\<close>

definition removed :: "string \<Rightarrow> 'z world_scheme \<Rightarrow> bool" where
  "removed out w \<longleftrightarrow> fs w out = None \<or> last (log w) = (EvRemove out, False)"

lemma Remove_removed: "removed p (snd (os_Remove p w))"
proof -
  obtain ft w1 where nf: "next_fault w = (ft, w1)" by (cases "next_fault w")
  then show ?thesis
    by (cases ft; cases "fs w1 p") (simp_all add: removed_def os_Remove_def fs_call_def set_fs_def emit_def)
qed

lemma cleanup_removed: "cleanup d back out cause w = (r, w') \<Longrightarrow> r = Inl cause \<and> removed out w'"
  using Remove_removed [of out "snd (BackClose d back w)"]
  by (auto simp: cleanup_def ignoreE_eq failE_eq)

lemma catch_removed:
  assumes "catchE m h k w = (Inl e, w')"
    and "\<And>e' w1. h e' w1 = (Inl e, w') \<Longrightarrow> removed out w'"
    and "\<And>x w1. k x w1 = (Inl e, w') \<Longrightarrow> removed out w'"
  shows "removed out w'"
  using assms unfolding catchE_Inl by blast

lemma Build_ok:
  assumes "Build d ref i out n w = (Inr u, w')"
  shows "NewDigest d ref = Inr () \<and> (\<exists>img_file v. BackClose d img_file v = (Inr (), w'))"
proof (cases "NewDigest d ref")
  case (Inl e)
  with assms show ?thesis by (simp add: Build_def failE_eq)
next
  case (Inr v)
  have no: "\<not> cleanup d img_file out c w1 = (Inr x, w2)" for img_file c w1 w2 and x :: unit
    using cleanup_removed [of d img_file out c w1 "Inr x" w2] by auto
  from assms obtain img_file v where "BackClose d img_file v = (Inr (), w')"
    unfolding Build_def Inr sum.case tryE_Inr ignoreE_eq catchE_Inr
    by (auto simp: no failE_eq ret_eq)
  with Inr show ?thesis by auto
qed

section \<open>Properties\<close>

text \<open>
  C34. The path mapper: whatever a tar entry is named, the disk path is not empty, has no
  leading slash, is clean, and mapping it again changes nothing; it is the path's normalised
  elements without the root, so spellings of the same path agree.
\<close>

theorem disk_path_contract:
  "diskPath raw \<noteq> [] \<and> \<not> IsAbs (diskPath raw) \<and> Clean (diskPath raw) = diskPath raw \<and>
   diskPath (diskPath raw) = diskPath raw \<and> diskPath raw = render_path (False, snd (parse_path raw))"
  using Clean_not_Nil [of "diskPath raw"] diskPath_clean [of raw] diskPath_relative [of raw]
    diskPath_again [of raw] diskPath_render [of raw] by simp

text \<open>
  C35. Unpacking never hands the ext4 writer a path it rejects: two writers that agree on
  clean, relative, not empty paths other than \<open>.\<close> cannot be told apart by any archive.
\<close>

theorem unpack_paths_accepted:
  assumes "agree e1 e2"
  shows "unpackTar e1 src = unpackTar e2 src"
  by (simp add: unpackTar_def unpackEntries_agree [OF assms])

text \<open>A writer for the witness that accepts every path, and one that rejects rooted ones.\<close>

definition lax_writer :: "(string list, unit) ext4" where
  "lax_writer =
     \<lparr>efs_Mkdir = (\<lambda>p w. (Inr (), w @ [p])), efs_Symlink = (\<lambda>t p w. (Inr (), w @ [p])),
      efs_OpenFile = (\<lambda>p w. (Inr (), w @ [p])), efs_Write = (\<lambda>h b. ret ()), efs_Close = (\<lambda>h. ret ()),
      efs_Chmod = (\<lambda>p m. ret ()), efs_Chown = (\<lambda>p u g. ret ())\<rparr>"

definition strict_writer :: "(string list, unit) ext4" where
  "strict_writer = lax_writer\<lparr>efs_Mkdir := (\<lambda>p w. if IsAbs p then (Inl (Errno EINVAL), w) else (Inr (), w @ [p]))\<rparr>"

lemma unpack_paths_accepted_witness:
  "unpackTar lax_writer ([(\<lparr>Name = ''///etc//x/'', Typeflag = TypeDir, Linkname = [], Mode = 493, Uid = 0, Gid = 0\<rparr>, [], None)], None) [] =
   unpackTar strict_writer ([(\<lparr>Name = ''///etc//x/'', Typeflag = TypeDir, Linkname = [], Mode = 493, Uid = 0, Gid = 0\<rparr>, [], None)], None) []"
proof -
  have "agree lax_writer strict_writer"
    by (auto simp: agree_def lax_writer_def strict_writer_def disk_path_ok_def)
  then show ?thesis by (simp only: unpack_paths_accepted)
qed

text \<open>
  C33. A build that fails leaves no image: unless the reference was not pinned by digest (then
  nothing at all has happened), the pull failed, or the image file could not be created, the
  image file is gone, or removing it is what failed last. A build that succeeds was given a
  pinned reference.
\<close>

theorem build_failure_leaves_no_image:
  assumes "Build d ref initBin out n w = (r, w')"
  shows "(r = Inr () \<and> NewDigest d ref = Inr ()) \<or>
     (\<exists>e. NewDigest d ref = Inl e \<and> is_ok r = False \<and> w' = w) \<or>
     (\<exists>e. Pull d guest_platform ref w = (Inl e, w')) \<or>
     (\<exists>img w1 e. Pull d guest_platform ref w = (Inr img, w1) \<and> CreateFromPath d out n (snd (os_Remove out w1)) = (Inl e, w')) \<or>
     fs w' out = None \<or> last (log w') = (EvRemove out, False)"
proof (cases r)
  case (Inr u)
  with assms Build_ok show ?thesis by fastforce
next
  case (Inl e)
  show ?thesis
  proof (cases "NewDigest d ref")
    case dg: (Inl x)
    with assms Inl show ?thesis by (auto simp: Build_def failE_eq)
  next
    case (Inr v)
    note cl = cleanup_removed [THEN conjunct2]
    have bc: "catchE (BackClose d img_file) (\<lambda>e. ignoreE (os_Remove out) (failE (wrap ''flush image: '' e)))
        (\<lambda>_. ret ()) v = (Inl e, w') \<Longrightarrow> removed out w'" for img_file v
      using Remove_removed [of out] by (auto simp: catchE_Inl ignoreE_eq failE_eq ret_eq)
    let ?tail = "\<lambda>img img_file.
          catchE (Ext4Create d disk_params img_file n) (\<lambda>e. cleanup d img_file out (wrap ''format ext4: '' e)) (\<lambda>efs.
          catchE (unpackTar efs (MutateExtract d img)) (cleanup d img_file out) (\<lambda>_.
          catchE (efs_Mkdir efs ''ram'') (\<lambda>e. cleanup d img_file out (wrap ''mkdir /ram: '' e)) (\<lambda>_.
          catchE (embedInit efs initBin) (cleanup d img_file out) (\<lambda>_.
          catchE (BackClose d img_file)
            (\<lambda>e. ignoreE (os_Remove out) (failE (wrap ''flush image: '' e)))
            (\<lambda>_. ret ())))))"
    let ?made = "\<lambda>img. tryE (CreateFromPath d out n) (wrap ''create image file: '') (?tail img)"
    have "tryE (Pull d guest_platform ref) (wrap (''pull '' @ ref @ '': '')) (\<lambda>img. ignoreE (os_Remove out) (?made img)) w = (Inl e, w')"
      using assms Inl unfolding Build_def Inr sum.case by simp
    then consider (pull) e' where "Pull d guest_platform ref w = (Inl e', w')"
      | (made) img w1 where "Pull d guest_platform ref w = (Inr img, w1)" "ignoreE (os_Remove out) (?made img) w1 = (Inl e, w')"
      unfolding tryE_Inl [of "Pull d guest_platform ref"] by blast
    then consider (pull) e' where "Pull d guest_platform ref w = (Inl e', w')"
      | (create) img w1 e' where "Pull d guest_platform ref w = (Inr img, w1)"
          "CreateFromPath d out n (snd (os_Remove out w1)) = (Inl e', w')"
      | (later) img img_file w2 where "?tail img img_file w2 = (Inl e, w')"
    proof cases
      case made
      then have "?made img (snd (os_Remove out w1)) = (Inl e, w')"
        using ignoreE_eq [of "os_Remove out" "?made img" w1] by simp
      with made(1) that(2,3) show ?thesis unfolding tryE_Inl [of "CreateFromPath d out n"] by blast
    qed (use that in blast)
    then show ?thesis
    proof cases
      case later
      then have "removed out w'"
        by (elim catch_removed [where out = out] cl bc)
      then show ?thesis by (auto simp: removed_def)
    qed blast+
  qed
qed

text \<open>An image library for the witnesses: an image is its reference, one file holds it.\<close>

definition toy_ext4 :: "string \<Rightarrow> ('z world_scheme, unit) ext4" where
  "toy_ext4 out =
     \<lparr>efs_Mkdir = (\<lambda>p. ret ()), efs_Symlink = (\<lambda>t p. ret ()), efs_OpenFile = (\<lambda>p. ret ()),
      efs_Write = (\<lambda>h b. os_Write out b), efs_Close = (\<lambda>h. ret ()), efs_Chmod = (\<lambda>p m. ret ()),
      efs_Chown = (\<lambda>p u g. ret ())\<rparr>"

definition toy_deps :: "string \<Rightarrow> ('z world_scheme, unit, string, unit) deps" where
  "toy_deps out =
     \<lparr>NewDigest = (\<lambda>r. if Contains r ''@sha256:'' then Inr () else Inl (ErrNew ''not a digest'')),
      Pull = (\<lambda>pl r. ret r),
      MutateExtract = (\<lambda>i. ([(\<lparr>Name = ''etc/id'', Typeflag = TypeReg, Linkname = [], Mode = 420, Uid = 0, Gid = 0\<rparr>, [i], None)], None)),
      CreateFromPath = (\<lambda>p n. os_Create p), Ext4Create = (\<lambda>ps b n. ret (toy_ext4 out)),
      BackClose = (\<lambda>b. tryE (os_Stat out) id (\<lambda>_. ret ()))\<rparr>"

definition plain_world :: "fsys \<Rightarrow> world" where
  "plain_world f = \<lparr>fs = f, hist = [], log = [], faults = [], umask = 18\<rparr>"

lemma build_failure_leaves_no_image_witness:
  "fs (snd (Build (toy_deps ''o'') ''d@sha256:1'' ''missing'' ''o'' 9 (plain_world Map.empty))) ''o'' = None"
proof -
  let ?d = "toy_deps ''o'' :: (world, unit, string, unit) deps"
  let ?run = "Build ?d ''d@sha256:1'' ''missing'' ''o'' 9 (plain_world Map.empty)"
  have run: "?run = (fst ?run, snd ?run)" by simp
  have f: "\<not> is_ok (fst ?run)" by code_simp
  have l: "last (log (snd ?run)) \<noteq> (EvRemove ''o'', False)" by code_simp
  have d: "NewDigest ?d ''d@sha256:1'' = Inr ()" by code_simp
  have p: "Pull ?d guest_platform ''d@sha256:1'' (plain_world Map.empty) = (Inr ''d@sha256:1'', plain_world Map.empty)"
    by (simp add: toy_deps_def ret_def)
  have c: "is_ok (fst (CreateFromPath ?d ''o'' 9 (snd (os_Remove ''o'' (plain_world Map.empty)))))"
    by code_simp
  from build_failure_leaves_no_image [OF run] f l d p c show ?thesis by auto
qed

end
