(* ===== verification/Host_Config.thy ===== *)
theory Host_Config
  imports Host_Fetch Rootfs
begin

text \<open>
  What the steps of \<^verbatim>\<open>cmd/ossein-kernel/main.go\<close> share: the settings of the command
  line and what the host borrows from libraries outside the repository. The archive readers
  give the entries of the archive that a reader of a file yields (or the error they refuse it
  with); the writer of whole files comes with what is relied on of it.
\<close>

text \<open>The settings of the command line the host's steps read.\<close>

record config =
  LogLevel :: string
  KernelConfig :: string
  KernelPatches :: string
  Out :: string
  LocalVer :: string
  InitBin :: string
  KataURL :: string
  KataSHA :: string
  Image :: string
  DebianSuite :: string
  AptSnapshot :: string
  SourceURL :: string
  SourceSHA :: string
  LLVMURL :: string
  LLVMSHA :: string

text \<open>
  What the host borrows from outside the repository: the writer of whole files, the archive
  readers, the path check of the command line, the listing of a directory, the directories a
  pattern with metacharacters stands for, the working directory, and the script the binary
  embeds.
\<close>

record 'z host_deps =
  fetching :: fetch_deps
  WriteFile :: "string \<Rightarrow> string \<Rightarrow> (unit, 'z) hio"
  XzTar :: "string list \<times> goerr option \<Rightarrow> tar_stream result"
  ZstdTar :: "string list \<times> goerr option \<Rightarrow> tar_stream result"
  pathcheck_Validate :: "string \<Rightarrow> unit result"
  Readdirnames :: "fsys \<Rightarrow> string \<Rightarrow> string list"
  GlobDirs :: "string \<Rightarrow> fsys \<Rightarrow> string list result"
  Getwd :: "string result"
  build_sh :: string

text \<open>
  The writer of whole files leaves the bytes it was given in the file when it succeeds; it touches no path but the file it writes and the temporary names
  \<open>temps\<close> gives it.
\<close>

definition writes_files :: "'z host_deps \<Rightarrow> (string \<Rightarrow> string set) \<Rightarrow> bool" where
  "writes_files lib temps \<longleftrightarrow>
     (\<forall>p data w u w'. WriteFile lib p data w = (Inr u, w') \<longrightarrow> (\<exists>m. fs w' p = Some (NFile data m))) \<and>
     (\<forall>p data R. blind R p \<longrightarrow> (\<forall>q \<in> temps p. blind R q) \<longrightarrow> keeps (disk_inv R) (WriteFile lib p data)) \<and>
     (\<forall>p data q. q \<noteq> p \<longrightarrow> q \<notin> temps p \<longrightarrow> leaves q (WriteFile lib p data))"

lemma writes_files_ok: "writes_files lib temps \<Longrightarrow> WriteFile lib p data w = (Inr u, w') \<Longrightarrow> \<exists>m. fs w' p = Some (NFile data m)"
  unfolding writes_files_def by blast

lemma keeps_WriteFile_lib:
  "writes_files lib temps \<Longrightarrow> blind R p \<Longrightarrow> (\<And>q. q \<in> temps p \<Longrightarrow> blind R q) \<Longrightarrow>
     keeps (disk_inv R) (WriteFile lib p data)"
  unfolding writes_files_def by blast

lemma leaves_WriteFile_lib: "writes_files lib temps \<Longrightarrow> q \<noteq> p \<Longrightarrow> q \<notin> temps p \<Longrightarrow> leaves q (WriteFile lib p data)"
  unfolding writes_files_def by blast

section \<open>Directories and what lies in them\<close>

text \<open>\<open>below_dir d p\<close>: the path is made of the directory's text and ordinary names under it.\<close>

definition below_dir :: "string \<Rightarrow> string \<Rightarrow> bool" where
  "below_dir d p \<longleftrightarrow> (\<exists>es. es \<noteq> [] \<and> list_all name_ok es \<and> p = d @ ''/'' @ Join es ''/'')"

text \<open>A directory named by its last element: neither the root, nor \<open>.\<close>, nor a chain of \<open>..\<close>.\<close>

definition named_dir :: "string \<Rightarrow> bool" where
  "named_dir d \<longleftrightarrow> snd (parse_path d) \<noteq> [] \<and> last (snd (parse_path d)) \<noteq> dotdot"

lemma Split_Join_append:
  assumes "ds \<noteq> []" and "\<And>e. e \<in> set ds \<Longrightarrow> c \<notin> set e"
  shows "Split c (Join ds [c] @ c # x) = ds @ Split c x"
  using Split_append_any [of c "Join ds [c]" x] Split_Join [OF assms] by simp

lemma dots_first_prefix: "dots_first (ds @ es) \<Longrightarrow> ds \<noteq> [] \<Longrightarrow> last ds \<noteq> dotdot \<Longrightarrow> dotdot \<notin> set es"
  by (induction ds) (auto split: if_splits)

lemma under_prefix:
  assumes "named_dir d" and "HasPrefix (Clean p) (Clean d @ ''/'')"
  shows "below_dir (Clean d) (Clean p)"
proof -
  obtain r ds where d: "parse_path d = (r, ds)" by (cases "parse_path d")
  obtain q ts where p: "parse_path p = (q, ts)" by (cases "parse_path p")
  have cd: "canonical (r, ds)" and ct: "canonical (q, ts)"
    using parse_path_canonical [of d] parse_path_canonical [of p] d p by simp_all
  have ds: "ds \<noteq> []" "last ds \<noteq> dotdot" using assms(1) d by (simp_all add: named_dir_def)
  have okd: "\<And>e. e \<in> set ds \<Longrightarrow> elem_ok e" and okt: "\<And>e. e \<in> set ts \<Longrightarrow> elem_ok e"
    using cd ct by (simp_all add: canonical_def)
  have Cd: "Clean d = (if r then ''/'' else []) @ Join ds ''/''"
    using d ds(1) by (simp add: Clean_def render_path_def)
  obtain x where x: "Clean p = Clean d @ ''/'' @ x" using assms(2) by (auto simp: HasPrefix_iff)
  have "Join ds ''/'' \<noteq> [] \<and> hd (Join ds ''/'') \<noteq> CHR ''/''"
    using Join_elems_no_lead [of ds] okd ds(1) by auto
  then have qr: "q = r"
    using x Cd IsAbs_Clean [of p] p
    by (cases "Join ds ''/''"; cases r) (auto simp: IsAbs_def parse_path_def split: if_splits)
  have "Clean p = (if q then ''/'' else []) @ Join ts ''/'' \<or> (Clean p = dot \<and> \<not> q)"
    using p by (auto simp: Clean_def render_path_def)
  then have J: "Join ts ''/'' = Join ds ''/'' @ ''/'' @ x"
    using x Cd qr \<open>Join ds ''/'' \<noteq> [] \<and> _\<close>
    by (cases "Join ds ''/''") (auto simp: dot_def split: if_splits)
  then have "ts \<noteq> []" by (cases ts) auto
  have "ts = Split CHR ''/'' (Join ts ''/'')"
    by (rule Split_Join [symmetric]) (use \<open>ts \<noteq> []\<close> okt in \<open>auto simp: elem_ok_def\<close>)
  also have "\<dots> = Split CHR ''/'' (Join ds ''/'' @ CHR ''/'' # x)" by (simp add: J)
  also have "\<dots> = ds @ Split CHR ''/'' x"
    by (rule Split_Join_append) (use ds(1) okd in \<open>auto simp: elem_ok_def\<close>)
  finally have ts: "ts = ds @ Split CHR ''/'' x" .
  have "elem_ok e \<and> e \<noteq> dotdot" if "e \<in> set (Split CHR ''/'' x)" for e
    using that okt ct dots_first_prefix [of ds "Split CHR ''/'' x"] ds ts
    by (auto simp: canonical_def split: if_splits)
  then have "list_all name_ok (Split CHR ''/'' x)" by (auto simp: list_all_iff name_ok_def)
  moreover have "Join (Split CHR ''/'' x) ''/'' = x" by (rule Join_Split)
  ultimately show ?thesis
    unfolding below_dir_def using x by (intro exI [of _ "Split CHR ''/'' x"]) simp
qed

text \<open>The directories a path lies in, as prefixes of it.\<close>

lemma ancestors_iff: "a \<in> set (ancestors p) \<longleftrightarrow> a = p \<or> (a \<noteq> [] \<and> (\<exists>s. p = a @ ''/'' @ s))"
proof
  assume "a \<in> set (ancestors p)"
  then consider "a = p" | i where "i < length p" "0 < i" "p ! i = CHR ''/''" "a = take i p"
    by (auto simp: ancestors_def)
  then show "a = p \<or> (a \<noteq> [] \<and> (\<exists>s. p = a @ ''/'' @ s))"
  proof cases
    case 2
    then have "p = take i p @ CHR ''/'' # drop (Suc i) p" by (metis id_take_nth_drop)
    with 2 show ?thesis by auto
  qed simp
next
  assume "a = p \<or> (a \<noteq> [] \<and> (\<exists>s. p = a @ ''/'' @ s))"
  then show "a \<in> set (ancestors p)"
  proof
    assume "a \<noteq> [] \<and> (\<exists>s. p = a @ ''/'' @ s)"
    then obtain s where a: "a \<noteq> []" and p: "p = a @ ''/'' @ s" by blast
    have "length a < length p" using p by simp
    moreover have "p ! length a = CHR ''/''" unfolding p by (simp add: nth_append)
    ultimately have "length a \<in> set (filter (\<lambda>i. 0 < i \<and> p ! i = CHR ''/'') [0..<length p])"
      unfolding set_filter using a by simp
    then have "(\<lambda>i. take i p) (length a) \<in> set (ancestors p)"
      unfolding ancestors_def set_append set_map by (intro UnI1 imageI)
    moreover have "take (length a) p = a" unfolding p by simp
    ultimately show ?thesis by simp
  qed (simp add: ancestors_def)
qed

lemma ancestors_below:
  assumes "a \<in> set (ancestors (d @ ''/'' @ Join es ''/''))" and "list_all name_ok es" and "es \<noteq> []"
  shows "a \<in> set (ancestors d) \<or> below_dir d a"
proof -
  from assms(1) consider "a = d @ ''/'' @ Join es ''/''"
    | s where "a \<noteq> []" "d @ ''/'' @ Join es ''/'' = a @ ''/'' @ s"
    unfolding ancestors_iff by blast
  then show ?thesis
  proof cases
    case 1
    with assms(2,3) show ?thesis by (auto simp: below_dir_def)
  next
    case 2
    then consider u where "d = a @ u" "u @ ''/'' @ Join es ''/'' = ''/'' @ s"
      | u where "a = d @ u" "''/'' @ Join es ''/'' = u @ ''/'' @ s"
      unfolding append_eq_append_conv2 by blast
    then show ?thesis
    proof cases
      case 1
      then have "a \<in> set (ancestors d)"
        using 2(1) by (cases u) (auto simp: ancestors_iff)
      then show ?thesis ..
    next
      case u: 2
      show ?thesis
      proof (cases u)
        case Nil
        with u show ?thesis by (simp add: ancestors_iff)
      next
        case (Cons c j)
        with u have c: "c = CHR ''/''" and J: "Join es ''/'' = j @ CHR ''/'' # s" by auto
        have "Split CHR ''/'' (Join es ''/'') = es"
          using assms(2,3) by (intro Split_Join) (auto simp: list_all_iff name_ok_def elem_ok_def)
        then have "es = Split CHR ''/'' j @ Split CHR ''/'' s"
          using J Split_append_any [of "CHR ''/''" j s] by simp
        then have "list_all name_ok (Split CHR ''/'' j)" using assms(2) by simp
        moreover have "a = d @ ''/'' @ Join (Split CHR ''/'' j) ''/''"
          using u(1) Cons c Join_Split [of "CHR ''/''" j] by simp
        ultimately show ?thesis unfolding below_dir_def using Split_not_Nil by blast
      qed
    qed
  qed
qed

lemma dots_first_append_names: "dots_first ds \<Longrightarrow> dotdot \<notin> set es \<Longrightarrow> dots_first (ds @ es)"
  by (induction ds) (auto intro: dots_first_no_dotdot)

lemma below_render:
  assumes "named_dir d" and "list_all name_ok es" and d: "parse_path d = (r, ds)"
  shows "render_path (r, ds @ es) = Clean d @ (if es = [] then [] else ''/'' @ Join es ''/'')"
    and "canonical (r, ds @ es)"
proof -
  have c: "canonical (r, ds)" using parse_path_canonical [of d] d by simp
  have ds: "ds \<noteq> []" using assms(1) d by (simp add: named_dir_def)
  have es: "\<forall>e \<in> set es. elem_ok e \<and> e \<noteq> dotdot" using assms(2) by (simp add: list_all_iff name_ok_def)
  then show "canonical (r, ds @ es)"
    using c by (auto simp: canonical_def intro: dots_first_append_names)
  show "render_path (r, ds @ es) = Clean d @ (if es = [] then [] else ''/'' @ Join es ''/'')"
    using ds d Join_append [of ds es "''/''"] by (auto simp: Clean_def render_path_def)
qed

text \<open>What lies below a directory, and the directories it lies in, stay in or above it.\<close>

lemma below_PathDir:
  assumes "named_dir d" and "below_dir (Clean d) p"
  shows "PathDir p = Clean d \<or> below_dir (Clean d) (PathDir p)"
proof -
  obtain es e where es: "list_all name_ok (es @ [e])" "p = Clean d @ ''/'' @ Join (es @ [e]) ''/''"
    using assms(2) unfolding below_dir_def by (metis append_butlast_last_id)
  obtain r ds where d: "parse_path d = (r, ds)" by (cases "parse_path d")
  have "p = render_path (r, (ds @ es) @ [e])" "canonical (r, (ds @ es) @ [e])"
    using below_render [OF assms(1) es(1) d] es(2) by simp_all
  then have "PathDir p = render_path (r, ds @ es)" using PathDir_render by blast
  moreover have "render_path (r, ds @ es) = Clean d @ (if es = [] then [] else ''/'' @ Join es ''/'')"
    using below_render(1) [OF assms(1) _ d] es(1) by simp
  ultimately show ?thesis using es(1) by (auto simp: below_dir_def)
qed

lemma ancestors_in_dir:
  assumes "named_dir d" and "p = Clean d \<or> below_dir (Clean d) p" and "a \<in> set (ancestors p)"
  shows "a \<in> set (ancestors (Clean d)) \<or> below_dir (Clean d) a"
  using assms ancestors_below [of a "Clean d"] unfolding below_dir_def by blast

section \<open>Instances\<close>

definition toy_fetch :: fetch_deps where
  "toy_fetch = \<lparr>NewRequest = (\<lambda>_. Inr ()), sha256_hex = (\<lambda>s. s)\<rparr>"

text \<open>Libraries for the witnesses: an archive of one program and one link, and a plain writer.\<close>

definition toy_archive :: tar_stream where
  "toy_archive =
     ([(\<lparr>Name = ''LLVM/bin/clang'', Typeflag = TypeReg, Linkname = [], Mode = 493, Uid = 0, Gid = 0\<rparr>, [''elf''], None),
       (\<lparr>Name = ''LLVM/bin/cc'', Typeflag = TypeSymlink, Linkname = ''clang'', Mode = 511, Uid = 0, Gid = 0\<rparr>, [], None)], None)"

definition toy_lib :: "unit host_deps" where
  "toy_lib =
     \<lparr>fetching = toy_fetch, WriteFile = (\<lambda>p data. os_WriteFile p data 384),
      XzTar = (\<lambda>r. Inr toy_archive), ZstdTar = (\<lambda>r. Inr toy_archive), pathcheck_Validate = (\<lambda>_. Inr ()),
      Readdirnames = (\<lambda>f d. []), GlobDirs = (\<lambda>p f. Inr []), Getwd = Inr ''/w'', build_sh = ''#!''\<rparr>"

definition host_world :: "fsys \<Rightarrow> net_reply list \<Rightarrow> host" where
  "host_world f replies =
     \<lparr>fs = f, hist = [], log = [], faults = [], umask = 18, now = 0, cancel_at = None, net = replies\<rparr>"

definition empty_lib :: "unit host_deps" where
  "empty_lib = toy_lib\<lparr>XzTar := (\<lambda>r. Inr ([], None))\<rparr>"

lemma empty_lib_WriteFile: "WriteFile empty_lib p data = os_WriteFile p data 384"
  by (simp add: empty_lib_def toy_lib_def)

lemma empty_lib_writes: "writes_files empty_lib (\<lambda>_. {})"
proof -
  have "keeps (disk_inv R) (WriteFile empty_lib p data)" if "blind R p" for p data R
    unfolding empty_lib_WriteFile using that by (rule keeps_WriteFile)
  moreover have "\<exists>m. fs w' p = Some (NFile data m)" if "WriteFile empty_lib p data w = (Inr u, w')" for p data w u w'
    using that unfolding empty_lib_WriteFile by (rule WriteFile_ok)
  moreover have "leaves q (WriteFile empty_lib p data)" if "q \<noteq> p" for p data q
    unfolding empty_lib_WriteFile using that by (intro leaves_WriteFile) simp
  ultimately show ?thesis unfolding writes_files_def by (intro conjI allI impI)
qed

lemma toy_lib_WriteFile: "WriteFile toy_lib p data = os_WriteFile p data 384"
  by (simp add: toy_lib_def)

lemma toy_lib_writes: "writes_files toy_lib (\<lambda>_. {})"
proof -
  have "keeps (disk_inv R) (WriteFile toy_lib p data)" if "blind R p" for p data R
    unfolding toy_lib_WriteFile using that by (rule keeps_WriteFile)
  moreover have "\<exists>m. fs w' p = Some (NFile data m)" if "WriteFile toy_lib p data w = (Inr u, w')" for p data w u w'
    using that unfolding toy_lib_WriteFile by (rule WriteFile_ok)
  moreover have "leaves q (WriteFile toy_lib p data)" if "q \<noteq> p" for p data q
    unfolding toy_lib_WriteFile using that by (intro leaves_WriteFile) simp
  ultimately show ?thesis unfolding writes_files_def by (intro conjI allI impI)
qed

definition old_pin :: config where
  "old_pin = \<lparr>LogLevel = [], KernelConfig = [], KernelPatches = [], Out = [], LocalVer = [], InitBin = [],
     KataURL = [], KataSHA = [], Image = [], DebianSuite = [], AptSnapshot = [], SourceURL = [], SourceSHA = [],
     LLVMURL = [], LLVMSHA = ''a1''\<rparr>"

end
