(* ===== verification/Host_Stage.thy ===== *)
theory Host_Stage
  imports Host_Config "HOL-Library.List_Lexorder" "HOL-Library.Char_ord"
begin

text \<open>
  \<^verbatim>\<open>cmd/ossein-kernel/main.go\<close>, the staging of the build's share: copying files,
  the patch set, the work directory and the environment handed to the guest.
\<close>

section \<open>Copying\<close>

definition copyFile :: "'z host_deps \<Rightarrow> string \<Rightarrow> string \<Rightarrow> (unit, 'z) hio" where
  "copyFile lib src dst =
     tryE (os_ReadFile src) (wrap (''read '' @ src @ '': '')) (\<lambda>data.
     tryE (os_MkdirAll (PathDir dst)) (wrap (''create dir for '' @ dst @ '': '')) (\<lambda>_.
     WriteFile lib dst data))"

definition copyExecutable :: "'z host_deps \<Rightarrow> string \<Rightarrow> string \<Rightarrow> (unit, 'z) hio" where
  "copyExecutable lib src dst =
     tryE (os_Stat src) (wrap (''stat '' @ src @ '': '')) (\<lambda>info.
     tryE (copyFile lib src dst) id (\<lambda>_.
     tryE (os_Chmod dst (node_mode info AND 511)) (wrap (''chmod '' @ dst @ '': '')) (\<lambda>_. ret ())))"

section \<open>The patch set\<close>

text \<open>
  \<^verbatim>\<open>filepath.Glob\<close> for a pattern whose last element is \<open>*.patch\<close>: a directory that
  cannot be read, or is none, matches nothing, and a listing that fails half way counts as
  far as it got. A directory whose own name holds a metacharacter is a pattern too: the
  directories it matches, or the error for a malformed one, are a parameter. The star matches any name without a slash, a leading dot included.
\<close>

definition has_meta :: "string \<Rightarrow> bool" where
  "has_meta p \<longleftrightarrow> list_ex (\<lambda>c. c \<in> set [CHR ''*'', CHR ''?'', CHR ''['', CHR 0x5C]) p"

definition cleanGlobPath :: "string \<Rightarrow> string" where
  "cleanGlobPath p = (if p = [] then ''.'' else if p = ''/'' then p else butlast p)"

definition is_patch :: "string \<Rightarrow> bool" where
  "is_patch n \<longleftrightarrow> HasSuffix n ''.patch''"

definition glob_dir :: "'z host_deps \<Rightarrow> string \<Rightarrow> (string list, 'z) hio" where
  "glob_dir lib dir =
     catchE (os_Stat dir) (\<lambda>_. ret []) (\<lambda>fi.
     if fi \<noteq> NDir then ret []
     else (\<lambda>w. case next_fault w of
             (Fail e n ps, w) \<Rightarrow>
               (Inr (map (PathJoin dir) (filter is_patch (sort (take n (Readdirnames lib (fs w) dir))))), w)
           | (Pass, w) \<Rightarrow>
               (Inr (map (PathJoin dir) (filter is_patch (sort (Readdirnames lib (fs w) dir)))), w)))"

fun glob_dirs :: "'z host_deps \<Rightarrow> string list \<Rightarrow> (string list, 'z) hio" where
  "glob_dirs lib [] = ret []"
| "glob_dirs lib (d # ds) =
     tryE (glob_dir lib d) id (\<lambda>ps. tryE (glob_dirs lib ds) id (\<lambda>qs. ret (ps @ qs)))"

definition glob_patches :: "'z host_deps \<Rightarrow> string \<Rightarrow> (string list, 'z) hio" where
  "glob_patches lib pattern =
     (let dir = cleanGlobPath (fst (PathSplit pattern))
      in if \<not> has_meta dir then glob_dir lib dir
         else (\<lambda>w. tryE (\<lambda>w. (GlobDirs lib dir (fs w), w)) id (glob_dirs lib) w))"

definition stagePatches :: "'z host_deps \<Rightarrow> string \<Rightarrow> string \<Rightarrow> (unit, 'z) hio" where
  "stagePatches lib srcDir destDir =
     tryE (glob_patches lib (PathJoin srcDir ''*.patch'')) (wrap (''glob patches in '' @ srcDir @ '': '')) (\<lambda>found.
     let patches = sort found
     in tryE (os_RemoveAll destDir) (wrap ''clear patch dir: '') (\<lambda>_.
        tryE (os_MkdirAll destDir) (wrap ''create patch dir: '') (\<lambda>_.
        forE patches (\<lambda>p. copyFile lib p (PathJoin destDir (PathBase p))))))"

section \<open>The work directory\<close>

definition statusFile :: string where "statusFile = ''status''"
definition buildLogFile :: string where "buildLogFile = ''build.log''"

definition sourceTarball :: "string \<Rightarrow> config \<Rightarrow> string" where
  "sourceTarball workdir cfg = cachePath (PathJoin workdir ''source.tar.xz'') (SourceSHA cfg)"

definition build_env :: "string \<Rightarrow> config \<Rightarrow> string list" where
  "build_env workdir cfg =
     [''LOCALVERSION=-'' @ TrimLeft (LocalVer cfg) ''-'',
      ''OSSEIN_DEBIAN_SUITE='' @ DebianSuite cfg,
      ''OSSEIN_APT_SNAPSHOT='' @ AptSnapshot cfg,
      ''OSSEIN_SOURCE_TARBALL='' @ PathBase (sourceTarball workdir cfg)]"

definition env_text :: "string \<Rightarrow> config \<Rightarrow> string" where
  "env_text workdir cfg = Join (build_env workdir cfg) [CHR 0x0A] @ [CHR 0x0A]"

definition stageWorkdir :: "'z host_deps \<Rightarrow> config \<Rightarrow> string \<Rightarrow> (unit, 'z) hio" where
  "stageWorkdir lib cfg workdir =
     tryE (os_MkdirAll workdir) (wrap (''create workdir '' @ workdir @ '': '')) (\<lambda>_.
     tryE (WriteFile lib (PathJoin workdir ''build.sh'') (build_sh lib)) id (\<lambda>_.
     tryE (copyFile lib (KernelConfig cfg) (PathJoin workdir ''kernel-fragment'')) id (\<lambda>_.
     tryE (stagePatches lib (KernelPatches cfg) (PathJoin workdir ''patches'')) id (\<lambda>_.
     tryE (WriteFile lib (PathJoin workdir ''build.env'') (env_text workdir cfg)) id (\<lambda>_.
     ignoreE (os_Remove (PathJoin workdir statusFile)) (
     ignoreE (os_Remove (PathJoin workdir buildLogFile)) (ret ())))))))"

end
