(* ===== verification/Vm.thy ===== *)
theory Vm
  imports Go_Effect Go_Strconv "HOL-Library.Word"
begin

text \<open>
  \<^verbatim>\<open>internal/vm/vm.go\<close>: the microVM. The Virtualization.framework binding is a
  parameter: which of its calls fail, and what it says of a configuration when asked to
  validate it. The configuration the calls assemble is a record. The two waits are loops
  over the events the framework and the clock deliver.
\<close>

section \<open>Configuration\<close>

record Share =
  Tag :: string
  ShareDir :: string
  ReadOnly :: bool

text \<open>The console is the sink's name; \<open>None\<close> is the nil that means discard.\<close>

record vm_config =
  Kernel :: string
  RootDisk :: string
  Init :: string
  CPUs :: "64 word"
  Memory :: "64 word"
  Cmdline :: "string list"
  Shares :: "Share list"
  Network :: bool
  Console :: "string option"

definition boot_contract :: "string \<Rightarrow> string list" where
  "boot_contract init =
     [''console=hvc0'', ''panic=-1'', ''mitigations=off'', ''root=/dev/vda'', ''ro'',
      ''rootfstype=ext4'', ''init='' @ init]"

definition cmdline :: "vm_config \<Rightarrow> string" where
  "cmdline cfg = Join (boot_contract (Init cfg) @ Cmdline cfg) '' ''"

datatype vz_call =
    NewLinuxBootLoader string string
  | NewVirtualMachineConfiguration "64 word" "64 word"
  | NewDiskImageStorageDeviceAttachment string bool
  | NewVirtioBlockDeviceConfiguration
  | OpenDevNullWrite
  | OpenDevNullRead
  | NewFileHandleSerialPortAttachment
  | NewVirtioConsoleDeviceSerialPortConfiguration
  | NewVirtioEntropyDeviceConfiguration
  | NewNATNetworkDeviceAttachment
  | NewVirtioNetworkDeviceConfiguration
  | NewVirtioFileSystemDeviceConfiguration string
  | NewSharedDirectory string bool
  | NewSingleDirectoryShare string
  | NewVirtualMachine

text \<open>What the framework's configuration object holds after the \<^verbatim>\<open>Set\<dots>\<close> calls.\<close>

record vmc =
  vmc_boot :: "string \<times> string"
  vmc_cpus :: "64 word"
  vmc_memory :: "64 word"
  vmc_storage :: "(string \<times> bool) list"
  vmc_serial :: "string list"
  vmc_entropy :: nat
  vmc_network :: nat
  vmc_shares :: "(string \<times> string \<times> bool) list"

record vz =
  vz_fail :: "vz_call \<Rightarrow> goerr option"
  vz_Validate :: "vmc \<Rightarrow> bool \<times> goerr option"

definition call :: "vz \<Rightarrow> vz_call \<Rightarrow> unit result" where
  "call vz c = (case vz_fail vz c of None \<Rightarrow> Inr () | Some e \<Rightarrow> Inl e)"

definition dev_null :: string where "dev_null = ''/dev/null''"

definition configureStorage :: "vz \<Rightarrow> vmc \<Rightarrow> vm_config \<Rightarrow> vmc result" where
  "configureStorage vz v cfg =
     tryR (call vz (NewDiskImageStorageDeviceAttachment (RootDisk cfg) True))
       (wrap (''root disk '' @ RootDisk cfg @ '': '')) (\<lambda>_.
     tryR (call vz NewVirtioBlockDeviceConfiguration) (wrap (''root blk '' @ RootDisk cfg @ '': '')) (\<lambda>_.
     Inr (v\<lparr>vmc_storage := [(RootDisk cfg, True)]\<rparr>)))"

definition configureConsole :: "vz \<Rightarrow> vmc \<Rightarrow> vm_config \<Rightarrow> vmc result" where
  "configureConsole vz v cfg =
     tryR (case Console cfg of
             Some sink \<Rightarrow> Inr sink
           | None \<Rightarrow> tryR (call vz OpenDevNullWrite) (wrap (''open '' @ dev_null @ '': '')) (\<lambda>_. Inr dev_null)) id (\<lambda>write.
     tryR (call vz OpenDevNullRead) (wrap (''open '' @ dev_null @ '': '')) (\<lambda>_.
     tryR (call vz NewFileHandleSerialPortAttachment) (wrap ''console attachment: '') (\<lambda>_.
     tryR (call vz NewVirtioConsoleDeviceSerialPortConfiguration) (wrap ''console: '') (\<lambda>_.
     Inr (v\<lparr>vmc_serial := [write]\<rparr>)))))"

definition configureNAT :: "vz \<Rightarrow> vmc \<Rightarrow> vmc result" where
  "configureNAT vz v =
     tryR (call vz NewNATNetworkDeviceAttachment) (wrap ''nat attachment: '') (\<lambda>_.
     tryR (call vz NewVirtioNetworkDeviceConfiguration) (wrap ''net device: '') (\<lambda>_.
     Inr (v\<lparr>vmc_network := 1\<rparr>)))"

fun share_devices :: "vz \<Rightarrow> Share list \<Rightarrow> (string \<times> string \<times> bool) list result" where
  "share_devices vz [] = Inr []"
| "share_devices vz (share # rest) =
     tryR (call vz (NewVirtioFileSystemDeviceConfiguration (Tag share)))
       (wrap (''virtiofs '' @ Tag share @ '': '')) (\<lambda>_.
     tryR (call vz (NewSharedDirectory (ShareDir share) (ReadOnly share)))
       (wrap (''shared dir '' @ ShareDir share @ '': '')) (\<lambda>_.
     tryR (call vz (NewSingleDirectoryShare (ShareDir share)))
       (wrap (''share '' @ ShareDir share @ '': '')) (\<lambda>_.
     tryR (share_devices vz rest) id (\<lambda>ds.
     Inr ((Tag share, ShareDir share, ReadOnly share) # ds)))))"

definition configureShares :: "vz \<Rightarrow> vmc \<Rightarrow> vm_config \<Rightarrow> vmc result" where
  "configureShares vz v cfg =
     (if length (Shares cfg) = 0 then Inr v
      else tryR (share_devices vz (Shares cfg)) id (\<lambda>ds. Inr (v\<lparr>vmc_shares := ds\<rparr>)))"

definition New :: "vz \<Rightarrow> vm_config \<Rightarrow> vmc result" where
  "New vz cfg =
     tryR (call vz (NewLinuxBootLoader (Kernel cfg) (cmdline cfg))) (wrap ''bootloader: '') (\<lambda>_.
     tryR (call vz (NewVirtualMachineConfiguration (CPUs cfg) (Memory cfg))) (wrap ''vm configuration: '') (\<lambda>_.
     let v = \<lparr>vmc_boot = (Kernel cfg, cmdline cfg), vmc_cpus = CPUs cfg, vmc_memory = Memory cfg,
              vmc_storage = [], vmc_serial = [], vmc_entropy = 0, vmc_network = 0, vmc_shares = []\<rparr>
     in
     tryR (configureStorage vz v cfg) id (\<lambda>v.
     tryR (configureConsole vz v cfg) id (\<lambda>v.
     tryR (call vz NewVirtioEntropyDeviceConfiguration) (wrap ''entropy: '') (\<lambda>_.
     let v = v\<lparr>vmc_entropy := 1\<rparr> in
     tryR (if Network cfg then configureNAT vz v else Inr v) id (\<lambda>v.
     tryR (configureShares vz v cfg) id (\<lambda>v.
     case vz_Validate vz v of (ok, err) \<Rightarrow>
       if \<not> ok \<or> err \<noteq> None then
         Inl (Errorf ''configuration invalid: '' (case err of None \<Rightarrow> [] | Some e \<Rightarrow> [e]))
       else tryR (call vz NewVirtualMachine) (wrap ''new vm: '') (\<lambda>_. Inr v))))))))"

section \<open>Event loops\<close>

text \<open>
  A \<^verbatim>\<open>for { select { \<dots> } }\<close> loop: each event either decides the result or is
  passed over; a run over a sequence of events that none decides is still waiting
  (\<open>None\<close>).
\<close>

locale select_loop =
  fixes react :: "'e \<Rightarrow> 'r option"
    and loop :: "'e list \<Rightarrow> 'r option"
  assumes loop_Nil: "loop [] = None"
    and loop_Cons: "loop (e # es) = (case react e of Some r \<Rightarrow> Some r | None \<Rightarrow> loop es)"
begin

lemma loop_append: "loop (es @ fs) = (case loop es of Some r \<Rightarrow> Some r | None \<Rightarrow> loop fs)"
  by (induction es) (auto simp: loop_Nil loop_Cons split: option.split)

lemma loop_waits: "loop es = None \<longleftrightarrow> (\<forall>e \<in> set es. react e = None)"
  by (induction es) (auto simp: loop_Nil loop_Cons split: option.split)

lemma loop_first:
  "loop es = Some r \<Longrightarrow>
     \<exists>before e after. es = before @ e # after \<and> (\<forall>x \<in> set before. react x = None) \<and> react e = Some r"
proof (induction es)
  case Nil
  then show ?case by (simp add: loop_Nil)
next
  case (Cons x es)
  show ?case
  proof (cases "react x")
    case None
    with Cons obtain before e after
      where "es = before @ e # after" "\<forall>x \<in> set before. react x = None" "react e = Some r"
      by (auto simp: loop_Cons)
    with None show ?thesis
      by (intro exI [of _ "x # before"] exI [of _ e] exI [of _ after]) simp
  next
    case (Some q)
    with Cons show ?thesis
      by (intro exI [of _ "[]"] exI [of _ x] exI [of _ es]) (simp add: loop_Cons)
  qed
qed

lemma loop_decided:
  "loop es = Some r \<longleftrightarrow>
     (\<exists>before e after. es = before @ e # after \<and> (\<forall>x \<in> set before. react x = None) \<and> react e = Some r)"
proof
  assume "\<exists>before e after. es = before @ e # after \<and> (\<forall>x \<in> set before. react x = None) \<and> react e = Some r"
  then obtain before e after
    where es: "es = before @ e # after" "\<forall>x \<in> set before. react x = None" "react e = Some r" by blast
  then have "loop before = None" using loop_waits by blast
  with es show "loop es = Some r" by (simp add: loop_append loop_Cons)
qed (rule loop_first)

lemma loop_returns: "e \<in> set es \<Longrightarrow> react e \<noteq> None \<Longrightarrow> \<exists>r. loop es = Some r"
  using loop_waits [of es] by (cases "loop es") auto

end

datatype vm_state = Stopped | Running | Paused | Error | Starting | Pausing | Resuming | Stopping | OtherState nat

definition errStartFailed :: goerr where
  "errStartFailed = ErrNew ''vm failed to reach running state''"

definition errRunError :: goerr where "errRunError = ErrNew ''vm entered error state''"

text \<open>
  What can happen while \<^verbatim>\<open>Start\<close> waits: a state change, or the deadline, when the
  state is asked for once (and a second time for the error's text). The framework's name for
  the state, which the errors' texts include, is left out.
\<close>

datatype start_event = StateChanged vm_state | Deadline vm_state vm_state

fun start_react :: "start_event \<Rightarrow> unit result option" where
  "start_react (StateChanged s) =
     (if s = Running then Some (Inr ())
      else if s = Error \<or> s = Stopped then Some (Inl (Errorf '': entered state during start'' [errStartFailed]))
      else None)"
| "start_react (Deadline s s') =
     (if s = Running then Some (Inr ()) else Some (Inl (Errorf '': state at deadline'' [errStartFailed])))"

fun start_loop :: "start_event list \<Rightarrow> unit result option" where
  "start_loop [] = None"
| "start_loop (e # es) = (case start_react e of Some r \<Rightarrow> Some r | None \<Rightarrow> start_loop es)"

text \<open>
  \<^verbatim>\<open>startTimeout\<close>, in milliseconds, and what the loop sees of a machine: the changes of
  its state, each with its time since the start, until the deadline, when the state is asked
  for. A change at the very millisecond of the deadline is taken to be late.
\<close>

definition startTimeout :: nat where "startTimeout = 30000"

type_synonym start_watch = "(nat \<times> vm_state) list \<times> (vm_state \<times> vm_state)"

definition start_events :: "start_watch \<Rightarrow> start_event list" where
  "start_events watch =
     (case watch of (changes, s, s') \<Rightarrow>
        map (\<lambda>(t, c). StateChanged c) (takeWhile (\<lambda>(t, c). t < startTimeout) changes) @ [Deadline s s'])"

definition Start :: "goerr option \<Rightarrow> start_event list \<Rightarrow> unit result option" where
  "Start failed events =
     (case failed of Some e \<Rightarrow> Some (Inl (wrap ''start: '' e)) | None \<Rightarrow> start_loop events)"

text \<open>The machine as \<^verbatim>\<open>Stop\<close> finds it; the flag tells whether a hard stop was issued.\<close>

record machine =
  m_state :: vm_state
  m_CanStop :: bool
  m_StopErr :: "goerr option"

definition Stop :: "machine \<Rightarrow> unit result \<times> bool" where
  "Stop m =
     (if m_state m = Stopped then (Inr (), False)
      else if m_CanStop m then
        (case m_StopErr m of Some e \<Rightarrow> (Inl (wrap ''stopping vm: '' e), True) | None \<Rightarrow> (Inr (), True))
      else (Inr (), False))"

datatype wait_event = Changed vm_state | CtxDone goerr machine

text \<open>The result of the wait, with whether it hard-stopped the machine.\<close>

fun wait_react :: "wait_event \<Rightarrow> (unit result \<times> bool) option" where
  "wait_react (Changed s) =
     (if s = Stopped then Some (Inr (), False)
      else if s = Error then Some (Inl errRunError, False)
      else None)"
| "wait_react (CtxDone e m) = Some (Inl (wrap ''vm wait cancelled: '' e), snd (Stop m))"

fun Wait :: "wait_event list \<Rightarrow> (unit result \<times> bool) option" where
  "Wait [] = None"
| "Wait (e # es) = (case wait_react e of Some r \<Rightarrow> Some r | None \<Rightarrow> Wait es)"

interpretation starting: select_loop start_react start_loop
  by unfold_locales simp_all

interpretation waiting: select_loop wait_react Wait
  by unfold_locales simp_all

section \<open>Lemmas\<close>

lemma share_devices_ok:
  "share_devices vz ss = Inr ds \<Longrightarrow> ds = map (\<lambda>s. (Tag s, ShareDir s, ReadOnly s)) ss"
  by (induction ss arbitrary: ds) (auto simp: tryR_Inr)

text \<open>What a configuration that \<^verbatim>\<open>New\<close> accepts looks like.\<close>

lemma New_shape:
  assumes "New vz cfg = Inr v"
  shows "v = \<lparr>vmc_boot = (Kernel cfg, cmdline cfg), vmc_cpus = CPUs cfg, vmc_memory = Memory cfg,
      vmc_storage = [(RootDisk cfg, True)],
      vmc_serial = [case Console cfg of Some sink \<Rightarrow> sink | None \<Rightarrow> dev_null],
      vmc_entropy = 1, vmc_network = (if Network cfg then 1 else 0),
      vmc_shares = map (\<lambda>s. (Tag s, ShareDir s, ReadOnly s)) (Shares cfg)\<rparr>
    \<and> vz_Validate vz v = (True, None)"
proof -
  have nat_ok: "configureNAT vz u = Inr u' \<Longrightarrow> u' = u\<lparr>vmc_network := 1\<rparr>" for u u'
    by (auto simp: configureNAT_def tryR_Inr)
  have shares_ok: "configureShares vz u cfg = Inr u' \<Longrightarrow> vmc_shares u = [] \<Longrightarrow>
      u' = u\<lparr>vmc_shares := map (\<lambda>s. (Tag s, ShareDir s, ReadOnly s)) (Shares cfg)\<rparr>" for u u'
    by (auto simp: configureShares_def tryR_Inr split: if_splits dest: share_devices_ok)
  have console_ok: "configureConsole vz u cfg = Inr u' \<Longrightarrow>
      u' = u\<lparr>vmc_serial := [case Console cfg of Some sink \<Rightarrow> sink | None \<Rightarrow> dev_null]\<rparr>" for u u'
    by (auto simp: configureConsole_def tryR_Inr split: option.splits)
  have storage_ok: "configureStorage vz u cfg = Inr u' \<Longrightarrow> u' = u\<lparr>vmc_storage := [(RootDisk cfg, True)]\<rparr>" for u u'
    by (auto simp: configureStorage_def tryR_Inr)
  let ?v = "\<lparr>vmc_boot = (Kernel cfg, cmdline cfg), vmc_cpus = CPUs cfg, vmc_memory = Memory cfg,
      vmc_storage = [], vmc_serial = [], vmc_entropy = 0, vmc_network = 0, vmc_shares = []\<rparr>"
  from assms obtain v1 v2 v3 v4
    where v1: "configureStorage vz ?v cfg = Inr v1"
      and v2: "configureConsole vz v1 cfg = Inr v2"
      and v3: "(if Network cfg then configureNAT vz (v2\<lparr>vmc_entropy := 1\<rparr>) else Inr (v2\<lparr>vmc_entropy := 1\<rparr>)) = Inr v3"
      and v4: "configureShares vz v3 cfg = Inr v4"
      and val: "(case vz_Validate vz v4 of (ok, err) \<Rightarrow>
         if \<not> ok \<or> err \<noteq> None then
           Inl (Errorf ''configuration invalid: '' (case err of None \<Rightarrow> [] | Some e \<Rightarrow> [e]))
         else tryR (call vz NewVirtualMachine) (wrap ''new vm: '') (\<lambda>_. Inr v4)) = Inr v"
    unfolding New_def Let_def tryR_Inr by blast
  have v: "v = v4" "vz_Validate vz v = (True, None)"
    using val by (auto simp: tryR_Inr split: prod.splits if_splits)
  have s3: "v3 = v2\<lparr>vmc_entropy := 1, vmc_network := (if Network cfg then 1 else 0)\<rparr>"
    using v3 storage_ok [OF v1] console_ok [OF v2] by (auto split: if_splits dest!: nat_ok)
  then have "vmc_shares v3 = []" using storage_ok [OF v1] console_ok [OF v2] by simp
  from shares_ok [OF v4 this] s3 show ?thesis
    using v storage_ok [OF v1] console_ok [OF v2] by simp
qed

lemma boot_contract_words: "word_ok (''init='' @ init) \<Longrightarrow> list_all word_ok (boot_contract init)"
  by (simp add: boot_contract_def word_ok_def printable_def)

text \<open>The guest's fields of the command line are the arguments the host joined.\<close>

lemma Fields_cmdline:
  assumes "list_all printable (Init cfg)" and "list_all word_ok (Cmdline cfg)"
  shows "Fields (cmdline cfg @ [CHR 0x0A]) = boot_contract (Init cfg) @ Cmdline cfg"
proof -
  have "word_ok (''init='' @ Init cfg)"
    using assms(1) by (simp add: word_ok_def printable_def)
  then show ?thesis
    unfolding cmdline_def using assms(2)
    by (intro Fields_Join_newline) (simp add: boot_contract_words)
qed

text \<open>The deadline decides, if nothing did before.\<close>

lemma Start_in_time: "\<exists>r. Start failed (start_events watch) = Some r"
proof -
  obtain changes s s' where w: "watch = (changes, s, s')" by (cases watch) auto
  have "Deadline s s' \<in> set (start_events watch)" by (simp add: w start_events_def)
  moreover have "start_react (Deadline s s') \<noteq> None" by simp
  ultimately show ?thesis using starting.loop_returns by (cases failed) (auto simp: Start_def)
qed

section \<open>What the machine guarantees\<close>

text \<open>
  C36. A machine that \<^verbatim>\<open>New\<close> builds has its root disk attached read-only and nothing
  else attached, a network device if and only if one was asked for, exactly the shares that
  were asked for in their order, and the console, so that a guest can write nowhere but to
  the shares that are not read-only; and the framework has validated it.
\<close>

theorem vm_configuration_built:
  assumes "New vz cfg = Inr v"
  shows "vmc_storage v = [(RootDisk cfg, True)] \<and> vmc_network v = (if Network cfg then 1 else 0) \<and>
     vmc_shares v = map (\<lambda>s. (Tag s, ShareDir s, ReadOnly s)) (Shares cfg) \<and>
     vmc_boot v = (Kernel cfg, cmdline cfg) \<and> vmc_serial v \<noteq> [] \<and> vz_Validate vz v = (True, None)"
  using New_shape [OF assms, THEN conjunct1] New_shape [OF assms, THEN conjunct2] by simp

definition open_vz :: vz where
  "open_vz = \<lparr>vz_fail = (\<lambda>c. None), vz_Validate = (\<lambda>v. (True, None))\<rparr>"

definition quiet_vm :: vm_config where
  "quiet_vm = \<lparr>Kernel = ''k'', RootDisk = ''d'', Init = ''/i'', CPUs = 1, Memory = 1, Cmdline = [],
     Shares = [\<lparr>Tag = ''kernel'', ShareDir = ''w'', ReadOnly = False\<rparr>], Network = False, Console = None\<rparr>"

lemma vm_configuration_built_witness:
  "\<exists>v. New open_vz quiet_vm = Inr v \<and> vmc_storage v = [(''d'', True)] \<and> vmc_network v = 0"
proof -
  have "is_ok (New open_vz quiet_vm)" by code_simp
  then obtain v where v: "New open_vz quiet_vm = Inr v" unfolding is_ok_iff by blast
  from vm_configuration_built [OF v] v show ?thesis by (simp add: quiet_vm_def)
qed

text \<open>
  C37. Waiting for a machine ends exactly at the first event that is a stop, an error or a
  cancellation, and this event alone decides the result: a clean stop is success, the other
  two are errors, and only a cancellation stops the machine the hard way. Every other change
  of state is passed over.
\<close>

theorem wait_verdict:
  "Wait es = Some (r, hard) \<longleftrightarrow>
     (\<exists>before e after. es = before @ e # after \<and>
        (\<forall>x \<in> set before. \<exists>s. x = Changed s \<and> s \<noteq> Stopped \<and> s \<noteq> Error) \<and>
        (e = Changed Stopped \<and> r = Inr () \<and> \<not> hard \<or>
         e = Changed Error \<and> r = Inl errRunError \<and> \<not> hard \<or>
         (\<exists>err m. e = CtxDone err m \<and> r = Inl (wrap ''vm wait cancelled: '' err) \<and> hard = snd (Stop m))))"
proof -
  have p: "wait_react x = None \<longleftrightarrow> (\<exists>s. x = Changed s \<and> s \<noteq> Stopped \<and> s \<noteq> Error)" for x
    by (cases x) auto
  have d: "wait_react e = Some (r, hard) \<longleftrightarrow>
      e = Changed Stopped \<and> r = Inr () \<and> \<not> hard \<or>
      e = Changed Error \<and> r = Inl errRunError \<and> \<not> hard \<or>
      (\<exists>err m. e = CtxDone err m \<and> r = Inl (wrap ''vm wait cancelled: '' err) \<and> hard = snd (Stop m))" for e
    by (cases e) auto
  show ?thesis unfolding waiting.loop_decided p d by (rule refl)
qed

lemma wait_verdict_witness:
  "Wait [Changed Running, CtxDone (ErrNew ''c'') \<lparr>m_state = Running, m_CanStop = True, m_StopErr = None\<rparr>, Changed Stopped] =
     Some (Inl (wrap ''vm wait cancelled: '' (ErrNew ''c'')), True)"
  unfolding wait_verdict
  by (intro exI [of _ "[Changed Running]"] exI [of _ "CtxDone (ErrNew ''c'') \<lparr>m_state = Running, m_CanStop = True, m_StopErr = None\<rparr>"]
      exI [of _ "[Changed Stopped]"]) (simp add: Stop_def)

text \<open>
  C38. A start that the framework accepted returns as soon as the machine runs, stops or
  fails, and at the deadline at the latest, so it always returns; it succeeds only if the
  machine was seen running, by the deadline.
\<close>

theorem start_returns:
  "(\<forall>r. start_loop es = Some r \<longrightarrow> is_ok r \<longrightarrow> (\<exists>e \<in> set es. e = StateChanged Running \<or> (\<exists>s. e = Deadline Running s))) \<and>
   ((\<exists>e \<in> set es. e = StateChanged Running \<or> e = StateChanged Error \<or> e = StateChanged Stopped \<or> (\<exists>s s'. e = Deadline s s'))
      \<longleftrightarrow> Start None es \<noteq> None) \<and>
   (\<exists>r. Start failed (start_events watch) = Some r)"
proof -
  have p: "start_react x \<noteq> None \<longleftrightarrow>
      x = StateChanged Running \<or> x = StateChanged Error \<or> x = StateChanged Stopped \<or> (\<exists>s s'. x = Deadline s s')" for x
    by (cases x) auto
  have ok: "start_react x = Some r \<Longrightarrow> is_ok r \<Longrightarrow> x = StateChanged Running \<or> (\<exists>s. x = Deadline Running s)" for x r
    by (cases x) (auto split: if_splits)
  have "\<exists>e \<in> set es. e = StateChanged Running \<or> (\<exists>s. e = Deadline Running s)"
    if "start_loop es = Some r" "is_ok r" for r
    using that ok unfolding starting.loop_decided by fastforce
  moreover have "Start None es \<noteq> None \<longleftrightarrow> (\<exists>e \<in> set es. start_react e \<noteq> None)"
    using starting.loop_waits [of es] by (simp add: Start_def)
  moreover have "\<exists>r. Start failed (start_events watch) = Some r" by (rule Start_in_time)
  ultimately show ?thesis unfolding p by blast
qed

lemma start_returns_witness:
  "Start None [StateChanged Starting, Deadline Starting Starting] \<noteq> None"
  using start_returns [of "[StateChanged Starting, Deadline Starting Starting]"] by simp

end
