(* ===== verification/Host_Boot.thy ===== *)
theory Host_Boot
  imports Host_Stage Vm
begin

text \<open>
  \<^verbatim>\<open>cmd/ossein-kernel/main.go\<close>, the two virtual machines: the build and the boot
  test, the status they leave in their share, and the promotion of what they made. What a
  running machine does is a parameter in two steps: until it has started, and until it is
  over; each gives the events the waits see and may change the world (its guest writes to
  the shares).

  A start always returns (\<open>Start_in_time\<close>), but a wait that no event decides does not. The model then returns the pseudo-error
  \<open>hang\<close>, which no code of the repository makes: a result that is or wraps it stands for a
  run that is still waiting.
\<close>

section \<open>Booting\<close>

record 'z vm_deps =
  vz_lib :: vz
  vm_starting :: "vmc \<Rightarrow> 'z host_scheme \<Rightarrow> (goerr option \<times> start_watch) \<times> 'z host_scheme"
  vm_running :: "vmc \<Rightarrow> 'z host_scheme \<Rightarrow> wait_event list \<times> 'z host_scheme"
  vm_now :: "vmc \<Rightarrow> 'z host_scheme \<Rightarrow> machine"
  NumCPU :: int

definition hang :: goerr where "hang = ErrNew ''still waiting''"

definition errNoVmlinux :: goerr where "errNoVmlinux = ErrNew ''build produced no kernel-arm64''"

definition errNoPerf :: goerr where
  "errNoPerf = ErrNew ''build.sh succeeded but produced no perf-arm64''"

definition errSmokeExit :: goerr where "errSmokeExit = ErrNew ''boot smoke-test exited non-zero''"
definition errBuildExit :: goerr where "errBuildExit = ErrNew ''kernel build.sh exited non-zero''"
definition errNoStatus :: goerr where "errNoStatus = ErrNew ''guest wrote no status file''"

definition readStatus :: "string \<Rightarrow> (int, 'z) io" where
  "readStatus path =
     catchE (os_ReadFile path) (\<lambda>e. failE (Errorf ('' at '' @ path @ '': '') [errNoStatus, e])) (\<lambda>data.
     let trimmed = TrimSpace data
     in if trimmed = [] then failE (Errorf ('' at '' @ path @ '': empty'') [errNoStatus])
        else case Atoi trimmed of
               Inl e \<Rightarrow> failE (wrap (''parse guest status '' @ quoted trimmed @ '': '') e)
             | Inr code \<Rightarrow> ret code)"

text \<open>The deferred \<^verbatim>\<open>Stop\<close>: a hard stop that is issued is an event.\<close>

definition stop_vm :: "'z vm_deps \<Rightarrow> vmc \<Rightarrow> 'z host_scheme \<Rightarrow> 'z host_scheme" where
  "stop_vm vd vm w = (if snd (Stop (vm_now vd vm w)) then emit (EvVm ''stop'', True) w else w)"

definition boot :: "'z vm_deps \<Rightarrow> vmc \<Rightarrow> string \<Rightarrow> (int, 'z) hio" where
  "boot vd vm sharedDir w =
     (case vm_starting vd vm (emit (EvVm (fst (vmc_boot vm)), True) w) of ((failed, watch), w) \<Rightarrow>
        (case Start failed (start_events watch) of
           None \<Rightarrow> (Inl hang, w)
         | Some (Inl e) \<Rightarrow> (Inl e, w)
         | Some (Inr _) \<Rightarrow>
             (case vm_running vd vm w of (waiting_events, w) \<Rightarrow>
                (case Wait waiting_events of
                   None \<Rightarrow> (Inl hang, w)
                 | Some (Inl e, hard) \<Rightarrow>
                     (Inl (wrap ''vm wait: '' e),
                      stop_vm vd vm (if hard then emit (EvVm ''stop'', True) w else w))
                 | Some (Inr _, _) \<Rightarrow>
                     (case readStatus (PathJoin sharedDir statusFile) w of (r, w) \<Rightarrow>
                        (r, stop_vm vd vm w))))))"

section \<open>The build and the boot test\<close>

text \<open>The init of both machines; the disk builder has a constant of its own for where it puts it.\<close>

definition initGuestPath :: string where "initGuestPath = ''/ossein-init''"

definition buildVMMemory :: "64 word" where "buildVMMemory = 8589934592"  \<comment> \<open>8 GiB\<close>
definition smokeTestMemory :: "64 word" where "smokeTestMemory = 1073741824"  \<comment> \<open>1 GiB\<close>

definition build_vm :: "int \<Rightarrow> string \<Rightarrow> string \<Rightarrow> string \<Rightarrow> string \<Rightarrow> vm_config" where
  "build_vm numCPU bootstrap rootImage workdir llvmDir =
     \<lparr>Kernel = bootstrap, RootDisk = rootImage, Init = initGuestPath,
      CPUs = word_of_int (max (numCPU - 1) 1), Memory = buildVMMemory,
      Cmdline = [''ossein.net=1'', ''ossein.llvm=1''],
      Shares = [\<lparr>Tag = ''kernel'', ShareDir = workdir, ReadOnly = False\<rparr>,
                \<lparr>Tag = ''llvm'', ShareDir = llvmDir, ReadOnly = True\<rparr>],
      Network = True, Console = Some ''stdout''\<rparr>"

definition lift_result :: "'a result \<Rightarrow> ('a, 's) prog" where
  "lift_result r w = (r, w)"

definition buildKernel :: "'z vm_deps \<Rightarrow> string \<Rightarrow> string \<Rightarrow> string \<Rightarrow> string \<Rightarrow> (unit, 'z) hio" where
  "buildKernel vd bootstrap rootImage workdir llvmDir =
     tryE (lift_result (New (vz_lib vd) (build_vm (NumCPU vd) bootstrap rootImage workdir llvmDir))) id (\<lambda>vm.
     tryE (boot vd vm workdir) id (\<lambda>code.
     if code \<noteq> 0
     then failE (Errorf ('': status '' @ Itoa code @ '' (full guest output: '' @ PathJoin workdir buildLogFile @ '')'') [errBuildExit])
     else ret ()))"

definition smoke_script :: string where
  "smoke_script =
     ''#!/bin/bash'' @ [CHR 0x0A] @ ''set -e'' @ [CHR 0x0A] @
     ''echo '' @ [CHR 0x22] @ ''smoke: kernel $(uname -r) booted; userland OK'' @ [CHR 0x22, CHR 0x0A] @
     ''exit 0'' @ [CHR 0x0A]"

definition smoke_dir :: "string \<Rightarrow> string" where
  "smoke_dir env = PathJoin (scratchDir env) ''smoke''"

definition smoke_vm :: "string \<Rightarrow> string \<Rightarrow> string \<Rightarrow> vm_config" where
  "smoke_vm kernelPath rootImage smokeDir =
     \<lparr>Kernel = kernelPath, RootDisk = rootImage, Init = initGuestPath,
      CPUs = 1, Memory = smokeTestMemory, Cmdline = [],
      Shares = [\<lparr>Tag = ''kernel'', ShareDir = smokeDir, ReadOnly = False\<rparr>],
      Network = False, Console = Some ''stdout''\<rparr>"

definition smokeTest :: "'z vm_deps \<Rightarrow> 'z host_deps \<Rightarrow> string \<Rightarrow> string \<Rightarrow> string \<Rightarrow> (unit, 'z) hio" where
  "smokeTest vd lib env kernelPath rootImage =
     (let smokeDir = smoke_dir env
      in tryE (os_MkdirAll smokeDir) (wrap ''create smoke dir: '') (\<lambda>_.
         ignoreE (os_Remove (PathJoin smokeDir statusFile)) (
         tryE (WriteFile lib (PathJoin smokeDir ''build.sh'') smoke_script) id (\<lambda>_.
         tryE (lift_result (New (vz_lib vd) (smoke_vm kernelPath rootImage smokeDir))) id (\<lambda>vm.
         tryE (boot vd vm smokeDir) id (\<lambda>code.
         if code \<noteq> 0 then failE (Errorf ('': exit code '' @ Itoa code) [errSmokeExit]) else ret ()))))))"

section \<open>Promotion\<close>

definition promote :: "'z vm_deps \<Rightarrow> 'z host_deps \<Rightarrow> string \<Rightarrow> config \<Rightarrow> string \<Rightarrow> string \<Rightarrow> (unit, 'z) hio" where
  "promote vd lib env cfg workdir rootImage =
     (let built = PathJoin workdir ''kernel-arm64''
      in catchE (os_Stat built) (\<lambda>_. failE (Errorf ('' (looked in '' @ workdir @ '')'') [errNoVmlinux])) (\<lambda>_.
         tryE (smokeTest vd lib env built rootImage)
           (wrap (''built kernel failed its boot smoke-test '' @ [CHR 0xE2, CHR 0x80, CHR 0x94] @ '' NOT promoted to '' @ Out cfg @ '': '')) (\<lambda>_.
         tryE (copyFile lib built (Out cfg)) id (\<lambda>_.
         let builtPerf = PathJoin workdir ''perf-arm64''
         in catchE (os_Stat builtPerf) (\<lambda>_. failE (Errorf ('' (looked in '' @ workdir @ '')'') [errNoPerf])) (\<lambda>_.
            let perfOut = PathJoin (PathDir (Out cfg)) ''perf-arm64''
            in copyExecutable lib builtPerf perfOut)))))"

end
