(* ===== verification/Stage_Safety.thy ===== *)
theory Stage_Safety
  imports Host_Stage
begin

text \<open>
  What the staging guarantees: the patch directory the guest sees holds exactly the patches
  of the repository, and what a pattern made from a path can miss.
\<close>

section \<open>Copies\<close>

lemma RemoveAll_ok: "os_RemoveAll d w = (Inr u, w') \<Longrightarrow> fs w' = (\<lambda>p. if below d p then None else fs w p)"
  by (auto simp: os_RemoveAll_def fs_call_def set_fs_def emit_def split: prod.splits fault.splits dest!: next_fault_fs)

lemma leaves_copyFile:
  assumes "writes_files lib temps" and "q \<noteq> dst" and "q \<notin> temps dst" and "q \<notin> set (ancestors (PathDir dst))"
  shows "leaves q (copyFile lib src dst)"
  unfolding copyFile_def
  by (intro leaves_prog leaves_reads leaves_MkdirAll leaves_WriteFile_lib) (use assms in auto)

lemma copyFile_ok:
  assumes "writes_files lib temps" and "copyFile lib src dst w = (Inr u, w')"
  shows "\<exists>data m m'. fs w src = Some (NFile data m) \<and> fs w' dst = Some (NFile data m')"
proof -
  from assms(2) obtain data w1 v w2 where rd: "os_ReadFile src w = (Inr data, w1)"
    and "os_MkdirAll (PathDir dst) w1 = (Inr v, w2)" and wr: "WriteFile lib dst data w2 = (Inr u, w')"
    unfolding copyFile_def tryE_Inr by blast
  from ReadFile_ok [OF rd] writes_files_ok [OF assms(1) wr] show ?thesis by blast
qed

section \<open>The patch set\<close>

text \<open>The bytes of the file at a path, if there is a file.\<close>

definition bytes_at :: "fsys \<Rightarrow> string \<Rightarrow> string option" where
  "bytes_at f p = (case f p of Some (NFile b m) \<Rightarrow> Some b | _ \<Rightarrow> None)"

text \<open>A listing gives the names of the entries of a directory.\<close>

definition lists_names :: "'z host_deps \<Rightarrow> fsys \<Rightarrow> string \<Rightarrow> bool" where
  "lists_names lib f d \<longleftrightarrow> set (Readdirnames lib f d) = {n. name_ok n \<and> f (PathJoin d n) \<noteq> None}"

text \<open>
  The two directories of the staging: the patches lie neither below the copy nor above it,
  and the temporary names of the writer are not names of patches.
\<close>

definition patch_path :: "string \<Rightarrow> string \<Rightarrow> bool" where
  "patch_path d p \<longleftrightarrow> (\<exists>n. name_ok n \<and> is_patch n \<and> p = PathJoin d n)"

definition apart :: "string \<Rightarrow> string \<Rightarrow> (string \<Rightarrow> string set) \<Rightarrow> bool" where
  "apart S D temps \<longleftrightarrow>
     (\<forall>p. patch_path S p \<longrightarrow> \<not> below D p \<and> p \<notin> set (ancestors D)) \<and>
     (\<forall>n p. patch_path S p \<or> patch_path D p \<longrightarrow> p \<notin> temps (PathJoin D n))"

lemma PathJoin_below:
  assumes "named_dir D" and "Clean D = D" and "name_ok n"
  shows "PathJoin D n = D @ ''/'' @ n" and "PathDir (PathJoin D n) = D"
proof -
  obtain r ds where d: "parse_path D = (r, ds)" by (cases "parse_path D")
  have "ds \<noteq> []" "D \<noteq> []" using assms(1) d by (auto simp: named_dir_def parse_path_def)
  then have de: "dir_elems D = (r, ds)" "render_path (r, ds) = D"
    using d assms(2) by (simp_all add: dir_elems_def Clean_def)
  show "PathJoin D n = D @ ''/'' @ n"
    using PathJoin_name(1) [OF assms(3), of D] de \<open>ds \<noteq> []\<close>
    by (auto simp: render_path_def Join_snoc split: if_splits)
  show "PathDir (PathJoin D n) = D" using PathDir_PathJoin [OF assms(3)] assms(2) by simp
qed

lemma patch_below:
  "named_dir D \<Longrightarrow> Clean D = D \<Longrightarrow> name_ok n \<Longrightarrow> below D (PathJoin D n)"
  by (simp add: PathJoin_below below_def HasPrefix_def)

lemma not_own_ancestor: "named_dir D \<Longrightarrow> Clean D = D \<Longrightarrow> name_ok n \<Longrightarrow> PathJoin D n \<notin> set (ancestors D)"
  using PathJoin_below [of D n] by (auto simp: ancestors_iff dest: arg_cong [where f = length])

text \<open>One copy after the other.\<close>

lemma copies_ok:
  assumes "writes_files lib temps" and "apart S D temps" and "named_dir D" and "Clean D = D"
    and "\<forall>n \<in> set ns. name_ok n \<and> is_patch n"
    and "forE (map (PathJoin S) ns) (\<lambda>p. copyFile lib p (PathJoin D (PathBase p))) w = (Inr u, w')"
  shows "(\<forall>p. patch_path S p \<longrightarrow> fs w' p = fs w p) \<and>
     (\<forall>n. name_ok n \<and> is_patch n \<longrightarrow>
        (if n \<in> set ns then bytes_at (fs w') (PathJoin D n) = bytes_at (fs w) (PathJoin S n) \<and> bytes_at (fs w) (PathJoin S n) \<noteq> None
         else fs w' (PathJoin D n) = fs w (PathJoin D n)))"
  using assms(5,6)
proof (induction ns arbitrary: w)
  case Nil
  then show ?case by (simp add: ret_eq)
next
  case (Cons k ns)
  have k: "name_ok k" "is_patch k" using Cons.prems(1) by simp_all
  from Cons.prems(2) obtain v w1 where c: "copyFile lib (PathJoin S k) (PathJoin D k) w = (Inr v, w1)"
    and rest: "forE (map (PathJoin S) ns) (\<lambda>p. copyFile lib p (PathJoin D (PathBase p))) w1 = (Inr u, w')"
    by (auto simp: tryE_Inr PathBase_PathJoin [OF k(1)])
  have away: "fs w1 p = fs w p"
    if "patch_path S p \<or> patch_path D p" "p \<noteq> PathJoin D k" for p
  proof (rule leavesD [OF leaves_copyFile [OF assms(1) that(2)] c])
    show "p \<notin> temps (PathJoin D k)" using assms(2) that(1) by (auto simp: apart_def)
    show "p \<notin> set (ancestors (PathDir (PathJoin D k)))"
      using that(1) assms(2) not_own_ancestor [OF assms(3,4)] PathJoin_below(2) [OF assms(3,4) k(1)]
      by (auto simp: apart_def patch_path_def)
  qed
  have src: "fs w1 p = fs w p" if "patch_path S p" for p
    using that away [of p] patch_below [OF assms(3,4) k(1)] assms(2) by (auto simp: apart_def)
  have new: "bytes_at (fs w1) (PathJoin D k) = bytes_at (fs w) (PathJoin S k)" "bytes_at (fs w) (PathJoin S k) \<noteq> None"
    using copyFile_ok [OF assms(1) c] by (auto simp: bytes_at_def)
  note IH = Cons.IH [OF _ rest]
  have ns: "\<forall>n \<in> set ns. name_ok n \<and> is_patch n" using Cons.prems(1) by simp
  show ?case
  proof (intro conjI allI impI)
    fix p
    assume "patch_path S p"
    with IH [OF ns] src show "fs w' p = fs w p" by simp
  next
    fix n
    assume n: "name_ok n \<and> is_patch n"
    then have pp: "patch_path S (PathJoin S n)" "patch_path D (PathJoin D n)" by (auto simp: patch_path_def)
    have sb: "bytes_at (fs w1) (PathJoin S n) = bytes_at (fs w) (PathJoin S n)"
      using src [OF pp(1)] by (simp add: bytes_at_def)
    have kn: "PathJoin D n = PathJoin D k \<longleftrightarrow> n = k" using n k(1) by (blast intro: PathJoin_inj [THEN iffD1])
    have "fs w1 (PathJoin D n) = fs w (PathJoin D n)" if "n \<noteq> k" using that away [of "PathJoin D n"] pp(2) kn by blast
    with IH [OF ns] n sb new kn
    show "if n \<in> set (k # ns)
        then bytes_at (fs w') (PathJoin D n) = bytes_at (fs w) (PathJoin S n) \<and> bytes_at (fs w) (PathJoin S n) \<noteq> None
        else fs w' (PathJoin D n) = fs w (PathJoin D n)"
      by (cases "n = k"; cases "n \<in> set ns") (auto simp: bytes_at_def)
  qed
qed

lemma star_name: "name_ok ''*.patch''"
  by (simp add: name_ok_def elem_ok_def dot_def dotdot_def)

lemma glob_patches_calm:
  assumes "named_dir S" and "Clean S = S" and "\<not> has_meta S" and "faults w = []" and "fs w S = Some NDir"
  shows "glob_patches lib (PathJoin S ''*.patch'') w =
     (Inr (map (PathJoin S) (filter is_patch (sort (Readdirnames lib (fs w) S)))), w)"
proof -
  have S: "S \<noteq> []" using assms(1) by (auto simp: named_dir_def parse_path_def)
  have "CHR ''/'' \<notin> set ''*.patch''" by simp
  then have "fst (PathSplit (PathJoin S ''*.patch'')) = S @ ''/''"
    using PathJoin_below(1) [OF assms(1,2) star_name] PathSplit_slash [of "''*.patch''" S] by simp
  moreover have "cleanGlobPath (S @ ''/'') = S" using S by (simp add: cleanGlobPath_def)
  ultimately show ?thesis
    using assms(3-5)
    by (simp add: glob_patches_def glob_dir_def catchE_def os_Stat_def fs_read_def next_fault_def)
qed


text \<open>
  C11. After a staging that succeeds, the patch directory holds exactly the patches of the
  repository: a name that ends in \<^verbatim>\<open>.patch\<close> is there if and only if it is in the
  source directory, with the same bytes, and a patch that was left by an earlier run is gone.
\<close>

theorem patches_staged_exactly:
  assumes "stagePatches lib S D w = (Inr u, w')"
    and "writes_files lib temps" and "lists_names lib (fs w) S" and "apart S D temps"
    and "named_dir S" and "Clean S = S" and "named_dir D" and "Clean D = D"
    and "\<not> has_meta S" and "faults w = []" and "fs w S = Some NDir"
    and "name_ok n" and "is_patch n"
  shows "bytes_at (fs w') (PathJoin D n) = bytes_at (fs w) (PathJoin S n) \<and>
     (fs w' (PathJoin D n) = None \<longleftrightarrow> fs w (PathJoin S n) = None)"
proof -
  let ?found = "map (PathJoin S) (filter is_patch (sort (Readdirnames lib (fs w) S)))"
  have names: "set (Readdirnames lib (fs w) S) = {n. name_ok n \<and> fs w (PathJoin S n) \<noteq> None}"
    using assms(3) by (simp add: lists_names_def)
  have "\<forall>p \<in> set (sort ?found). \<exists>n. p = PathJoin S n \<and> n \<in> set (Readdirnames lib (fs w) S) \<and> is_patch n"
    by auto
  then obtain g where g: "\<forall>p \<in> set (sort ?found). p = PathJoin S (g p) \<and> g p \<in> set (Readdirnames lib (fs w) S) \<and> is_patch (g p)"
    by metis
  define ms where "ms = map g (sort ?found)"
  have ms: "sort ?found = map (PathJoin S) ms"
    unfolding ms_def map_map by (rule map_idI [symmetric]) (use g in auto)
  have ok: "\<forall>n \<in> set ms. name_ok n \<and> is_patch n" unfolding ms_def using g names by auto
  have mem: "n \<in> set ms \<longleftrightarrow> fs w (PathJoin S n) \<noteq> None"
  proof -
    have "n \<in> set ms \<longleftrightarrow> PathJoin S n \<in> PathJoin S ` set ms"
      using PathJoin_inj [of n _ S] assms(12) ok by blast
    also have "PathJoin S ` set ms = set (sort ?found)" unfolding ms by simp
    also have "PathJoin S n \<in> set (sort ?found) \<longleftrightarrow> n \<in> set (Readdirnames lib (fs w) S)"
      using PathJoin_inj [of n _ S] assms(12,13) names by auto
    finally show ?thesis using names assms(12) by simp
  qed
  from assms(1) obtain a w1 b w2 where
    rm: "os_RemoveAll D w = (Inr a, w1)" and mk: "os_MkdirAll D w1 = (Inr b, w2)" and
    cp: "forE (map (PathJoin S) ms) (\<lambda>p. copyFile lib p (PathJoin D (PathBase p))) w2 = (Inr u, w')"
    unfolding stagePatches_def tryE_Inr glob_patches_calm [OF assms(5,6,9,10,11)] Let_def
    by (auto simp: tryE_Inr ms)
  have w2: "fs w2 p = (if below D p then None else fs w p)" if "p \<notin> set (ancestors D)" for p
    using leavesD [OF leaves_MkdirAll [OF that] mk] RemoveAll_ok [OF rm] by simp
  have pp: "patch_path S (PathJoin S n)" using assms(12,13) by (auto simp: patch_path_def)
  have "fs w2 (PathJoin S n) = fs w (PathJoin S n)"
    using w2 [of "PathJoin S n"] assms(4) pp by (simp add: apart_def)
  moreover have "fs w2 (PathJoin D n) = None"
    using w2 [OF not_own_ancestor [OF assms(7,8,12)]] patch_below [OF assms(7,8,12)] by simp
  moreover note copies_ok [OF assms(2,4,7,8) ok cp, THEN conjunct2, rule_format, of n]
  ultimately show ?thesis using assms(12,13) mem by (auto simp: bytes_at_def split: if_splits option.splits)
qed

definition patch_lib :: "unit host_deps" where
  "patch_lib = toy_lib\<lparr>Readdirnames := (\<lambda>f d. [''README'', ''1.patch''])\<rparr>"

definition patch_world :: host where
  "patch_world = host_world [''p'' \<mapsto> NDir, ''p/README'' \<mapsto> NFile ''r'' 420, ''p/1.patch'' \<mapsto> NFile ''fix'' 420,
     ''w'' \<mapsto> NDir, ''w/d'' \<mapsto> NDir, ''w/d/0.patch'' \<mapsto> NFile ''old'' 420] []"

lemma patch_lib_writes: "writes_files patch_lib (\<lambda>_. {})"
  using toy_lib_writes by (simp add: writes_files_def patch_lib_def)

lemma patches_staged_exactly_witness:
  "fs (snd (stagePatches patch_lib ''p'' ''w/d'' patch_world)) ''w/d/0.patch'' = None \<and>
   bytes_at (fs (snd (stagePatches patch_lib ''p'' ''w/d'' patch_world))) ''w/d/1.patch'' = Some ''fix''"
proof -
  let ?w' = "snd (stagePatches patch_lib ''p'' ''w/d'' patch_world)"
  have "fst (stagePatches patch_lib ''p'' ''w/d'' patch_world) = Inr ()" by code_simp
  then have run: "stagePatches patch_lib ''p'' ''w/d'' patch_world = (Inr (), ?w')"
    unfolding prod_eq_iff by (simp only: fst_conv snd_conv simp_thms)
  have dirs: "named_dir ''p''" "Clean ''p'' = ''p''" "named_dir ''w/d''" "Clean ''w/d'' = ''w/d''" "\<not> has_meta ''p''"
    unfolding named_dir_def by code_simp+
  have pj: "PathJoin ''p'' n = ''p/'' @ n" if "name_ok n" for n
    using PathJoin_below(1) [OF dirs(1,2) that] by simp
  have names: "name_ok ''1.patch''" "name_ok ''0.patch''" "name_ok ''README''" "is_patch ''1.patch''" "is_patch ''0.patch''"
    unfolding name_ok_def elem_ok_def by code_simp+
  have "apart ''p'' ''w/d'' (\<lambda>_. {})"
    unfolding apart_def patch_path_def by (auto simp: pj below_def HasPrefix_def ancestors_iff)
  moreover have "lists_names patch_lib (fs patch_world) ''p''"
    unfolding lists_names_def using names
    by (auto simp: patch_lib_def patch_world_def host_world_def pj split: if_splits)
  moreover have "faults patch_world = []" "fs patch_world ''p'' = Some NDir"
    by (simp_all add: patch_world_def host_world_def)
  moreover note pre = calculation dirs
  have "PathJoin ''w/d'' ''0.patch'' = ''w/d/0.patch''" "PathJoin ''w/d'' ''1.patch'' = ''w/d/1.patch''"
    by code_simp+
  moreover have "fs patch_world (PathJoin ''p'' ''0.patch'') = None"
    "bytes_at (fs patch_world) (PathJoin ''p'' ''1.patch'') = Some ''fix''"
    using names by (simp_all add: pj patch_world_def host_world_def bytes_at_def)
  ultimately show ?thesis
    using patches_staged_exactly [OF run patch_lib_writes pre(2,1) dirs(1-5) pre(3,4) names(1,4)]
      patches_staged_exactly [OF run patch_lib_writes pre(2,1) dirs(1-5) pre(3,4) names(2,5)]
    by simp
qed

text \<open>
  A source directory whose name holds a metacharacter is read as a pattern: when nothing
  matches it, the staging succeeds with no patch at all, although the directory is there and
  holds one.
\<close>

definition bracket_world :: host where
  "bracket_world = host_world [''a[1]'' \<mapsto> NDir, ''a[1]/1.patch'' \<mapsto> NFile ''fix'' 420] []"

lemma patches_dir_read_as_pattern:
  assumes "GlobDirs lib ''a[1]'' (fs bracket_world) = Inr []"
  shows "fst (stagePatches lib ''a[1]'' ''d'' bracket_world) = Inr () \<and>
     fs (snd (stagePatches lib ''a[1]'' ''d'' bracket_world)) ''d/1.patch'' = None"
proof -
  have "PathJoin ''a[1]'' ''*.patch'' = ''a[1]/*.patch''" by code_simp
  moreover have "cleanGlobPath (fst (PathSplit ''a[1]/*.patch'')) = ''a[1]''" by code_simp
  moreover have "has_meta ''a[1]''" by code_simp
  ultimately have "glob_patches lib (PathJoin ''a[1]'' ''*.patch'') bracket_world = (Inr [], bracket_world)"
    using assms by (simp add: glob_patches_def tryE_def catchE_def ret_def)
  moreover have "ancestors ''d'' = [''d'']" by code_simp
  ultimately show ?thesis
    by (simp add: stagePatches_def tryE_def catchE_def ret_def os_RemoveAll_def os_MkdirAll_def fs_call_def next_fault_def
        set_fs_def emit_def bracket_world_def host_world_def below_def HasPrefix_def)
qed

end
