(* ===== verification/Boot_Safety.thy ===== *)
theory Boot_Safety
  imports Host_Boot Stage_Safety "HOL-Library.Code_Target_Numeral"
begin

text \<open>
  What the two virtual machines and the promotion guarantee: the output is not touched
  before the freshly built kernel has booted, and what is promoted is what was booted.
\<close>

section \<open>What a guest can reach\<close>

text \<open>
  The framework's side of the shares: a machine writes nothing on the host but below the
  directories it shares without the read-only flag.
\<close>

definition writable :: "vmc \<Rightarrow> string \<Rightarrow> bool" where
  "writable vm p \<longleftrightarrow> (\<exists>t d. (t, d, False) \<in> set (vmc_shares vm) \<and> below d p)"

definition guest_confined :: "'z vm_deps \<Rightarrow> bool" where
  "guest_confined vd \<longleftrightarrow>
     (\<forall>vm R. (\<forall>p. writable vm p \<longrightarrow> blind R p) \<longrightarrow>
        (\<forall>w. disk_inv R w \<longrightarrow> disk_inv R (snd (vm_starting vd vm w)) \<and> disk_inv R (snd (vm_running vd vm w)))) \<and>
     (\<forall>vm q w. \<not> writable vm q \<longrightarrow>
        fs (snd (vm_starting vd vm w)) q = fs w q \<and> fs (snd (vm_running vd vm w)) q = fs w q)"

lemma keeps_readStatus [keeps_intro]: "keeps (disk_inv R) (readStatus p)"
  unfolding readStatus_def Let_def
  by (intro keeps_catchE keeps_ReadFile keeps_failE) (auto intro!: keeps_intro split: sum.split)

lemma leaves_readStatus: "leaves q (readStatus p)"
proof -
  have "leaves q (case Atoi t of Inl e \<Rightarrow> failE (h e) | Inr code \<Rightarrow> ret code)" for t and h :: "goerr \<Rightarrow> goerr"
    by (cases "Atoi t") (simp_all add: leaves_prog)
  then show ?thesis
    unfolding readStatus_def Let_def by (intro leaves_prog leaves_reads)
qed

lemma stop_vm_fs [simp]: "fs (stop_vm vd vm w) = fs w" "disk_inv R (stop_vm vd vm w) = disk_inv R w"
  by (simp_all add: stop_vm_def)

lemma verdict_cases:
  fixes x :: "unit result option"
  obtains "x = None" | e where "x = Some (Inl e)" | "x = Some (Inr ())"
  by (cases x; cases "the x") auto

lemma flagged_verdict_cases:
  fixes x :: "(unit result \<times> bool) option"
  obtains "x = None" | e h where "x = Some (Inl e, h)" | h where "x = Some (Inr (), h)"
  by (cases x; cases "fst (the x)"; cases "the x") auto

text \<open>The cases of a boot.\<close>

lemma boot_cases:
  fixes w :: "'z host_scheme" and vd :: "'z vm_deps"
  assumes "boot vd vm d w = (r, w')"
  obtains w1 where "w1 = snd (vm_starting vd vm (emit (EvVm (fst (vmc_boot vm)), True) w))"
      and "w' = w1" and "\<not> is_ok r"
  | w1 w2 where "w1 = snd (vm_starting vd vm (emit (EvVm (fst (vmc_boot vm)), True) w))"
      and "w2 = snd (vm_running vd vm w1)" and "\<not> is_ok r" and "fs w' = fs w2" and "\<And>R. disk_inv R w' = disk_inv R w2"
  | w1 w2 w3 evs1 evs2 hard where "vm_starting vd vm (emit (EvVm (fst (vmc_boot vm)), True) w) = ((None, evs1), w1)"
      and "Start None (start_events evs1) = Some (Inr ())"
      and "vm_running vd vm w1 = (evs2, w2)" and "Wait evs2 = Some (Inr (), hard)"
      and "readStatus (PathJoin d statusFile) w2 = (r, w3)" and "w' = stop_vm vd vm w3"
proof -
  obtain failed evs1 w1 where s: "vm_starting vd vm (emit (EvVm (fst (vmc_boot vm)), True) w) = ((failed, evs1), w1)"
    by (metis prod.collapse)
  obtain evs2 w2 where t: "vm_running vd vm w1 = (evs2, w2)" by (cases "vm_running vd vm w1")
  obtain q w3 where u: "readStatus (PathJoin d statusFile) w2 = (q, w3)" by (cases "readStatus (PathJoin d statusFile) w2")
  show ?thesis
  proof (cases "Start failed (start_events evs1)" rule: verdict_cases)
    case 3
    then have f: "failed = None" by (auto simp: Start_def split: option.splits)
    show ?thesis
    proof (cases "Wait evs2" rule: flagged_verdict_cases)
      case 1
      with 3 assms s t have "r = Inl hang" "w' = w2" by (simp_all add: boot_def)
      with s t show ?thesis by (intro that(2) [of w1 w2]) auto
    next
      case 2
      with 3 assms s t show ?thesis by (intro that(2) [of w1 w2]) (auto simp: boot_def split: if_splits)
    next
      case w: 3
      with 3 assms s t u have "r = q" "w' = stop_vm vd vm w3" by (simp_all add: boot_def)
      with s t u w 3 f show ?thesis by (intro that(3)) auto
    qed
  qed (use assms s in \<open>auto simp: boot_def intro: that(1)\<close>)
qed

lemma keeps_boot:
  fixes vd :: "'z vm_deps"
  assumes "guest_confined vd" and "\<And>p. writable vm p \<Longrightarrow> blind R p"
  shows "keeps (disk_inv R) (boot vd vm d)"
proof (rule keepsI)
  fix w :: "'z host_scheme"
  assume w: "disk_inv R w"
  let ?w0 = "emit (EvVm (fst (vmc_boot vm)), True) w"
  have g: "disk_inv R (snd (vm_starting vd vm v))" "disk_inv R (snd (vm_running vd vm v))" if "disk_inv R v" for v
    using assms that unfolding guest_confined_def by blast+
  obtain r w' where b: "boot vd vm d w = (r, w')" by (cases "boot vd vm d w")
  from b have "disk_inv R w'"
  proof (cases rule: boot_cases)
    case 3
    with g(1) [of ?w0] g(2) w keepsD [OF keeps_readStatus] show ?thesis by (metis disk_inv_emit snd_conv stop_vm_fs(2))
  qed (use g(1) [of ?w0] g(2) w in auto)
  with b show "disk_inv R (snd (boot vd vm d w))" by simp
qed

lemma leaves_boot:
  fixes vd :: "'z vm_deps"
  assumes "guest_confined vd" and "\<not> writable vm q"
  shows "leaves q (boot vd vm d)"
proof (intro leavesI keepsI)
  fix n and w :: "'z host_scheme"
  assume w: "fs w q = n"
  let ?w0 = "emit (EvVm (fst (vmc_boot vm)), True) w"
  have g: "fs (snd (vm_starting vd vm v)) q = fs v q" "fs (snd (vm_running vd vm v)) q = fs v q" for v
    using assms unfolding guest_confined_def by blast+
  have e: "fs ?w0 q = n" using w by simp
  obtain r w' where b: "boot vd vm d w = (r, w')" by (cases "boot vd vm d w")
  from b have "fs w' q = n"
  proof (cases rule: boot_cases)
    case 3
    with g(1) [of ?w0] g(2) e leavesD [OF leaves_readStatus] show ?thesis by (metis snd_conv stop_vm_fs(1))
  qed (use g(1) [of ?w0] g(2) e in auto)
  with b show "fs (snd (boot vd vm d w)) q = n" by simp
qed

section \<open>The boot test\<close>

text \<open>A path the boot test has nothing to do with.\<close>

definition off_smoke :: "string \<Rightarrow> (string \<Rightarrow> string set) \<Rightarrow> string \<Rightarrow> bool" where
  "off_smoke env temps q \<longleftrightarrow>
     \<not> below (smoke_dir env) q \<and> q \<notin> set (ancestors (smoke_dir env)) \<and>
     q \<notin> temps (PathJoin (smoke_dir env) ''build.sh'')"

text \<open>What the boot test may write.\<close>

definition smoke_area :: "string \<Rightarrow> (string \<Rightarrow> string set) \<Rightarrow> string \<Rightarrow> bool" where
  "smoke_area env temps p \<longleftrightarrow>
     below (smoke_dir env) p \<or> p \<in> set (ancestors (smoke_dir env)) \<or> p \<in> temps (PathJoin (smoke_dir env) ''build.sh'')"

lemma off_smoke_iff: "off_smoke env temps q \<longleftrightarrow> \<not> smoke_area env temps q"
  by (auto simp: off_smoke_def smoke_area_def)

lemma smoke_dir_named: "named_dir (smoke_dir env)" "Clean (smoke_dir env) = smoke_dir env"
proof -
  have n: "name_ok ''smoke''" by (simp add: name_ok_def elem_ok_def dot_def dotdot_def)
  show "named_dir (smoke_dir env)"
    unfolding smoke_dir_def named_dir_def using parse_PathJoin_name [OF n] n by (simp add: name_ok_def)
  show "Clean (smoke_dir env) = smoke_dir env"
    unfolding smoke_dir_def using PathJoin_name [OF n] Clean_fix_iff by blast
qed

lemma smoke_files:
  "smoke_area env temps (PathJoin (smoke_dir env) statusFile)"
  "smoke_area env temps (PathJoin (smoke_dir env) ''build.sh'')"
  using patch_below [OF smoke_dir_named]
  by (simp_all add: smoke_area_def statusFile_def name_ok_def elem_ok_def dot_def dotdot_def)

lemma smoke_writable:
  "New vz (smoke_vm k ri (smoke_dir env)) = Inr vm \<Longrightarrow> writable vm p \<Longrightarrow> smoke_area env temps p"
  by (auto simp: writable_def smoke_area_def smoke_vm_def dest!: New_shape)

text \<open>A step whose value comes from outside the state.\<close>

lemma keeps_lift_result: "keeps I (lift_result r)"
  by (simp add: keeps_def lift_result_def)

lemma keeps_lifted:
  assumes "\<And>x. r = Inr x \<Longrightarrow> keeps I (k x)"
  shows "keeps I (tryE (lift_result r) f k)"
  unfolding tryE_def
  by (rule keeps_catchE_returned [OF keeps_lift_result])
    (use assms in \<open>auto simp: lift_result_def intro: keeps_failE\<close>)

lemma leaves_lifted: "(\<And>x. r = Inr x \<Longrightarrow> leaves q (k x)) \<Longrightarrow> leaves q (tryE (lift_result r) f k)"
  unfolding leaves_def by (blast intro: keeps_lifted)

lemma keeps_smokeTest:
  fixes vd :: "'z vm_deps"
  assumes "guest_confined vd" and "writes_files lib temps" and "\<And>p. smoke_area env temps p \<Longrightarrow> blind R p"
  shows "keeps (disk_inv R) (smokeTest vd lib env k ri)"
proof -
  have "keeps (disk_inv R) (tryE (lift_result (New (vz_lib vd) (smoke_vm k ri (smoke_dir env)))) id (\<lambda>vm.
      tryE (boot vd vm (smoke_dir env)) id (\<lambda>code. if code \<noteq> 0 then failE (e code) else ret ())))" for e
    by (rule keeps_lifted) (intro keeps_tryE keeps_boot [OF assms(1)] keeps_if keeps_failE keeps_ret assms(3) smoke_writable)
  note vm = this
  have area: "blind R p" if "p \<in> set (ancestors (smoke_dir env)) \<or> p \<in> temps (PathJoin (smoke_dir env) ''build.sh'')" for p
    using that by (intro assms(3)) (auto simp: smoke_area_def)
  have script: "keeps (disk_inv R) (WriteFile lib (PathJoin (smoke_dir env) ''build.sh'') smoke_script)"
    by (intro keeps_WriteFile_lib [OF assms(2)] area assms(3) smoke_files disjI2)
  have status: "keeps (disk_inv R) (os_Remove (PathJoin (smoke_dir env) statusFile))"
    by (intro keeps_Remove assms(3) smoke_files)
  have dir: "keeps (disk_inv R) (os_MkdirAll (smoke_dir env))"
    by (intro keeps_MkdirAll area disjI1)
  show ?thesis
    unfolding smokeTest_def Let_def
    by (rule keeps_tryE [OF dir keeps_ignoreE [OF status keeps_tryE [OF script vm]]])
qed

lemma leaves_smokeTest:
  fixes vd :: "'z vm_deps"
  assumes "guest_confined vd" and "writes_files lib temps" and "off_smoke env temps q"
  shows "leaves q (smokeTest vd lib env k ri)"
proof -
  have ne: "PathJoin (smoke_dir env) statusFile \<noteq> q" "q \<noteq> PathJoin (smoke_dir env) ''build.sh''"
    using smoke_files assms(3) unfolding off_smoke_iff by blast+
  have "\<not> writable vm q" if "New vz (smoke_vm k ri (smoke_dir env)) = Inr vm" for vz vm
    using smoke_writable [OF that] assms(3) unfolding off_smoke_iff by blast
  with ne assms(3) show ?thesis
    unfolding smokeTest_def Let_def
    by (intro leaves_prog leaves_MkdirAll leaves_Remove leaves_WriteFile_lib [OF assms(2)] leaves_lifted
        leaves_boot [OF assms(1)]) (auto simp: off_smoke_def)
qed

section \<open>Promotion\<close>

lemma readStatus_ok:
  assumes "readStatus p w = (Inr c, w')"
  shows "fs w' = fs w \<and> (\<exists>b. bytes_at (fs w) p = Some b \<and> Atoi (TrimSpace b) = Inr c)"
proof -
  obtain r w1 where rd: "os_ReadFile p w = (r, w1)" by (cases "os_ReadFile p w")
  with assms obtain data where r: "r = Inr data"
    by (cases r) (auto simp: readStatus_def catchE_def failE_def)
  from assms rd r have "Atoi (TrimSpace data) = Inr c" "w' = w1"
    by (auto simp: readStatus_def catchE_def failE_def ret_def Let_def split: if_splits sum.splits)
  with ReadFile_ok [OF rd [unfolded r]] show ?thesis by (auto simp: bytes_at_def)
qed

text \<open>
  The specification of a machine that passes: started from a world it reaches the running
  state, it powers itself off, and the status it leaves in its share reads as zero.
\<close>

definition passed :: "'z vm_deps \<Rightarrow> vmc \<Rightarrow> string \<Rightarrow> 'z host_scheme \<Rightarrow> bool" where
  "passed vd vm dir w \<longleftrightarrow>
     (\<exists>evs1 w1 evs2 w2 b. vm_starting vd vm w = ((None, evs1), w1) \<and>
        (StateChanged Running \<in> set (start_events evs1) \<or> (\<exists>s. Deadline Running s \<in> set (start_events evs1))) \<and>
        vm_running vd vm w1 = (evs2, w2) \<and> Changed Stopped \<in> set evs2 \<and>
        bytes_at (fs w2) (PathJoin dir statusFile) = Some b \<and> Atoi (TrimSpace b) = Inr 0)"

lemma started_runs: "Start None es = Some (Inr ()) \<Longrightarrow> StateChanged Running \<in> set es \<or> (\<exists>s. Deadline Running s \<in> set es)"
proof -
  assume "Start None es = Some (Inr ())"
  then obtain before x after where "es = before @ x # after" "start_react x = Some (Inr ())"
    unfolding Start_def option.case starting.loop_decided by blast
  then show ?thesis by (cases x) (auto split: if_splits)
qed

lemma waited_stopped: "Wait es = Some (Inr (), h) \<Longrightarrow> Changed Stopped \<in> set es"
proof -
  assume "Wait es = Some (Inr (), h)"
  then obtain before x after where "es = before @ x # after" "wait_react x = Some (Inr (), h)"
    unfolding waiting.loop_decided by blast
  then show ?thesis by (cases x) (auto split: if_splits)
qed

lemma boot_ok:
  assumes "boot vd vm dir w = (Inr 0, w')"
  shows "passed vd vm dir (emit (EvVm (fst (vmc_boot vm)), True) w)"
  using assms
proof (cases rule: boot_cases)
  case 3
  with readStatus_ok [OF 3(5)] started_runs [OF 3(2)] waited_stopped [OF 3(4)]
  show ?thesis unfolding passed_def by blast
qed simp_all

lemma smokeTest_ok:
  assumes "smokeTest vd lib env k ri w = (Inr u, w')" and "writes_files lib temps" and "off_smoke env temps q"
  shows "\<exists>vm v. New (vz_lib vd) (smoke_vm k ri (smoke_dir env)) = Inr vm \<and> passed vd vm (smoke_dir env) v \<and>
     fs v q = fs w q"
proof -
  let ?script = "tryE (WriteFile lib (PathJoin (smoke_dir env) ''build.sh'') smoke_script) id"
  from assms(1) obtain a w1 b w3 vm c w4 where
    mk: "os_MkdirAll (smoke_dir env) w = (Inr a, w1)" and
    wr: "WriteFile lib (PathJoin (smoke_dir env) ''build.sh'') smoke_script
      (snd (os_Remove (PathJoin (smoke_dir env) statusFile) w1)) = (Inr b, w3)" and
    vm: "New (vz_lib vd) (smoke_vm k ri (smoke_dir env)) = Inr vm" and
    bt: "boot vd vm (smoke_dir env) w3 = (Inr c, w4)" and c: "c = 0"
    by (auto simp: smokeTest_def Let_def tryE_Inr ignoreE_eq lift_result_def failE_def split: if_splits)
  obtain r w2 where rm: "os_Remove (PathJoin (smoke_dir env) statusFile) w1 = (r, w2)"
    by (cases "os_Remove (PathJoin (smoke_dir env) statusFile) w1")
  have ne: "PathJoin (smoke_dir env) statusFile \<noteq> q" "q \<noteq> PathJoin (smoke_dir env) ''build.sh''"
    using smoke_files assms(3) unfolding off_smoke_iff by blast+
  have "fs w1 q = fs w q" by (rule leavesD [OF leaves_MkdirAll mk]) (use assms(3) in \<open>simp add: off_smoke_def\<close>)
  moreover have "fs w2 q = fs w1 q" by (rule leavesD [OF leaves_Remove rm]) (rule ne)
  moreover have "fs w3 q = fs w2 q"
    by (rule leavesD [OF leaves_WriteFile_lib [OF assms(2) ne(2)]])
      (use assms(3) wr rm in \<open>auto simp: off_smoke_def\<close>)
  ultimately show ?thesis using vm boot_ok [OF bt [unfolded c]] by auto
qed

lemma leaves_copyExecutable:
  assumes "writes_files lib temps" and "q \<noteq> dst" and "q \<notin> temps dst" and "q \<notin> set (ancestors (PathDir dst))"
  shows "leaves q (copyExecutable lib src dst)"
  unfolding copyExecutable_def
  by (intro leaves_prog leaves_reads leaves_copyFile leaves_Chmod) (use assms in auto)

text \<open>
  What a promotion installs is byte for byte what was boot-tested: when it succeeds, a
  machine made of the built kernel has run from the very bytes the output now holds, has
  powered itself off and has left a zero status.
\<close>

lemma promoted_is_booted:
  assumes "promote vd lib env cfg workdir ri w = (Inr u, w')"
    and "guest_confined vd" and "writes_files lib temps"
    and "off_smoke env temps (PathJoin workdir ''kernel-arm64'')"
    and "perf = PathJoin (PathDir (Out cfg)) ''perf-arm64''"
    and "Out cfg \<noteq> perf" and "Out cfg \<notin> temps perf" and "Out cfg \<notin> set (ancestors (PathDir perf))"
  shows "\<exists>vm v data. New (vz_lib vd) (smoke_vm (PathJoin workdir ''kernel-arm64'') ri (smoke_dir env)) = Inr vm \<and>
     passed vd vm (smoke_dir env) v \<and>
     bytes_at (fs v) (PathJoin workdir ''kernel-arm64'') = Some data \<and> bytes_at (fs w') (Out cfg) = Some data"
proof -
  let ?built = "PathJoin workdir ''kernel-arm64''"
  let ?perf = "PathJoin workdir ''perf-arm64''"
  from assms(1) obtain w1 a w2 b w3 w4 where
    sm: "smokeTest vd lib env ?built ri w1 = (Inr a, w2)" and
    cp: "copyFile lib ?built (Out cfg) w2 = (Inr b, w3)" and
    st: "w4 = snd (os_Stat ?perf w3)" and
    ex: "copyExecutable lib ?perf perf w4 = (Inr u, w')"
    unfolding promote_def Let_def assms(5) [symmetric]
    by (auto simp: tryE_Inr catchE_Inr failE_def)
  obtain data m m' where d: "fs w2 ?built = Some (NFile data m)" "fs w3 (Out cfg) = Some (NFile data m')"
    using copyFile_ok [OF assms(3) cp] by blast
  have "fs w4 (Out cfg) = fs w3 (Out cfg)" using st leavesD [OF leaves_reads(1)] by (metis prod.collapse)
  then have out: "bytes_at (fs w') (Out cfg) = Some data"
    using leavesD [OF leaves_copyExecutable [OF assms(3,6,7,8)] ex] d(2) by (simp add: bytes_at_def)
  have "fs w2 ?built = fs w1 ?built" by (rule leavesD [OF leaves_smokeTest [OF assms(2-4)] sm])
  moreover obtain vm v where "New (vz_lib vd) (smoke_vm ?built ri (smoke_dir env)) = Inr vm"
      "passed vd vm (smoke_dir env) v" "fs v ?built = fs w1 ?built"
    using smokeTest_ok [OF sm assms(3,4)] by blast
  moreover have "bytes_at (fs v) ?built = Some data"
  proof -
    have "fs v ?built = Some (NFile data m)" using calculation d(1) by metis
    then show ?thesis by (simp add: bytes_at_def)
  qed
  ultimately show ?thesis using out by blast
qed

text \<open>
  The output keeps its last working kernel until a new one has booted: at every moment of
  a promotion the output holds what it held before, unless the boot test has succeeded, and
  then it held it until the test was over.
\<close>

lemma output_kept_until_boot:
  assumes "guest_confined vd" and "writes_files lib temps" and "off_smoke env temps (Out cfg)"
    and "disk_inv (\<lambda>f. f (Out cfg) = n) w"
  shows "disk_inv (\<lambda>f. f (Out cfg) = n) (snd (promote vd lib env cfg workdir ri w)) \<or>
     (\<exists>w1 w2. smokeTest vd lib env (PathJoin workdir ''kernel-arm64'') ri w1 = (Inr (), w2) \<and>
        disk_inv (\<lambda>f. f (Out cfg) = n) w2)"
proof -
  let ?I = "disk_inv (\<lambda>f. f (Out cfg) = n)"
  let ?built = "PathJoin workdir ''kernel-arm64''"
  obtain r w1 where st: "os_Stat ?built w = (r, w1)" by (cases "os_Stat ?built w")
  have w1: "?I w1" using keepsD [OF keeps_Stat assms(4)] st by (metis snd_conv)
  obtain q w2 where sm: "smokeTest vd lib env ?built ri w1 = (q, w2)" by (cases "smokeTest vd lib env ?built ri w1")
  have "keeps ?I (smokeTest vd lib env ?built ri)"
    by (rule keeps_smokeTest [OF assms(1,2)]) (use assms(3) in \<open>auto simp: off_smoke_iff blind_def\<close>)
  from keepsD [OF this w1] sm have w2: "?I w2" by simp
  show ?thesis
  proof (cases r)
    case (Inl e)
    with st w1 show ?thesis by (simp add: promote_def Let_def catchE_def failE_def)
  next
    case (Inr x)
    show ?thesis
    proof (cases q)
      case (Inl e)
      with Inr st sm have "snd (promote vd lib env cfg workdir ri w) = w2"
        by (simp add: promote_def Let_def catchE_def tryE_def failE_def)
      with w2 show ?thesis by simp
    next
      case (Inr u)
      with sm w2 show ?thesis by auto
    qed
  qed
qed

section \<open>Concrete machines\<close>

text \<open>
  A machine that boots and powers itself off: before that its guest leaves a text in the
  status file of the share it may write, or, where the text is \<open>None\<close>, nothing at all. The
  writes of these witnesses drop the history, to keep their evaluation small.
\<close>

definition put_file :: "string \<Rightarrow> string \<Rightarrow> host \<Rightarrow> host" where
  "put_file p b w = w\<lparr>fs := (fs w)(p \<mapsto> NFile b 384), hist := [], log := []\<rparr>"

definition toy_guest :: "string option \<Rightarrow> vmc \<Rightarrow> host \<Rightarrow> host" where
  "toy_guest status vm w =
     (case status of
        None \<Rightarrow> w
      | Some s \<Rightarrow>
          (case find (\<lambda>x. \<not> snd (snd x)) (vmc_shares vm) of
             None \<Rightarrow> w
           | Some (t, d, ro) \<Rightarrow> put_file (d @ ''/status'') s w))"

definition toy_vm :: "string option \<Rightarrow> unit vm_deps" where
  "toy_vm status =
     \<lparr>vz_lib = open_vz, vm_starting = (\<lambda>vm w. ((None, [(1, Starting), (700, Running)], Running, Running), w)),
      vm_running = (\<lambda>vm w. ([Changed Stopped], toy_guest status vm w)),
      vm_now = (\<lambda>vm w. \<lparr>m_state = Stopped, m_CanStop = False, m_StopErr = None\<rparr>), NumCPU = 4\<rparr>"

text \<open>A writer that always succeeds.\<close>

definition sure_lib :: "unit host_deps" where
  "sure_lib = toy_lib\<lparr>WriteFile := (\<lambda>p data w. (Inr (), put_file p data w))\<rparr>"

lemma disk_inv_put_file: "blind R p \<Longrightarrow> disk_inv R w \<Longrightarrow> disk_inv R (put_file p b w)"
  by (simp add: disk_inv_def put_file_def blind_def)

lemma sure_lib_writes: "writes_files sure_lib (\<lambda>_. {})"
proof -
  have "WriteFile sure_lib p data = (\<lambda>w. (Inr (), put_file p data w))" for p data
    by (simp add: sure_lib_def)
  then show ?thesis
    by (simp add: writes_files_def keeps_def leaves_def disk_inv_put_file) (simp add: put_file_def)
qed

lemma toy_guest_cases:
  obtains "toy_guest status vm w = w"
  | t d s where "(t, d, False) \<in> set (vmc_shares vm)" and "toy_guest status vm w = put_file (d @ ''/status'') s w"
proof (cases "find (\<lambda>x. \<not> snd (snd x)) (vmc_shares vm)")
  case None
  then show ?thesis by (intro that(1)) (simp add: toy_guest_def split: option.split)
next
  case (Some x)
  then have "x \<in> set (vmc_shares vm)" "\<not> snd (snd x)" by (auto simp: find_Some_iff)
  moreover obtain t d ro where "x = (t, d, ro)" by (cases x)
  ultimately show ?thesis
    using Some that by (cases status) (auto simp: toy_guest_def)
qed

lemma toy_vm_confined: "guest_confined (toy_vm status)"
proof -
  have w: "writable vm (d @ ''/status'')" if "(t, d, False) \<in> set (vmc_shares vm)" for vm t d
    using that unfolding writable_def by (intro exI [of _ t] exI [of _ d]) (simp add: below_def HasPrefix_def)
  have "disk_inv R (toy_guest status vm v)" if "\<forall>p. writable vm p \<longrightarrow> blind R p" "disk_inv R v" for vm R v
    using that by (cases status vm v rule: toy_guest_cases) (auto intro: disk_inv_put_file w)
  moreover have "fs (toy_guest status vm v) q = fs v q" if "\<not> writable vm q" for vm q v
  proof (cases status vm v rule: toy_guest_cases)
    case (2 t d s)
    with w that have "d @ ''/status'' \<noteq> q" by blast
    with 2 show ?thesis by (simp add: put_file_def)
  qed simp
  ultimately show ?thesis by (simp add: guest_confined_def toy_vm_def)
qed

text \<open>A built kernel in the work directory, and the output of an earlier run.\<close>

definition built_world :: host where
  "built_world = host_world
     [''w/kernel-arm64'' \<mapsto> NFile ''new'' 384, ''w/perf-arm64'' \<mapsto> NFile ''perf'' 493, ''o/k'' \<mapsto> NFile ''old'' 384] []"

definition k_cfg :: config where "k_cfg = old_pin\<lparr>Out := ''o/k''\<rparr>"

section \<open>A status from another run\<close>

definition stale_status_world :: host where
  "stale_status_world = built_world
     \<lparr>fs := (fs built_world)(''s/kernel-scratch/smoke/status'' \<mapsto> NFile ''0'' 420), faults := [Pass, Pass, Fail EIO 0 []]\<rparr>"

text \<open>
  The removal of an old status is not checked: when it fails and the machine powers off
  without having written one (its kernel never reached the init), the boot test of this run
  passes on the status of an earlier one, and the kernel is promoted.
\<close>

lemma stale_status_accepted:
  "fst (promote (toy_vm None) sure_lib ''s'' k_cfg ''w'' ''d'' stale_status_world) = Inr () \<and>
   bytes_at (fs (snd (promote (toy_vm None) sure_lib ''s'' k_cfg ''w'' ''d'' stale_status_world))) ''o/k'' = Some ''new''"
  by code_simp

end
