(* ===== verification/Guest_Verdict.thy ===== *)
theory Guest_Verdict
  imports Guest_Invariant
begin

text \<open>
  What the status file can say of a run. The guest's write of it may be cut short by a fault,
  but no part of the text of another code reads as zero, so a zero is the run's own.
\<close>

section \<open>Parts of a number\<close>

lemma digits_of_head: "0 < n \<Longrightarrow> 48 < (of_char (hd (digits_of n)) :: nat)"
proof (induction n rule: digits_of.induct)
  case (1 n)
  show ?case
  proof (cases "n < 10")
    case True
    with "1.prems" show ?thesis by (simp add: digits_of.simps [of n] of_char_digit_char)
  next
    case False
    with "1.IH" show ?thesis by (simp add: digits_of.simps [of n] hd_append)
  qed
qed

lemma parse_digits_le: "parse_digits a cs = Inr m \<Longrightarrow> a \<le> m"
proof (induction a cs rule: parse_digits.induct)
  case (2 acc c cs)
  then have "acc * 10 + (of_char c - 48) \<le> m" by (auto simp: Let_def split: if_splits)
  then show ?case by simp
qed simp

lemma parse_digits_prefix_pos:
  assumes "0 < n" and "parse_digits 0 (take (Suc k) (digits_of n)) = Inr m"
  shows "0 < m"
proof -
  obtain c cs where ds: "digits_of n = c # cs" by (cases "digits_of n") auto
  with digits_of_head [OF assms(1)] have "48 < (of_char c :: nat)" by simp
  moreover have "parse_digits (of_char c - 48) (take k cs) = Inr m"
    using assms(2) by (auto simp: ds Let_def split: if_splits)
  ultimately show ?thesis using parse_digits_le by fastforce
qed

text \<open>No part of the text of a number other than zero reads as zero.\<close>

lemma Atoi_prefix_zero:
  assumes "Atoi (take k (Itoa i)) = Inr 0"
  shows "i = 0"
proof (rule ccontr)
  assume i: "i \<noteq> 0"
  show False
  proof (cases "i < 0")
    case True
    then have "0 < nat (- i)" by simp
    with assms True parse_digits_prefix_pos [OF this] show False
      by (cases k; cases "k - 1") (auto simp: Atoi_def Itoa_def Let_def split: sum.splits if_splits)
  next
    case False
    with i have n: "0 < nat i" by simp
    have "\<not> HasPrefix (take k (digits_of (nat i))) ''-''" "\<not> HasPrefix (take k (digits_of (nat i))) ''+''"
      using digits_of_no_sign [of "nat i"] by (cases k; cases "digits_of (nat i)"; simp)+
    with assms False parse_digits_prefix_pos [OF n] show False
      by (cases k) (auto simp: Atoi_def Itoa_def Let_def split: sum.splits if_splits)
  qed
qed

lemma trimmed_take_Itoa: "trimmed (take k (Itoa i))"
proof -
  have "printable c" if "c \<in> set (digits_of n)" for c n
    using that by (intro printable_digit digits_of_digits)
  moreover have "printable CHR ''-''" by (simp add: printable_def)
  ultimately have "\<forall>c \<in> set (Itoa i). printable c" by (auto simp: Itoa_def)
  then have "\<forall>c \<in> set (take k (Itoa i)). printable c" by (meson in_set_takeD)
  then show ?thesis unfolding trimmed_def by (metis hd_in_set last_in_set)
qed

lemma status_prefix_zero:
  assumes "Atoi (TrimSpace (take k (Itoa i @ [CHR 0x0A]))) = Inr 0"
  shows "i = 0"
proof (cases "k \<le> length (Itoa i)")
  case True
  with assms show ?thesis by (simp add: TrimSpace_trimmed [OF trimmed_take_Itoa] Atoi_prefix_zero)
next
  case False
  then have "TrimSpace (take k (Itoa i @ [CHR 0x0A])) = take (length (Itoa i)) (Itoa i)"
    by (simp add: TrimSpace_newline [OF trimmed_Itoa])
  with assms show ?thesis using Atoi_prefix_zero [of "length (Itoa i)" i] by simp
qed

section \<open>The status a guest leaves\<close>

text \<open>A file that is missing, or holds a part of a text.\<close>

definition part_of :: "string \<Rightarrow> string \<Rightarrow> fsys \<Rightarrow> bool" where
  "part_of p text f \<longleftrightarrow> f p = None \<or> (\<exists>k m. f p = Some (NFile (take k text) m))"

lemma OpenTrunc_missing:
  "contract (\<lambda>w. fs w p = None) (os_OpenTrunc p mode)
     (\<lambda>_ w. \<exists>m. fs w p = Some (NFile [] m)) (\<lambda>_ w. fs w p = None)"
  by (rule contractI)
    (auto simp: os_OpenTrunc_def fs_call_def set_fs_def emit_def
      split: prod.splits fault.splits option.splits if_splits dest!: next_fault_fs)

lemma Write_part:
  "contract (\<lambda>w. \<exists>m. fs w p = Some (NFile [] m)) (os_Write p b)
     (\<lambda>_ w. part_of p b (fs w)) (\<lambda>_ w. part_of p b (fs w))"
proof -
  have "part_of p b (append_file p (take n b) f)" "part_of p b (append_file p b f)"
    if "f p = Some (NFile [] m)" for f n m
    using that unfolding part_of_def append_file_def by (auto intro: exI [of _ "length b"])
  then show ?thesis
    by (intro contractI)
      (auto simp: os_Write_def fs_call_def set_fs_def emit_def split: prod.splits fault.splits dest!: next_fault_fs)
qed

lemma keeps_part_of: "keeps (\<lambda>w. part_of p b (fs w)) (sys_call ev)" "keeps (\<lambda>w. part_of p b (fs w)) (os_Stat q)"
proof -
  show "keeps (\<lambda>w. part_of p b (fs w)) (sys_call ev)"
    by (rule keepsI) (metis sys_call_fs prod.collapse)
  show "keeps (\<lambda>w. part_of p b (fs w)) (os_Stat q)"
    by (rule keepsI) (metis Stat_fs prod.collapse)
qed

lemma writeStatus_part:
  assumes "fs w statusPath = None"
  shows "part_of statusPath (Itoa code @ [CHR 0x0A]) (fs (snd (writeStatus code w)))"
proof -
  let ?Q = "\<lambda>w :: 'a world_scheme. part_of statusPath (Itoa code @ [CHR 0x0A]) (fs w)"
  have sys: "keeps ?Q (os_Sync q)" "keeps ?Q (os_Close q)" for q
    unfolding os_Sync_def os_Close_def by (rule keeps_part_of)+
  have "contract (\<lambda>w. fs w statusPath = None) (writeStatus code) (\<lambda>_. ?Q) (\<lambda>_. ?Q)"
    unfolding writeStatus_def
  proof (rule contract_tryE [OF OpenTrunc_missing], rule contract_catchE [OF Write_part])
    show "contract ?Q (ignoreE (os_Close statusPath) (failE e)) (\<lambda>_. ?Q) (\<lambda>_. ?Q)" for e :: goerr
      by (intro contract_keeps keeps_ignoreE sys keeps_failE)
    show "contract ?Q
      (catchE (os_Sync statusPath)
        (\<lambda>e. ignoreE (os_Close statusPath) (failE (wrap (''fsync '' @ statusPath @ '': '') e))) (\<lambda>_.
       tryE (os_Close statusPath) (wrap (''close '' @ statusPath @ '': '')) (\<lambda>_.
       catchE (os_OpenDir kernelShare) (\<lambda>_. ret ())
         (\<lambda>_. ignoreE (os_Sync kernelShare) (ignoreE (os_Close kernelShare) (ret ())))))) (\<lambda>_. ?Q) (\<lambda>_. ?Q)"
      by (intro contract_keeps keeps_catchE keeps_ignoreE keeps_tryE keeps_ret keeps_failE sys keeps_part_of)
  qed (simp add: part_of_def)
  from this [unfolded contract_def, rule_format, OF assms] show ?thesis
    by (simp add: case_prod_beta split: sum.splits)
qed

text \<open>A run leaves the status file alone, if the libraries and the script do.\<close>

lemma status_not_made:
  "list_all (\<lambda>p. statusPath \<notin> set (ancestors p)) guest_dirs"
  by code_simp

lemma keeps_at:
  "leaves q m \<Longrightarrow> keeps (\<lambda>w. fs w q = n) m"
  by (simp add: leaves_def)

interpretation status_kept: guest_invariant "\<lambda>w. fs w statusPath = n" for n
proof unfold_locales
  show "keeps (\<lambda>w. fs w statusPath = n) (os_MkdirAll p)" if "p \<in> set guest_dirs" for p
    using status_not_made that by (intro keeps_at leaves_MkdirAll) (auto simp: list_all_iff)
  show "keeps (\<lambda>w. fs w statusPath = n) (os_Mkdir p)" if "HasPrefix p ''/ram/''" for p
    using that by (intro keeps_at leaves_Mkdir) (auto simp: statusPath_def)
  show "keeps (\<lambda>w. fs w statusPath = n) (os_WriteFile ''/etc/resolv.conf'' data fileMode)" for data
    by (intro keeps_at leaves_WriteFile) (simp add: statusPath_def)
  show "keeps (\<lambda>w. fs w statusPath = n) (os_OpenTrunc buildLog fileMode)"
    by (intro keeps_at leaves_OpenTrunc) (simp add: statusPath_def buildLog_def)
qed (simp_all add: keeps_at leaves_sys_call leaves_reads leaves_OpenRead emit_def)

text \<open>The libraries and the script do not write the status.\<close>

definition spares_status :: "('z world_scheme, 'c) netdeps \<Rightarrow> 'z bash \<Rightarrow> bool" where
  "spares_status nd bash \<longleftrightarrow>
     (\<forall>n. net_keeps (\<lambda>w. fs w statusPath = n) nd \<and> bash_keeps (\<lambda>w. fs w statusPath = n) bash)"

lemma guest_status_part:
  assumes "spares_status nd bash" and "fs w statusPath = None"
  shows "part_of statusPath (Itoa (status_code (fst (Guest_Init.run nd bash (w\<lparr>umask := 0\<rparr>)))) @ [CHR 0x0A])
     (fs (guest_main nd bash w))"
proof -
  obtain r w1 where r: "Guest_Init.run nd bash (w\<lparr>umask := 0\<rparr>) = (r, w1)"
    by (cases "Guest_Init.run nd bash (w\<lparr>umask := 0\<rparr>)")
  have "fs (snd (Guest_Init.run nd bash (w\<lparr>umask := 0\<rparr>))) statusPath = None"
    using assms by (intro status_kept.run_keeps) (simp_all add: spares_status_def)
  with r have w1: "fs w1 statusPath = None" by simp
  obtain p w3 where p: "sys_call EvPowerOff (snd (writeStatus (status_code r) w1)) = (p, w3)"
    by (cases "sys_call EvPowerOff (snd (writeStatus (status_code r) w1))")
  have "guest_main nd bash w = w3" by (simp add: guest_main_def r p ignoreE_eq)
  with sys_call_fs [OF p] writeStatus_part [OF w1] r show ?thesis by simp
qed

text \<open>A code of zero: every step succeeded, and the script exited with zero.\<close>

lemma status_code_zero: "status_code r = 0 \<longleftrightarrow> r = (0, None)"
  by (auto simp: status_code_def initFailedStatus_def split: prod.splits if_splits)

lemma or_fail_zero:
  "fst (or_fail f m k w) = (0, None) \<Longrightarrow> \<exists>x w1. m w = (Inr x, w1) \<and> fst (k x w1) = (0, None)"
  by (auto simp: or_fail_def split: prod.splits sum.splits)

definition all_steps :: "'z bash \<Rightarrow> 'z world_scheme \<Rightarrow> bool" where
  "all_steps bash w \<longleftrightarrow>
     (\<exists>w1 w2 w3. setupOverlayRoot w = (Inr (), w1) \<and> mountBase w1 = (Inr (), w2) \<and> mountShares w2 = (Inr (), w3)) \<and>
     (\<exists>env v. fst (bash env v) \<in> {BashOK, BashExit 0})"

lemma runBuild_zero: "fst (runBuild bash w) = (0, None) \<Longrightarrow> \<exists>env v. fst (bash env v) \<in> {BashOK, BashExit 0}"
  unfolding runBuild_def
  by (drule or_fail_zero, clarify, drule or_fail_zero)
    (auto simp: run_bash_def split: prod.splits bash_result.splits, (metis fst_conv)+)

lemma run_zero:
  assumes "fst (Guest_Init.run nd bash w) = (0, None)"
  shows "all_steps bash w"
proof -
  from or_fail_zero [OF assms [unfolded run_def]] obtain w1
    where 1: "setupOverlayRoot w = (Inr (), w1)" and r1: "fst (or_fail (wrap ''base mounts: '') mountBase (\<lambda>_.
     or_fail (wrap ''virtiofs shares: '') mountShares (\<lambda>_.
     or_fail id (cmdlineHas ''ossein.net=1'') (\<lambda>net.
     or_fail (wrap ''network: '') (if net then bringUpNetwork nd else ret ()) (\<lambda>_ w.
     case runBuild bash w of ((code, err), w) \<Rightarrow>
       ((code, map_option (wrap ''build: '') err), w))))) w1) = (0, None)" by auto
  from or_fail_zero [OF r1] obtain w2
    where 2: "mountBase w1 = (Inr (), w2)" and r2: "fst (or_fail (wrap ''virtiofs shares: '') mountShares (\<lambda>_.
     or_fail id (cmdlineHas ''ossein.net=1'') (\<lambda>net.
     or_fail (wrap ''network: '') (if net then bringUpNetwork nd else ret ()) (\<lambda>_ w.
     case runBuild bash w of ((code, err), w) \<Rightarrow>
       ((code, map_option (wrap ''build: '') err), w)))) w2) = (0, None)" by auto
  from or_fail_zero [OF r2] obtain w3
    where 3: "mountShares w2 = (Inr (), w3)" and r3: "fst (or_fail id (cmdlineHas ''ossein.net=1'') (\<lambda>net.
     or_fail (wrap ''network: '') (if net then bringUpNetwork nd else ret ()) (\<lambda>_ w.
     case runBuild bash w of ((code, err), w) \<Rightarrow>
       ((code, map_option (wrap ''build: '') err), w))) w3) = (0, None)" by auto
  from or_fail_zero [OF r3] obtain net w4
    where r4: "fst (or_fail (wrap ''network: '') (if net then bringUpNetwork nd else ret ()) (\<lambda>_ w.
     case runBuild bash w of ((code, err), w) \<Rightarrow>
       ((code, map_option (wrap ''build: '') err), w)) w4) = (0, None)" by auto
  from or_fail_zero [OF r4] obtain w5
    where "fst (case runBuild bash w5 of ((code, err), w) \<Rightarrow> ((code, map_option (wrap ''build: '') err), w)) = (0, None)"
    by blast
  then have "fst (runBuild bash w5) = (0, None)" by (auto split: prod.splits)
  with 1 2 3 runBuild_zero show ?thesis by (auto simp: all_steps_def)
qed

end
