(* ===== verification/Guest_Calm.thy ===== *)
theory Guest_Calm
  imports Guest_Verdict
begin

text \<open>
  The guest when nothing fails: on a disk it can boot from, it reports what its script
  returned. A triple says of a program that from files with one property and without faults
  it succeeds, with another property of its result and the files.
\<close>

section \<open>Programs that succeed when no call fails\<close>

named_theorems calm_intro

definition calm :: "(fsys \<Rightarrow> bool) \<Rightarrow> ('a, 'z) io \<Rightarrow> ('a \<Rightarrow> fsys \<Rightarrow> bool) \<Rightarrow> bool" where
  "calm P m Q \<longleftrightarrow> (\<forall>w. P (fs w) \<and> faults w = [] \<longrightarrow>
     (\<exists>x w'. m w = (Inr x, w') \<and> Q x (fs w') \<and> faults w' = []))"

lemma calmI:
  "(\<And>w. P (fs w) \<Longrightarrow> faults w = [] \<Longrightarrow> \<exists>x w'. m w = (Inr x, w') \<and> Q x (fs w') \<and> faults w' = []) \<Longrightarrow> calm P m Q"
  by (simp add: calm_def)

lemma calmD:
  assumes "calm P m Q" and "P (fs w)" and "faults w = []"
  obtains x w' where "m w = (Inr x, w')" and "Q x (fs w')" and "faults w' = []"
  using assms by (auto simp: calm_def)

lemma calm_weaken: "calm P m Q \<Longrightarrow> (\<And>f. P' f \<Longrightarrow> P f) \<Longrightarrow> (\<And>x f. Q x f \<Longrightarrow> Q' x f) \<Longrightarrow> calm P' m Q'"
  unfolding calm_def by blast

lemma calm_catchE [calm_intro]:
  fixes m :: "('a, 'z) io"
  assumes "calm P m R" and "\<And>x. calm (R x) (k x) Q"
  shows "calm P (catchE m h k) Q"
proof (rule calmI)
  fix w :: "'z world_scheme"
  assume "P (fs w)" and "faults w = []"
  with assms(1) obtain x w1 where m: "m w = (Inr x, w1)" and "R x (fs w1)" and "faults w1 = []" by (rule calmD)
  from assms(2) this(2,3) obtain y w2 where "k x w1 = (Inr y, w2)" and "Q y (fs w2)" and "faults w2 = []" by (rule calmD)
  with m show "\<exists>y w'. catchE m h k w = (Inr y, w') \<and> Q y (fs w') \<and> faults w' = []" by (simp add: catchE_def)
qed

lemma calm_tryE [calm_intro]: "calm P m R \<Longrightarrow> (\<And>x. calm (R x) (k x) Q) \<Longrightarrow> calm P (tryE m f k) Q"
  unfolding tryE_def by (rule calm_catchE)

lemma calm_ignoreE [calm_intro]: "calm P m (\<lambda>_. R) \<Longrightarrow> calm R k Q \<Longrightarrow> calm P (ignoreE m k) Q"
  unfolding ignoreE_def by (rule calm_catchE)

lemma calm_ret: "(\<And>f. P f \<Longrightarrow> Q x f) \<Longrightarrow> calm P (ret x) Q"
  by (simp add: calm_def ret_def)

lemma calm_never: "calm (\<lambda>f. False) m Q"
  by (simp add: calm_def)

lemma calm_if: "(b \<Longrightarrow> calm P m Q) \<Longrightarrow> (\<not> b \<Longrightarrow> calm P n Q) \<Longrightarrow> calm P (if b then m else n) Q"
  by simp

lemma calm_forE:
  assumes "\<And>x. x \<in> set xs \<Longrightarrow> calm P (g x) (\<lambda>_. P)"
  shows "calm P (forE xs g) (\<lambda>_. P)"
  using assms
proof (induction xs)
  case (Cons x xs)
  then show ?case by (auto intro!: calm_tryE)
qed (simp add: calm_ret)

lemma calm_sys_call [calm_intro]: "calm P (sys_call ev) (\<lambda>_. P)"
  by (simp add: calm_def sys_call_def next_fault_def emit_def)

lemma calm_fs_call:
  assumes "\<And>f. P f \<Longrightarrow> pre f = None \<and> Q () (eff f)"
  shows "calm P (fs_call ev pre eff part) Q"
  using assms by (auto simp: calm_def fs_call_def next_fault_def set_fs_def emit_def)

lemma calm_fs_read:
  assumes "\<And>f. P f \<Longrightarrow> \<exists>x. rd f = Inr x \<and> Q x f"
  shows "calm P (fs_read rd :: ('a, 'z) io) Q"
proof (rule calmI)
  fix w :: "'z world_scheme"
  assume "P (fs w)" and f: "faults w = []"
  with assms obtain x where "rd (fs w) = Inr x" and "Q x (fs w)" by blast
  with f show "\<exists>x w'. fs_read rd w = (Inr x, w') \<and> Q x (fs w') \<and> faults w' = []"
    by (simp add: fs_read_def next_fault_def)
qed

lemma calm_MkdirAll:
  assumes "\<And>f. P f \<Longrightarrow> list_all (\<lambda>a. f a = None \<or> f a = Some NDir) (ancestors p) \<and>
     Q () (fold (\<lambda>a f. f(a \<mapsto> NDir)) (ancestors p) f)"
  shows "calm P (os_MkdirAll p) Q"
  unfolding os_MkdirAll_def by (rule calm_fs_call) (use assms in simp)

lemma calm_Mkdir:
  assumes "\<And>f. P f \<Longrightarrow> f p = None \<and> parent_ok f p \<and> Q () (f(p \<mapsto> NDir))"
  shows "calm P (os_Mkdir p) Q"
  unfolding os_Mkdir_def by (rule calm_fs_call) (use assms in simp)

text \<open>A path that is a file, or that can be created as one.\<close>

definition openable :: "fsys \<Rightarrow> string \<Rightarrow> bool" where
  "openable f p \<longleftrightarrow> (case f p of None \<Rightarrow> parent_ok f p | Some (NFile b m) \<Rightarrow> True | Some _ \<Rightarrow> False)"

lemma calm_OpenTrunc:
  assumes "\<And>f m. P f \<Longrightarrow> openable f p \<and> Q () (f(p \<mapsto> NFile [] m))"
  shows "calm P (os_OpenTrunc p mode :: (unit, 'z) io) Q"
proof (rule calmI)
  fix w :: "'z world_scheme"
  assume "P (fs w)" and "faults w = []"
  with assms [of "fs w"] show "\<exists>x w'. os_OpenTrunc p mode w = (Inr x, w') \<and> Q x (fs w') \<and> faults w' = []"
    by (auto simp: os_OpenTrunc_def openable_def fs_call_def next_fault_def set_fs_def emit_def
      split: option.splits node.splits)
qed

lemma calm_Write:
  assumes "\<And>f. P f \<Longrightarrow> Q () (append_file p b f)"
  shows "calm P (os_Write p b) Q"
  unfolding os_Write_def by (rule calm_fs_call) (use assms in simp)

text \<open>The same for programs that return a code with an optional error.\<close>

definition calm_out :: "(fsys \<Rightarrow> bool) \<Rightarrow> 'z outcome \<Rightarrow> (int \<times> goerr option \<Rightarrow> fsys \<Rightarrow> bool) \<Rightarrow> bool" where
  "calm_out P m Q \<longleftrightarrow> (\<forall>w. P (fs w) \<and> faults w = [] \<longrightarrow> Q (fst (m w)) (fs (snd (m w))) \<and> faults (snd (m w)) = [])"

lemma calm_or_fail:
  fixes m :: "('a, 'z) io"
  assumes "calm P m R" and "\<And>x. calm_out (R x) (k x) Q"
  shows "calm_out P (or_fail g m k) Q"
  unfolding calm_out_def
proof (intro allI impI)
  fix w :: "'z world_scheme"
  assume w: "P (fs w) \<and> faults w = []"
  from assms(1) w [THEN conjunct1] w [THEN conjunct2] obtain x w1
    where m: "m w = (Inr x, w1)" and "R x (fs w1)" and "faults w1 = []" by (rule calmD)
  with assms(2) [of x] show "Q (fst (or_fail g m k w)) (fs (snd (or_fail g m k w))) \<and> faults (snd (or_fail g m k w)) = []"
    by (simp add: calm_out_def or_fail_def)
qed

section \<open>A disk the guest boots from\<close>

definition ram_dirs :: "string list" where
  "ram_dirs = map (\<lambda>s. overlayMountpoint @ s) [''/lower'', ''/upper'', ''/work'', ''/root'', ''/root/oldroot'']"

definition mount_dirs :: "string list" where
  "mount_dirs = [''/proc'', ''/sys'', ''/dev'', ''/dev/pts'', ''/dev/shm'', ''/run'', ''/tmp'', ''/kbuild'',
     ''/kernel'', ''/opt'', ''/opt/llvm'']"

definition free_dir :: "fsys \<Rightarrow> string \<Rightarrow> bool" where
  "free_dir f p \<longleftrightarrow> f p = None \<or> f p = Some NDir"

definition bootable :: "fsys \<Rightarrow> bool" where
  "bootable f \<longleftrightarrow> f overlayMountpoint = Some NDir \<and> f kernelShare = Some NDir \<and>
     list_all (\<lambda>p. f p = None) ram_dirs \<and> list_all (free_dir f) mount_dirs"

text \<open>What the set-up makes of the files: directories, at these places only.\<close>

definition set_up :: "fsys \<Rightarrow> fsys \<Rightarrow> bool" where
  "set_up f g \<longleftrightarrow> list_all (free_dir g) mount_dirs \<and> g kernelShare = Some NDir \<and>
     (\<forall>p. p \<notin> set ram_dirs \<union> set mount_dirs \<longrightarrow> g p = f p)"


lemma fold_dirs: "fold (\<lambda>a f. f(a \<mapsto> NDir)) as f p = (if p \<in> set as then Some NDir else f p)"
  by (induction as arbitrary: f) auto

lemma calm_Mkdir_at:
  "f p = None \<Longrightarrow> f (PathDir p) = Some NDir \<Longrightarrow> calm (\<lambda>g. g = f) (os_Mkdir p) (\<lambda>_ g. g = f(p \<mapsto> NDir))"
  by (rule calm_Mkdir) (simp add: parent_ok_def)

lemma calm_ret_same: "calm P (ret x) (\<lambda>_. P)"
  by (rule calm_ret)

lemma calm_mkdirs:
  assumes "distinct ds" and "\<forall>d \<in> set ds. f d = None \<and> PathDir d = q" and "f q = Some NDir"
  shows "calm (\<lambda>g. g = f) (forE ds (\<lambda>d. tryE (os_Mkdir d) (h d) ret) :: (unit, 'z) io) (\<lambda>_ g. g = fold (\<lambda>a f. f(a \<mapsto> NDir)) ds f)"
  using assms
proof (induction ds arbitrary: f)
  case Nil
  then show ?case by (simp add: calm_ret)
next
  case (Cons d ds)
  have "calm (\<lambda>g. g = f) (tryE (os_Mkdir d) (h d) ret :: (unit, 'z) io) (\<lambda>_ g. g = f(d \<mapsto> NDir))"
    by (rule calm_tryE [OF calm_Mkdir_at calm_ret_same]) (use Cons.prems in auto)
  moreover have "calm (\<lambda>g. g = f(d \<mapsto> NDir)) (forE ds (\<lambda>d. tryE (os_Mkdir d) (h d) ret) :: (unit, 'z) io)
      (\<lambda>_ g. g = fold (\<lambda>a f. f(a \<mapsto> NDir)) ds (f(d \<mapsto> NDir)))"
    by (rule Cons.IH) (use Cons.prems in auto)
  ultimately show ?case unfolding forE.simps fold.simps comp_def by (rule calm_tryE)
qed

lemma ram_dirs_facts:
  "ram_dirs = [''/ram/lower'', ''/ram/upper'', ''/ram/work'', ''/ram/root''] @ [''/ram/root/oldroot'']"
  "\<forall>d \<in> {''/ram/lower'', ''/ram/upper'', ''/ram/work'', ''/ram/root''}. PathDir d = ''/ram''"
  "PathDir ''/ram/root/oldroot'' = ''/ram/root''"
  by code_simp+

lemma calm_overlay:
  assumes "bootable f"
  shows "calm (\<lambda>g. g = f) setupOverlayRoot (\<lambda>_ g. g = fold (\<lambda>a f. f(a \<mapsto> NDir)) ram_dirs f)"
proof -
  let ?ds = "[''/ram/lower'', ''/ram/upper'', ''/ram/work'', ''/ram/root'']"
  let ?g = "fold (\<lambda>a f. f(a \<mapsto> NDir)) ?ds f"
  have p: "f ''/ram'' = Some NDir" "\<forall>p \<in> set ram_dirs. f p = None"
    using assms by (simp_all add: bootable_def overlayMountpoint_def list_all_iff)
  have 1: "calm (\<lambda>g. g = f) (forE ?ds (\<lambda>d. tryE (os_Mkdir d) (h d) ret)) (\<lambda>_ g. g = ?g)" for h
    by (rule calm_mkdirs [where q = "''/ram''"]) (use p [unfolded ram_dirs_facts(1)] ram_dirs_facts(2) in simp_all)
  have "?g ''/ram/root/oldroot'' = None" "?g ''/ram/root'' = Some NDir"
    unfolding fold_dirs using p(2) by (simp_all add: ram_dirs_facts(1))
  then have 2: "calm (\<lambda>g. g = ?g) (os_Mkdir ''/ram/root/oldroot'') (\<lambda>_ g. g = ?g(''/ram/root/oldroot'' \<mapsto> NDir))"
    by (intro calm_Mkdir_at) (simp_all only: ram_dirs_facts(3))
  have "fold (\<lambda>a f. f(a \<mapsto> NDir)) ram_dirs f = ?g(''/ram/root/oldroot'' \<mapsto> NDir)"
    by (simp only: ram_dirs_facts(1) fold_append fold.simps comp_def id_apply)
  then show ?thesis
    unfolding setupOverlayRoot_def Let_def mount_def overlayMountpoint_def append.simps
    by (simp only:) (rule calm_tryE calm_ignoreE calm_sys_call calm_ret_same 1 2)+
qed

lemma set_up_ram:
  assumes "bootable f"
  shows "set_up f (fold (\<lambda>a f. f(a \<mapsto> NDir)) ram_dirs f)"
  using assms by (auto simp: bootable_def set_up_def fold_dirs list_all_iff free_dir_def)

lemma calm_mount_dir:
  assumes "set (ancestors p) \<subseteq> set mount_dirs"
  shows "calm (set_up f) (os_MkdirAll p) (\<lambda>_. set_up f)"
  by (rule calm_MkdirAll) (use assms in \<open>auto simp: set_up_def list_all_iff fold_dirs free_dir_def\<close>)

lemma mount_ancestors: "list_all (\<lambda>p. set (ancestors p) \<subseteq> set mount_dirs) mount_dirs"
  by code_simp

lemma calm_mount_virtiofs: "p \<in> set mount_dirs \<Longrightarrow> calm (set_up f) (mountVirtiofs t p) (\<lambda>_. set_up f)"
  unfolding mountVirtiofs_def mount_def
  by (rule calm_tryE calm_mount_dir calm_sys_call calm_ret_same | (use mount_ancestors in \<open>simp add: list_all_iff\<close>))+

lemma base_targets: "s \<in> set base_mounts \<Longrightarrow> ms_target s \<in> set mount_dirs"
  by (auto simp: base_mounts_def mount_dirs_def)

lemma calm_mountBase: "calm (set_up f) mountBase (\<lambda>_. set_up f)"
  unfolding mountBase_def
proof (rule calm_forE)
  fix s
  assume "s \<in> set base_mounts"
  then have "set (ancestors (ms_target s)) \<subseteq> set mount_dirs"
    using base_targets mount_ancestors by (simp add: list_all_iff)
  then show "calm (set_up f) (mount_spec s) (\<lambda>_. set_up f)"
    unfolding mount_spec_def mount_def by (rule calm_tryE [OF calm_mount_dir]) (rule calm_catchE calm_sys_call calm_ret_same)+
qed

lemma calm_cmdlineHas:
  assumes "f ''/proc/cmdline'' = Some (NFile data m)"
  shows "calm (set_up f) (cmdlineHas t) (\<lambda>x g. set_up f g \<and> x = (t \<in> set (Fields data)))"
  unfolding cmdlineHas_def
proof (rule calm_catchE)
  have "''/proc/cmdline'' \<notin> set ram_dirs \<union> set mount_dirs" by (simp add: ram_dirs_def mount_dirs_def overlayMountpoint_def)
  with assms show "calm (set_up f) (os_ReadFile ''/proc/cmdline'') (\<lambda>x g. set_up f g \<and> x = data)"
    unfolding os_ReadFile_def by (intro calm_fs_read) (auto simp: set_up_def)
qed (rule calm_ret, simp)

lemma calm_mountShares:
  assumes "f ''/proc/cmdline'' = Some (NFile data m)"
  shows "calm (set_up f) mountShares (\<lambda>_. set_up f)"
  unfolding mountShares_def
proof (rule calm_tryE, rule calm_mount_virtiofs)
  fix x :: unit
  show "calm (set_up f) (tryE (cmdlineHas ''ossein.llvm=1'') id
     (\<lambda>llvm. if llvm then tryE (mountVirtiofs ''llvm'' ''/opt/llvm'') id (\<lambda>_. ret ()) else ret ())) (\<lambda>_. set_up f)"
  proof (rule calm_tryE, rule calm_cmdlineHas, rule assms)
    fix b :: bool
    have "''/opt/llvm'' \<in> set mount_dirs" by (simp add: mount_dirs_def)
    then have v: "calm (\<lambda>g. set_up f g \<and> b = c) (mountVirtiofs ''llvm'' ''/opt/llvm'') (\<lambda>_. set_up f)" for c
      by (rule calm_weaken [OF calm_mount_virtiofs]) simp_all
    show "calm (\<lambda>g. set_up f g \<and> b = (''ossein.llvm=1'' \<in> set (Fields data)))
       (if b then tryE (mountVirtiofs ''llvm'' ''/opt/llvm'') id (\<lambda>_. ret ()) else ret ()) (\<lambda>_. set_up f)"
      by (rule calm_if, rule calm_tryE [OF v calm_ret_same], rule calm_ret, simp)
  qed
qed (simp add: mount_dirs_def kernelShare_def)

section \<open>The build\<close>

text \<open>The environment of the script, and what its result counts as.\<close>

definition env_ok :: "fsys \<Rightarrow> bool" where
  "env_ok f \<longleftrightarrow> (case f envFile of None \<Rightarrow> True | Some (NFile b m) \<Rightarrow> snd (scan_lines b) = None | Some _ \<Rightarrow> False)"

definition guest_env :: "fsys \<Rightarrow> string list" where
  "guest_env f = base_env @ (case f envFile of Some (NFile b m) \<Rightarrow> env_lines (fst (scan_lines b)) | _ \<Rightarrow> [])"

definition exit_code :: "bash_result \<Rightarrow> int" where
  "exit_code res = (case res of BashOK \<Rightarrow> 0 | BashExit c \<Rightarrow> c | BashErr e \<Rightarrow> initFailedStatus)"

text \<open>
  A share the status can be written to, and a script that leaves it so; the script may do
  anything else to the files.
\<close>

definition share_ready :: "fsys \<Rightarrow> bool" where
  "share_ready f \<longleftrightarrow> f kernelShare = Some NDir \<and> openable f statusPath"

definition tidy :: "'z bash \<Rightarrow> bool" where
  "tidy bash \<longleftrightarrow> (\<forall>env v. faults v = [] \<and> share_ready (fs v) \<longrightarrow>
     faults (snd (bash env v)) = [] \<and> share_ready (fs (snd (bash env v))))"

lemma share_parents: "PathDir statusPath = kernelShare" "PathDir buildLog = kernelShare"
  by code_simp+

lemma share_files:
  "envFile \<notin> set ram_dirs \<union> set mount_dirs" "buildLog \<notin> set ram_dirs \<union> set mount_dirs"
  "statusPath \<notin> set ram_dirs \<union> set mount_dirs" "statusPath \<noteq> buildLog" "kernelShare \<noteq> buildLog"
  "statusPath \<noteq> kernelShare"
  by (simp_all add: envFile_def buildLog_def statusPath_def kernelShare_def ram_dirs_def mount_dirs_def overlayMountpoint_def)

lemma share_parent_ok: "f kernelShare = Some NDir \<Longrightarrow> p \<in> {buildLog, statusPath} \<Longrightarrow> parent_ok f p"
  by (auto simp: parent_ok_def share_parents)

lemma set_up_openable:
  assumes "set_up f g" and "f kernelShare = Some NDir" and "p \<in> {buildLog, statusPath}"
  shows "openable g p \<longleftrightarrow> openable f p"
proof -
  have "g p = f p" "g kernelShare = Some NDir" using assms(1,3) share_files by (auto simp: set_up_def)
  with share_parent_ok assms(2,3) show ?thesis by (simp add: openable_def split: option.splits)
qed

lemma calm_readEnvFile:
  assumes "env_ok f"
  shows "calm (set_up f) (readEnvFile envFile :: (string list, 'z) io) (\<lambda>x g. set_up f g \<and> x = guest_env f)"
proof (rule calmI)
  fix w :: "'z world_scheme"
  assume s: "set_up f (fs w)" and "faults w = []"
  moreover have "fs w envFile = f envFile" using s share_files(1) by (simp add: set_up_def)
  ultimately show "\<exists>x w'. readEnvFile envFile w = (Inr x, w') \<and> (set_up f (fs w') \<and> x = guest_env f) \<and> faults w' = []"
    using assms
    by (cases "scan_lines (concat [case f envFile of Some (NFile b m) \<Rightarrow> b | _ \<Rightarrow> []])")
      (auto simp: readEnvFile_def os_OpenRead_def os_ReadFile_def fs_read_def next_fault_def catchE_def tryE_def
        failE_def env_ok_def guest_env_def ret_def split: option.splits node.splits)
qed

lemma status_code_map: "status_code (c, map_option g e) = status_code (c, e)"
  by (simp add: status_code_def)

lemma calm_synced:
  assumes "faults w = []"
  shows "fs (snd (ignoreE (os_Sync p) (os_Close p) w)) = fs w" and "faults (snd (ignoreE (os_Sync p) (os_Close p) w)) = []"
  using assms by (simp_all add: ignoreE_eq os_Sync_def os_Close_def sys_call_def next_fault_def emit_def)

lemma calm_run_bash:
  assumes "tidy bash"
  shows "calm_out share_ready (run_bash bash env)
     (\<lambda>r g. share_ready g \<and> (\<exists>v. status_code r = exit_code (fst (bash env v))))"
  unfolding calm_out_def
proof (intro allI impI)
  fix w :: "'a world_scheme"
  let ?v = "emit (EvExec buildScript env, True) w"
  assume "share_ready (fs w) \<and> faults w = []"
  with assms [unfolded tidy_def, rule_format, of ?v env]
  have t: "faults (snd (bash env ?v)) = []" "share_ready (fs (snd (bash env ?v)))" by (simp_all add: emit_def)
  obtain res v where b: "bash env ?v = (res, v)" by (cases "bash env ?v")
  have "status_code (fst (run_bash bash env w)) = exit_code (fst (bash env ?v))" "snd (run_bash bash env w) = v"
    by (cases res; simp add: run_bash_def b status_code_def exit_code_def initFailedStatus_def)+
  with t b show "(share_ready (fs (snd (run_bash bash env w))) \<and>
      (\<exists>v. status_code (fst (run_bash bash env w)) = exit_code (fst (bash env v)))) \<and> faults (snd (run_bash bash env w)) = []"
    by (metis snd_conv)
qed

lemma calm_runBuild:
  assumes "bootable f" and "env_ok f" and "openable f buildLog" and "openable f statusPath" and "tidy bash"
  shows "calm_out (set_up f) (runBuild bash)
     (\<lambda>r g. share_ready g \<and> (\<exists>v. status_code r = exit_code (fst (bash (guest_env f) v))))"
  unfolding runBuild_def
proof (rule calm_or_fail [OF calm_readEnvFile [OF assms(2)]], rule calm_or_fail)
  fix env
  let ?R = "\<lambda>g. share_ready g \<and> env = guest_env f"
  have k: "f kernelShare = Some NDir" using assms(1) by (simp add: bootable_def)
  have o: "openable g p \<longleftrightarrow> openable f p" if "set_up f g" "p \<in> {buildLog, statusPath}" for g p
    using set_up_openable that k by blast
  show "calm (\<lambda>g. set_up f g \<and> env = guest_env f) (os_OpenTrunc buildLog fileMode) (\<lambda>_. ?R)"
    by (rule calm_OpenTrunc)
      (use assms(3,4) k o share_files in
        \<open>auto simp: share_ready_def set_up_def openable_def parent_ok_def share_parents split: option.splits node.splits\<close>)
  show "calm_out ?R (\<lambda>w. case run_bash bash env w of (r, w) \<Rightarrow> (r, snd (ignoreE (os_Sync buildLog) (os_Close buildLog) w)))
      (\<lambda>r g. share_ready g \<and> (\<exists>v. status_code r = exit_code (fst (bash (guest_env f) v))))"
    using calm_run_bash [OF assms(5), of env] by (auto simp: calm_out_def case_prod_beta calm_synced)
qed

section \<open>The whole guest\<close>

lemma calm_run:
  assumes "bootable f" and "env_ok f" and "openable f buildLog" and "openable f statusPath" and "tidy bash"
    and "f ''/proc/cmdline'' = Some (NFile data m)" and "''ossein.net=1'' \<notin> set (Fields data)"
  shows "calm_out (\<lambda>g. g = f) (Guest_Init.run nd bash)
     (\<lambda>r g. share_ready g \<and> (\<exists>v. status_code r = exit_code (fst (bash (guest_env f) v))))"
proof -
  note c = calm_cmdlineHas [of f data m "''ossein.net=1''", OF assms(6)]
  have b: "calm_out (set_up f) (\<lambda>w. case runBuild bash w of ((code, err), w) \<Rightarrow> ((code, map_option (wrap ''build: '') err), w))
     (\<lambda>r g. share_ready g \<and> (\<exists>v. status_code r = exit_code (fst (bash (guest_env f) v))))"
    using calm_runBuild [OF assms(1-5)]
    by (simp add: calm_out_def case_prod_beta status_code_map)
  show ?thesis
    unfolding run_def
  proof (rule calm_or_fail [OF calm_overlay [OF assms(1)]], rule calm_or_fail, rule calm_weaken [OF calm_mountBase])
    fix x :: unit
    show "\<And>g. g = fold (\<lambda>a f. f(a \<mapsto> NDir)) ram_dirs f \<Longrightarrow> set_up f g" using set_up_ram [OF assms(1)] by simp
  qed (assumption, rule calm_or_fail [OF calm_mountShares [of f data m, OF assms(6)]], rule calm_or_fail [OF c],
    rule calm_or_fail [OF _ b], use assms(7) in \<open>auto intro: calm_ret calm_never\<close>)
qed

lemma calm_writeStatus:
  "calm share_ready (writeStatus code) (\<lambda>_ g. \<exists>m. g statusPath = Some (NFile (Itoa code @ [CHR 0x0A]) m))"
proof -
  let ?done = "\<lambda>g. g kernelShare = Some NDir \<and> (\<exists>m. g statusPath = Some (NFile (Itoa code @ [CHR 0x0A]) m))"
  have o: "calm share_ready (os_OpenTrunc statusPath fileMode)
      (\<lambda>_ g. g kernelShare = Some NDir \<and> (\<exists>m. g statusPath = Some (NFile [] m)))"
    by (rule calm_OpenTrunc) (use share_files(6) in \<open>auto simp: share_ready_def\<close>)
  have w: "calm (\<lambda>g. g kernelShare = Some NDir \<and> (\<exists>m. g statusPath = Some (NFile [] m)))
      (os_Write statusPath (Itoa code @ [CHR 0x0A])) (\<lambda>_. ?done)"
    by (rule calm_Write) (use share_files(6) in \<open>auto simp: append_file_def\<close>)
  have d: "calm ?done (os_OpenDir kernelShare) (\<lambda>_. ?done)"
    unfolding os_Stat_def by (rule calm_fs_read) auto
  have "calm share_ready (writeStatus code) (\<lambda>_. ?done)"
    unfolding writeStatus_def os_Sync_def os_Close_def
    by (rule calm_tryE [OF o], rule calm_catchE [OF w], rule calm_catchE, rule calm_sys_call,
      rule calm_tryE, rule calm_sys_call, rule calm_catchE [OF d])
      (rule calm_ignoreE calm_sys_call calm_ret_same)+
  then show ?thesis by (rule calm_weaken) simp_all
qed

lemma guest_reports:
  fixes w :: "'z world_scheme"
  assumes "faults w = []" and "bootable (fs w)" and "env_ok (fs w)"
    and "openable (fs w) buildLog" and "openable (fs w) statusPath" and "tidy bash"
    and "fs w ''/proc/cmdline'' = Some (NFile data m)" and "''ossein.net=1'' \<notin> set (Fields data)"
  shows "\<exists>v m. fs (guest_main nd bash w) statusPath =
     Some (NFile (Itoa (exit_code (fst (bash (guest_env (fs w)) v))) @ [CHR 0x0A]) m)"
proof -
  obtain r w1 where r: "Guest_Init.run nd bash (w\<lparr>umask := 0\<rparr>) = (r, w1)" by (cases "Guest_Init.run nd bash (w\<lparr>umask := 0\<rparr>)")
  have "share_ready (fs w1) \<and> (\<exists>v. status_code r = exit_code (fst (bash (guest_env (fs w)) v))) \<and> faults w1 = []"
    using calm_run [of "fs w" bash data m nd, OF assms(2-8), unfolded calm_out_def, rule_format, of "w\<lparr>umask := 0\<rparr>"] assms(1) r
    by simp
  then obtain v
    where g: "share_ready (fs w1)" "faults w1 = []" "status_code r = exit_code (fst (bash (guest_env (fs w)) v))"
    by blast
  from calm_writeStatus [of "status_code r"] g(1,2) obtain u w2
    where s: "writeStatus (status_code r) w1 = (Inr u, w2)"
      and m: "\<exists>m. fs w2 statusPath = Some (NFile (Itoa (status_code r) @ [CHR 0x0A]) m)" and "faults w2 = []"
    by (rule calmD)
  have "fs (guest_main nd bash w) = fs w2"
    using s \<open>faults w2 = []\<close> by (simp add: guest_main_def r ignoreE_eq sys_call_def next_fault_def emit_def)
  with m g(3) show ?thesis by auto
qed

text \<open>
  C9. Nothing is lost on the way to the host when no call fails: on a disk it can boot from,
  with the share at its mount point and without the network, PID 1 sets the machine up, runs
  the script with the environment of the share's file, and leaves in the share exactly the
  script's exit code, whatever the script did to the other files.
\<close>

theorem calm_guest_reports:
  fixes w :: "'z world_scheme"
  assumes "faults w = []" and "bootable (fs w)" and "env_ok (fs w)"
    and "openable (fs w) buildLog" and "openable (fs w) statusPath" and "tidy bash"
    and "fs w ''/proc/cmdline'' = Some (NFile data m)" and "''ossein.net=1'' \<notin> set (Fields data)"
  shows "\<exists>v m. fs (guest_main nd bash w) statusPath =
     Some (NFile (Itoa (exit_code (fst (bash (guest_env (fs w)) v))) @ [CHR 0x0A]) m)"
  using assms by (rule guest_reports)

text \<open>A script that fails, on a small disk with an environment.\<close>

definition exits_3 :: "unit bash" where "exits_3 env w = (BashExit 3, w)"

definition small_disk :: fsys where
  "small_disk = [''/ram'' \<mapsto> NDir, ''/kernel'' \<mapsto> NDir, ''/proc/cmdline'' \<mapsto> NFile ''ro'' 292,
     ''/kernel/build.env'' \<mapsto> NFile ''A=1'' 420]"

lemma exits_3_tidy: "tidy exits_3"
  by (simp add: tidy_def exits_3_def)

lemma small_disk_boots:
  "bootable small_disk" "env_ok small_disk" "openable small_disk buildLog" "openable small_disk statusPath"
proof -
  have "raw_lines ''A=1'' = [''A=1'']" by code_simp
  then show "env_ok small_disk"
    by (simp add: env_ok_def small_disk_def envFile_def scan_lines_def max_line_def)
  have "f kernelShare = Some NDir \<Longrightarrow> f p = None \<Longrightarrow> p \<in> {buildLog, statusPath} \<Longrightarrow> openable f p" for f p
    by (simp add: openable_def share_parent_ok)
  then show "openable small_disk buildLog" "openable small_disk statusPath"
    by (simp_all add: small_disk_def kernelShare_def buildLog_def statusPath_def)
qed code_simp

lemma calm_guest_reports_witness:
  "\<exists>m. fs (guest_main no_net exits_3 \<lparr>fs = small_disk, hist = [], log = [], faults = [], umask = 18\<rparr>) statusPath =
     Some (NFile (''3'' @ [CHR 0x0A]) m)"
proof -
  have "''ossein.net=1'' \<notin> set (Fields ''ro'')" "Itoa 3 = ''3''" by code_simp+
  then show ?thesis
    using calm_guest_reports [of "\<lparr>fs = small_disk, hist = [], log = [], faults = [], umask = 18\<rparr>" exits_3 "''ro''" 292 no_net]
      small_disk_boots exits_3_tidy
    by (simp add: small_disk_def exits_3_def exit_code_def)
qed

end
