(* ===== verification/Host_Guest.thy ===== *)
theory Host_Guest
  imports Boot_Safety Guest_Calm
begin

text \<open>
  The host and its guest together: PID 1 runs on the other side of the share a machine is
  given, and the status it leaves there is what the boot returns.
\<close>

section \<open>The share\<close>

text \<open>
  A directory of the host as the guest's \<^verbatim>\<open>/kernel\<close> share, the rest of its files being
  those of its root disk; and what the guest leaves in the share, back on the host.
\<close>

definition to_guest :: "string \<Rightarrow> fsys \<Rightarrow> fsys \<Rightarrow> fsys" where
  "to_guest d root f p = (if below kernelShare p then f (d @ drop (length kernelShare) p) else root p)"

definition to_host :: "string \<Rightarrow> fsys \<Rightarrow> fsys \<Rightarrow> fsys" where
  "to_host d f g p = (if below d p then g (kernelShare @ drop (length d) p) else f p)"

text \<open>The world PID 1 boots in.\<close>

definition boot_world :: "string \<Rightarrow> fsys \<Rightarrow> fault list \<Rightarrow> fsys \<Rightarrow> world" where
  "boot_world d root flts f = \<lparr>fs = to_guest d root f, hist = [], log = [], faults = flts, umask = 18\<rparr>"

text \<open>
  A machine whose guest is PID 1 with a given root disk: whatever the host's files are when
  it starts, the share holds at the end what PID 1 left in it.
\<close>

definition runs_guest ::
    "'z vm_deps \<Rightarrow> vmc \<Rightarrow> string \<Rightarrow> (fsys \<Rightarrow> world) \<Rightarrow> (world, 'c) netdeps \<Rightarrow> unit bash \<Rightarrow> bool" where
  "runs_guest vd vm d world nd bash \<longleftrightarrow>
     (\<forall>w. fs (snd (vm_starting vd vm w)) = fs w \<and>
          fs (snd (vm_running vd vm w)) = to_host d (fs w) (fs (guest_main nd bash (world (fs w)))))"

lemma share_status:
  assumes "named_dir d" and "Clean d = d"
  shows "PathJoin d statusFile = d @ ''/status''"
proof -
  have n: "name_ok statusFile" by (simp add: statusFile_def name_ok_def elem_ok_def dot_def dotdot_def)
  have d: "dir_elems d = parse_path d" using Clean_not_Nil [of d] assms(2) by (simp add: dir_elems_def)
  obtain r ds where p: "parse_path d = (r, ds)" by (cases "parse_path d")
  have "PathJoin d statusFile = render_path (r, ds @ [statusFile])" using PathJoin_name(1) [OF n, of d] d p by simp
  also have "\<dots> = d @ ''/'' @ statusFile" using below_render(1) [OF assms(1) _ p, of "[statusFile]"] n assms(2) by simp
  finally show ?thesis by (simp add: statusFile_def)
qed

text \<open>A boot that returns zero, from a share without a status.\<close>

lemma boot_zero:
  fixes vd :: "'z vm_deps" and w :: "'z host_scheme"
  assumes "runs_guest vd vm d (boot_world d root flts) nd bash" and "spares_status nd bash"
    and "named_dir d" and "Clean d = d"
    and "fs w (PathJoin d statusFile) = None" and "boot vd vm d w = (Inr 0, w')"
  shows "\<exists>f. all_steps bash ((boot_world d root flts f)\<lparr>umask := 0\<rparr>)"
proof -
  let ?p = "PathJoin d statusFile"
  have p: "?p = d @ ''/status''" by (rule share_status [OF assms(3,4)])
  obtain w1 w2 w3 :: "'z host_scheme" where w: "fs w1 = fs w"
      "fs w2 = to_host d (fs w1) (fs (guest_main nd bash (boot_world d root flts (fs w1))))"
      and rs: "readStatus ?p w2 = (Inr 0, w3)"
    using assms(6)
  proof (cases rule: boot_cases)
    case (3 w1 w2 w3 evs1 evs2 hard)
    have "fs w1 = fs w"
      using assms(1) 3(1) unfolding runs_guest_def by (metis host_fields(3) snd_conv)
    moreover have "fs w2 = to_host d (fs w1) (fs (guest_main nd bash (boot_world d root flts (fs w1))))"
      using assms(1) 3(3) unfolding runs_guest_def by (metis snd_conv)
    ultimately show ?thesis using 3(5) by (rule that)
  qed simp_all
  let ?g = "boot_world d root flts (fs w1)"
  let ?code = "status_code (fst (Guest_Init.run nd bash (?g\<lparr>umask := 0\<rparr>)))"
  have "fs ?g statusPath = None"
    using assms(5) w(1) p by (simp add: boot_world_def to_guest_def below_def statusPath_def kernelShare_def)
  from guest_status_part [OF assms(2) this]
  have part: "part_of statusPath (Itoa ?code @ [CHR 0x0A]) (fs (guest_main nd bash ?g))" .
  have "fs w2 ?p = fs (guest_main nd bash ?g) statusPath"
    unfolding w(2) p by (simp add: to_host_def below_def statusPath_def kernelShare_def HasPrefix_def)
  moreover obtain b where b: "bytes_at (fs w2) ?p = Some b" "Atoi (TrimSpace b) = Inr 0"
    using readStatus_ok [OF rs] by blast
  ultimately obtain k where "b = take k (Itoa ?code @ [CHR 0x0A])"
    using part by (auto simp: part_of_def bytes_at_def)
  with b(2) status_prefix_zero have "?code = 0" by blast
  then show ?thesis using run_zero by (auto simp: status_code_zero)
qed

text \<open>Without faults the boot test starts from a share without a status.\<close>

lemma calm_calls:
  assumes "faults w = []"
  shows "faults (snd (os_MkdirAll p w)) = []" and "fs (snd (os_Remove p w)) p = None"
  using assms by (simp_all add: os_MkdirAll_def os_Remove_def fs_call_def next_fault_def set_fs_def emit_def)

section \<open>What a passed boot test means\<close>


text \<open>A root disk and a machine of it, for the witness.\<close>

definition toy_root :: fsys where
  "toy_root = [''/ram'' \<mapsto> NDir, ''/proc/cmdline'' \<mapsto> NFile ''ro'' 292]"

definition toy_boot :: "fsys \<Rightarrow> world" where
  "toy_boot = boot_world ''/b/kernel-scratch/smoke'' toy_root []"

definition guest_vd :: "unit vm_deps" where
  "guest_vd = (toy_vm None)\<lparr>vm_running := (\<lambda>vm w.
     ([Changed Stopped],
      w\<lparr>fs := to_host ''/b/kernel-scratch/smoke'' (fs w) (fs (guest_main no_net ok_bash (toy_boot (fs w))))\<rparr>))\<rparr>"

lemma spares_toy: "spares_status no_net ok_bash"
  by (simp add: spares_status_def net_keeps_def bash_keeps_def no_net_def ok_bash_def keeps_ret keeps_failE)

text \<open>What the host has staged for the boot test, and what the guest finds in the share.\<close>

definition toy_smoke :: fsys where
  "toy_smoke = [''/b'' \<mapsto> NDir, ''/b/kernel-scratch'' \<mapsto> NDir, ''/b/kernel-scratch/smoke'' \<mapsto> NDir,
     ''/b/kernel-scratch/smoke/build.sh'' \<mapsto> NFile smoke_script 384]"

lemma toy_paths:
  "smoke_dir ''/b'' = ''/b/kernel-scratch/smoke''"
  "PathJoin ''/b/kernel-scratch/smoke'' statusFile = ''/b/kernel-scratch/smoke/status''"
  "PathJoin ''/b/kernel-scratch/smoke'' ''build.sh'' = ''/b/kernel-scratch/smoke/build.sh''"
  "ancestors ''/b/kernel-scratch/smoke'' = [''/b'', ''/b/kernel-scratch'', ''/b/kernel-scratch/smoke'']"
  by code_simp+

lemma toy_shared:
  "to_guest ''/b/kernel-scratch/smoke'' toy_root toy_smoke =
     [''/ram'' \<mapsto> NDir, ''/proc/cmdline'' \<mapsto> NFile ''ro'' 292, ''/kernel'' \<mapsto> NDir,
      ''/kernel/build.sh'' \<mapsto> NFile smoke_script 384]" (is "_ = ?m")
proof
  fix p
  show "to_guest ''/b/kernel-scratch/smoke'' toy_root toy_smoke p = ?m p"
  proof (cases "below kernelShare p")
    case True
    then obtain q where "p = ''/kernel'' @ q" by (auto simp: below_def kernelShare_def HasPrefix_iff)
    with True show ?thesis by (simp add: to_guest_def toy_smoke_def kernelShare_def)
  next
    case False
    then show ?thesis by (auto simp: to_guest_def toy_root_def below_def kernelShare_def HasPrefix_def)
  qed
qed

lemma toy_guest_zero: "\<exists>m. fs (guest_main no_net ok_bash (toy_boot toy_smoke)) statusPath = Some (NFile (''0'' @ [CHR 0x0A]) m)"
proof -
  have f: "fs (toy_boot toy_smoke) = [''/ram'' \<mapsto> NDir, ''/proc/cmdline'' \<mapsto> NFile ''ro'' 292, ''/kernel'' \<mapsto> NDir,
      ''/kernel/build.sh'' \<mapsto> NFile smoke_script 384]"
    by (simp add: toy_boot_def boot_world_def toy_shared)
  have "bootable (fs (toy_boot toy_smoke))" unfolding f by code_simp
  moreover have "env_ok (fs (toy_boot toy_smoke))" unfolding f by (simp add: env_ok_def envFile_def)
  moreover have "openable (fs (toy_boot toy_smoke)) p" if "p = buildLog \<or> p = statusPath" for p
    unfolding f openable_def using that
    by (auto simp: share_parent_ok kernelShare_def buildLog_def statusPath_def)
  moreover have "tidy ok_bash" by (simp add: tidy_def ok_bash_def)
  moreover have "''ossein.net=1'' \<notin> set (Fields ''ro'')" "Itoa 0 = ''0''" by code_simp+
  ultimately show ?thesis
    using guest_reports [of "toy_boot toy_smoke" ok_bash "''ro''" 292 no_net]
    by (simp add: f) (simp add: toy_boot_def boot_world_def ok_bash_def exit_code_def)
qed

text \<open>The host's boot of it.\<close>

lemma toy_boot_zero:
  fixes w :: host
  assumes "fs w = toy_smoke" and "faults w = []"
  shows "\<exists>w'. boot guest_vd vm ''/b/kernel-scratch/smoke'' w = (Inr 0, w')"
proof -
  from toy_guest_zero obtain m where
    g: "fs (guest_main no_net ok_bash (toy_boot toy_smoke)) statusPath = Some (NFile (''0'' @ [CHR 0x0A]) m)" by blast
  let ?w = "(emit (EvVm (fst (vmc_boot vm)), True) w)\<lparr>fs := to_host ''/b/kernel-scratch/smoke'' toy_smoke
      (fs (guest_main no_net ok_bash (toy_boot toy_smoke)))\<rparr>"
  have p: "fs ?w ''/b/kernel-scratch/smoke/status'' = Some (NFile (''0'' @ [CHR 0x0A]) m)"
    using g by (simp add: to_host_def below_def kernelShare_def statusPath_def)
  have n: "TrimSpace (''0'' @ [CHR 0x0A]) = ''0''" "Atoi ''0'' = Inr 0"
    "Start None (start_events ([(1, Starting), (700, Running)], Running, Running)) = Some (Inr ())"
    "Wait [Changed Stopped] = Some (Inr (), False)" by code_simp+
  have "readStatus ''/b/kernel-scratch/smoke/status'' ?w = (Inr 0, ?w)"
    using p n(1,2) assms(2)
    by (simp add: readStatus_def os_ReadFile_def fs_read_def next_fault_def catchE_def ret_def emit_def)
  with n(3,4) assms show ?thesis
    by (simp add: boot_def guest_vd_def toy_vm_def toy_paths emit_def)
qed


end
