(* ===== verification/Fetch_Safety.thy ===== *)
theory Fetch_Safety
  imports Host_Config "HOL-Library.Code_Target_Nat"
begin

text \<open>
  What the downloads guarantee: the destination of \<^verbatim>\<open>fetchFile\<close> at every moment of a
  run, what a fetch that returns has verified, how many requests it makes, when the watchdog
  fires and how long a transfer may take, and that different pins never share a file.
\<close>

section \<open>The destination\<close>

text \<open>
  C7. A fetch that is killed or fails, whenever it happens, leaves at the destination what
  was there before or an artifact that passed the checksum given.
\<close>

theorem fetch_never_partial:
  assumes "proper_file dest" and "disk_inv (old_or_good dest old (verified d want)) w"
  shows "disk_inv (old_or_good dest old (verified d want)) (snd (fetchFile d url dest want label w))"
  using assms by (rule fetchFile_safe)

text \<open>A transfer cut in the middle by a write that fails.\<close>

definition cut_transfer :: host where
  "cut_transfer = (host_world [''c'' \<mapsto> NDir] [Response 1 200 ''200 OK'' [(1, ''ke'', More), (1, ''rnel'', Eof)]])
     \<lparr>faults := [Pass, Pass, Pass, Pass, Fail ENOSPC 2 []]\<rparr>"

lemma fetch_never_partial_witness:
  "fs (snd (fetchFile toy_fetch ''u'' ''c/k'' ''kernel'' ''k'' cut_transfer)) ''c/k'' = None \<and>
   fs (snd (fetchFile toy_fetch ''u'' ''c/k'' ''kernel'' ''k'' cut_transfer)) ''c/k.part'' = Some (NFile ''kern'' 420)"
proof -
  let ?good = "verified toy_fetch ''kernel''"
  let ?w = "snd (fetchFile toy_fetch ''u'' ''c/k'' ''kernel'' ''k'' cut_transfer)"
  have "proper_file ''c/k''" unfolding proper_file_def by code_simp
  moreover have "disk_inv (old_or_good ''c/k'' None ?good) cut_transfer"
    by (simp add: disk_inv_def old_or_good_def cut_transfer_def host_world_def)
  ultimately have "disk_inv (old_or_good ''c/k'' None ?good) ?w" by (rule fetch_never_partial)
  then have "fs ?w ''c/k'' = None \<or> (\<exists>n. fs ?w ''c/k'' = Some n \<and> ?good n)"
    by (simp add: disk_inv_def old_or_good_def)
  moreover have "fs ?w ''c/k'' = None \<and> fs ?w ''c/k.part'' = Some (NFile ''kern'' 420)" by code_simp
  ultimately show ?thesis by blast
qed

text \<open>
  C24. A fetch that returns has left at the destination a file whose bytes hash to the pin
  (in either case of the hexadecimal digits), downloaded or cached.
\<close>

theorem fetch_verified:
  assumes "fetchFile d url dest want label w = (Inr u, w')" and "want \<noteq> []"
  shows "\<exists>b m. fs w' dest = Some (NFile b m) \<and> EqualFold (sha256_hex d b) want"
  using fetchFile_verified [OF assms] assms(2) by (auto simp: verified_def)

definition whole_transfer :: host where
  "whole_transfer = host_world [''c'' \<mapsto> NDir] [DoErr 5 ctxCanceled, Response 1 200 ''200 OK'' [(1, ''kernel'', Eof)]]"

lemma fetch_verified_witness:
  "\<exists>b m. fs (snd (fetchFile toy_fetch ''u'' ''c/k'' ''KERNEL'' ''k'' whole_transfer)) ''c/k'' = Some (NFile b m) \<and>
     EqualFold (sha256_hex toy_fetch b) ''KERNEL''"
proof -
  have "fst (fetchFile toy_fetch ''u'' ''c/k'' ''KERNEL'' ''k'' whole_transfer) = Inr ()" by code_simp
  then have "fetchFile toy_fetch ''u'' ''c/k'' ''KERNEL'' ''k'' whole_transfer =
      (Inr (), snd (fetchFile toy_fetch ''u'' ''c/k'' ''KERNEL'' ''k'' whole_transfer))"
    unfolding prod_eq_iff by (simp only: fst_conv snd_conv simp_thms)
  from fetch_verified [OF this] show ?thesis by simp
qed

section \<open>Requests\<close>

definition is_request :: "event \<times> bool \<Rightarrow> bool" where
  "is_request e = (case fst e of EvNet u \<Rightarrow> True | _ \<Rightarrow> False)"

definition requests :: "'z world_scheme \<Rightarrow> nat" where
  "requests w = length (filter is_request (log w))"

lemma requests_simps [simp]:
  "requests (w\<lparr>faults := fts\<rparr>) = requests w" "requests (set_fs f w) = requests w"
  "requests (emit (e, b) w) = requests w + (case e of EvNet u \<Rightarrow> 1 | _ \<Rightarrow> 0)"
  by (auto simp: requests_def set_fs_def emit_def is_request_def split: event.split)

lemma requests_host [simp]:
  "requests (w\<lparr>now := t\<rparr>) = requests w" "requests (w\<lparr>net := r\<rparr>) = requests w"
  by (simp_all add: requests_def)

lemma next_fault_requests: "next_fault w = (ft, w') \<Longrightarrow> requests w' = requests w"
  by (simp add: requests_def next_fault_fs)

lemma fs_call_requests:
  "(case ev of EvNet u \<Rightarrow> False | _ \<Rightarrow> True) \<Longrightarrow> requests (snd (fs_call ev pre eff partway w)) = requests w"
proof -
  assume ev: "case ev of EvNet u \<Rightarrow> False | _ \<Rightarrow> True"
  obtain ft w1 where nf: "next_fault w = (ft, w1)" by (cases "next_fault w")
  with ev next_fault_requests [OF nf] show ?thesis
    by (cases ft; cases "pre (fs w1)") (auto simp: fs_call_def split: event.splits)
qed

lemma sys_call_requests:
  "(case ev of EvNet u \<Rightarrow> False | _ \<Rightarrow> True) \<Longrightarrow> requests (snd (sys_call ev w)) = requests w"
proof -
  assume ev: "case ev of EvNet u \<Rightarrow> False | _ \<Rightarrow> True"
  obtain ft w1 where nf: "next_fault w = (ft, w1)" by (cases "next_fault w")
  with ev next_fault_requests [OF nf] show ?thesis
    by (cases ft) (auto simp: sys_call_def split: event.splits)
qed

lemma os_requests [simp]:
  "requests (snd (os_Create p w)) = requests w" "requests (snd (os_Write p b w)) = requests w"
  "requests (snd (os_Close p w)) = requests w"
  unfolding os_Create_def os_OpenTrunc_def os_Write_def os_Close_def
  by (rule fs_call_requests sys_call_requests, simp)+

lemma copy_requests: "requests (snd (copyWithProgress idle dst deadline src written w)) = requests w"
proof (induction src arbitrary: deadline written w)
  case (Cons ev src)
  obtain rr dl src' w1 where sr: "stall_Read idle deadline (ev # src) w = ((rr, dl, src'), w1)"
    by (metis prod.collapse)
  have w1: "requests w1 = requests w" using stall_Read_world [OF sr] by auto
  show ?case
  proof (cases rr)
    case (Interrupted st)
    with sr w1 show ?thesis by (simp add: copy_interrupted)
  next
    case (Got b e)
    obtain q w2 where q: "(if length b > 0 then os_Write dst b w1 else (Inr (), w1)) = (q, w2)"
      by (metis prod.collapse)
    have "requests w2 = requests w" using arg_cong [OF q, of "\<lambda>x. requests (snd x)"] w1 by (simp split: if_splits)
    moreover have "src' = src" using stall_Read_Got sr Got by blast
    ultimately show ?thesis using Cons.IH
      by (simp add: copy_got [OF sr [unfolded Got] q] split: sum.split read_end.split)
  qed
next
  case Nil
  show ?case by (simp add: copyWithProgress.simps stall_Read_def Let_def split: prod.split)
qed

lemma copy_body_requests: "requests (snd (copy_body tmp body label w)) = requests w"
proof -
  obtain k err st w1 where c:
    "copyWithProgress downloadIdleTimeout tmp (now w + downloadIdleTimeout) body 0 w = ((k, err, st), w1)"
    by (metis prod.collapse)
  obtain r w2 where cl: "os_Close tmp w1 = (r, w2)" by (cases "os_Close tmp w1")
  have "requests w2 = requests w"
    using arg_cong [OF c, of "\<lambda>x. requests (snd x)"] arg_cong [OF cl, of "\<lambda>x. requests (snd x)"]
    by (simp add: copy_requests)
  then show ?thesis by (simp add: copy_body_def c cl Let_def split: sum.split option.split)
qed

lemma attempt_requests: "requests (snd (downloadAttempt d url tmp label w)) \<le> Suc (requests w)"
proof -
  obtain r w1 where cd: "client_Do url w = (r, w1)" by (cases "client_Do url w")
  have w1: "requests w1 = Suc (requests w)"
    using cd by (auto simp: client_Do_def Let_def split: list.splits if_splits net_reply.splits)
  have cr: "requests (snd (tryE (os_Create tmp) f (\<lambda>_. copy_body tmp body label) w1)) = requests w1" for f body
  proof -
    obtain q w2 where q: "os_Create tmp w1 = (q, w2)" by (cases "os_Create tmp w1")
    from arg_cong [OF this, of "\<lambda>x. requests (snd x)"] have "requests w2 = requests w1" by simp
    with q copy_body_requests [of tmp body label w2] show ?thesis
      by (cases q) (simp_all add: tryE_def catchE_def failE_def)
  qed
  show ?thesis
    using w1 cr cd
    by (auto simp: downloadAttempt_def tryE_def [of "client_Do url"] catchE_def [of "client_Do url"]
        failE_def split: sum.split)
qed

text \<open>Time goes on, and a cancelled context stays cancelled.\<close>

definition later :: "'z host_scheme \<Rightarrow> 'z host_scheme \<Rightarrow> bool" where
  "later w w' \<longleftrightarrow> now w \<le> now w' \<and> cancel_at w' = cancel_at w"

lemma later_refl [simp]: "later w w"
  by (simp add: later_def)

lemma later_trans: "later u v \<Longrightarrow> later v w \<Longrightarrow> later u w"
  by (auto simp: later_def)

lemma later_ctx_done: "later w w' \<Longrightarrow> ctx_done w \<Longrightarrow> ctx_done w'"
  by (auto simp: later_def ctx_done_def split: option.splits)

lemma later_updates [simp]:
  "later w (w'\<lparr>faults := fts\<rparr>) = later w w'" "later w (set_fs f w') = later w w'"
  "later w (emit e w') = later w w'" "later w (w'\<lparr>net := r\<rparr>) = later w w'"
  "later w (w\<lparr>now := t\<rparr>) \<longleftrightarrow> now w \<le> t"
  by (auto simp: later_def set_fs_def emit_def)

lemma later_net_now [simp]: "later w (w\<lparr>net := r, now := t\<rparr>) \<longleftrightarrow> now w \<le> t"
  by (auto simp: later_def)

lemma next_fault_later: "next_fault w = (ft, w') \<Longrightarrow> later w w'"
  by (auto simp: next_fault_def split: list.splits)

lemma fs_call_later: "fs_call ev pre eff partway w = (r, w') \<Longrightarrow> later w w'"
proof -
  assume c: "fs_call ev pre eff partway w = (r, w')"
  obtain ft w1 where nf: "next_fault w = (ft, w1)" by (cases "next_fault w")
  with c next_fault_later [OF nf] show ?thesis
    by (cases ft; cases "pre (fs w1)") (auto simp: fs_call_def)
qed

lemma sys_call_later: "sys_call ev w = (r, w') \<Longrightarrow> later w w'"
proof -
  assume c: "sys_call ev w = (r, w')"
  obtain ft w1 where nf: "next_fault w = (ft, w1)" by (cases "next_fault w")
  with c next_fault_later [OF nf] show ?thesis
    by (cases ft) (auto simp: sys_call_def)
qed

lemma os_later:
  "os_Create p w = (r, w') \<Longrightarrow> later w w'" "os_Write p b w = (r, w') \<Longrightarrow> later w w'"
  "os_Close p w = (r, w') \<Longrightarrow> later w w'"
  unfolding os_Create_def os_OpenTrunc_def os_Write_def os_Close_def
  by (erule fs_call_later, erule fs_call_later, erule sys_call_later)

lemma stall_Read_later: "stall_Read idle deadline src w = (r, w') \<Longrightarrow> later w w'"
  by (auto simp: stall_Read_def Let_def split: prod.splits list.splits if_splits)

lemma copy_later: "later w (snd (copyWithProgress idle dst deadline src written w))"
proof (induction src arbitrary: deadline written w)
  case (Cons ev src)
  obtain rr dl src' w1 where sr: "stall_Read idle deadline (ev # src) w = ((rr, dl, src'), w1)"
    by (metis prod.collapse)
  have w1: "later w w1" by (rule stall_Read_later [OF sr])
  show ?case
  proof (cases rr)
    case (Interrupted st)
    with sr w1 show ?thesis by (simp add: copy_interrupted)
  next
    case (Got b e)
    obtain q w2 where q: "(if length b > 0 then os_Write dst b w1 else (Inr (), w1)) = (q, w2)"
      by (metis prod.collapse)
    have "later w w2" using q w1 os_later(2) [of dst b w1 q w2] by (auto split: if_splits intro: later_trans)
    moreover have "src' = src" using stall_Read_Got sr Got by blast
    ultimately show ?thesis using Cons.IH later_trans
      by (simp add: copy_got [OF sr [unfolded Got] q] split: sum.split read_end.split) blast
  qed
next
  case Nil
  show ?case by (simp add: copyWithProgress.simps stall_Read_def Let_def split: prod.split)
qed

lemma copy_body_later: "later w (snd (copy_body tmp body label w))"
proof -
  obtain k err st w1 where c:
    "copyWithProgress downloadIdleTimeout tmp (now w + downloadIdleTimeout) body 0 w = ((k, err, st), w1)"
    by (metis prod.collapse)
  obtain r w2 where cl: "os_Close tmp w1 = (r, w2)" by (cases "os_Close tmp w1")
  have "later w w1" using copy_later c by (metis snd_conv)
  with os_later(3) [OF cl] have "later w w2" by (rule later_trans [rotated])
  then show ?thesis by (simp add: copy_body_def c cl Let_def split: sum.split option.split)
qed

lemma attempt_later: "later w (snd (downloadAttempt d url tmp label w))"
proof -
  obtain r w1 where cd: "client_Do url w = (r, w1)" by (cases "client_Do url w")
  have w1: "later w w1"
    using cd by (auto simp: client_Do_def Let_def split: list.splits if_splits net_reply.splits)
  have cr: "later w1 (snd (tryE (os_Create tmp) f (\<lambda>_. copy_body tmp body label) w1))" for f body
  proof -
    obtain q w2 where q: "os_Create tmp w1 = (q, w2)" by (cases "os_Create tmp w1")
    have "later w1 w2" by (rule os_later(1) [OF q])
    with q copy_body_later [of w2 tmp body label] show ?thesis
      by (cases q) (auto simp: tryE_def catchE_def failE_def intro: later_trans)
  qed
  show ?thesis
    using w1 cr cd later_trans [OF w1]
    by (auto simp: downloadAttempt_def tryE_def [of "client_Do url"] catchE_def [of "client_Do url"]
        failE_def split: sum.split)
qed

lemma retry_wait_later: "retry_wait w = (b, w') \<Longrightarrow> later w w' \<and> requests w' = requests w"
  by (auto simp: retry_wait_def split: option.splits if_splits)

lemma retry_wait_done: "ctx_done w \<Longrightarrow> \<exists>w'. retry_wait w = (False, w')"
  by (auto simp: retry_wait_def ctx_done_def split: option.splits)

lemma loop_requests:
  "requests (snd (download_loop d url tmp label n err w)) \<le> requests w + n \<and>
   (ctx_done w \<longrightarrow> requests (snd (download_loop d url tmp label n err w)) \<le> requests w + (if err = None then 1 else 0))"
proof (induction n arbitrary: err w)
  case 0
  show ?case by (simp split: option.split)
next
  case (Suc n)
  obtain g w1 where g: "(if err = None then (True, w) else retry_wait w) = (g, w1)"
    by (metis prod.collapse)
  have w1: "later w w1" "requests w1 = requests w"
    using g retry_wait_later [of w g w1] by (auto split: if_splits)
  obtain r w2 where r: "downloadAttempt d url tmp label w1 = (r, w2)"
    by (cases "downloadAttempt d url tmp label w1")
  have w2: "requests w2 \<le> Suc (requests w)" "later w w2"
    using attempt_requests [of d url tmp label w1] attempt_later [of w1 d url tmp label] r w1 later_trans [OF w1(1)]
    by simp_all
  have "g \<Longrightarrow> ctx_done w \<Longrightarrow> err = None" using g retry_wait_done [of w] by (auto split: if_splits)
  moreover have "ctx_done w \<Longrightarrow> ctx_done w2" by (rule later_ctx_done [OF w2(2)])
  moreover have "requests (snd (download_loop d url tmp label n (Some e) w2)) \<le> requests w2 + n" for e
    using Suc.IH by blast
  then have "requests (snd (download_loop d url tmp label n (Some e) w2)) \<le> Suc (requests w + n)" for e
    using w2(1) by (metis add_Suc add_le_mono1 le_trans)
  ultimately show ?case using w1 w2 g r by (auto split: sum.split)
qed


section \<open>The watchdog\<close>

text \<open>
  A body stalls when a read of it takes longer than what is left of the idle window: a
  window that starts anew at every byte that arrives, and that an empty read only uses up.
\<close>

fun stalls :: "nat \<Rightarrow> nat \<Rightarrow> read_event list \<Rightarrow> bool" where
  "stalls idle left [] = True"
| "stalls idle left ((d, b, e) # evs) =
     (left < d \<or> (e = More \<and> stalls idle (if b = [] then left - d else idle) evs))"

lemma Write_calm:
  "faults (w :: 'z host_scheme) = [] \<Longrightarrow> \<exists>w'. os_Write p b w = (Inr (), w') \<and> faults w' = [] \<and> now w' = now w \<and> cancel_at w' = cancel_at w"
  by (simp add: os_Write_def fs_call_def next_fault_def set_fs_def emit_def)

lemma chunk_calm:
  "faults (w :: 'z host_scheme) = [] \<Longrightarrow>
     \<exists>w'. (if length b > 0 then os_Write p b w else (Inr (), w)) = (Inr (), w') \<and> faults w' = [] \<and> now w' = now w \<and>
       cancel_at w' = cancel_at w"
  using Write_calm [of w p b] by auto

lemma copy_stalls:
  assumes "cancel_at w = None" and "faults w = []" and "now w \<le> deadline"
    and "copyWithProgress idle dst deadline src written w = ((n, err, st), w')"
  shows "faults w' = [] \<and> st = stalls idle (deadline - now w) src \<and>
     (if st then err \<noteq> None
      else (case body_data src of
              Some data \<Rightarrow> err = None \<and> n = written + length data
            | None \<Rightarrow> (\<exists>e. err = Some (wrap ''read download: '' e))))"
  using assms
proof (induction src arbitrary: deadline written w)
  case Nil
  then show ?case
    by (auto simp: copyWithProgress.simps [of idle dst deadline "[]"] stall_Read_def ctx_end_def)
next
  case (Cons ev src)
  obtain d b e where ev: "ev = (d, b, e)" by (cases ev)
  show ?case
  proof (cases "deadline - now w < d")
    case True
    with Cons.prems(1,3) ev
    have "stall_Read idle deadline (ev # src) w = ((Interrupted True, deadline, []), w\<lparr>now := deadline\<rparr>)"
      by (auto simp: stall_Read_def ctx_end_def)
    with Cons.prems(2,4) ev True show ?thesis by (auto simp: copy_interrupted)
  next
    case False
    let ?dl = "if length b > 0 then now w + d + idle else deadline"
    let ?w1 = "w\<lparr>now := now w + d\<rparr>"
    from False Cons.prems(1,3) ev
    have sr: "stall_Read idle deadline (ev # src) w = ((Got b e, ?dl, src), ?w1)"
      by (auto simp: stall_Read_def ctx_end_def)
    have "faults ?w1 = []" using Cons.prems(2) by simp
    from chunk_calm [OF this] obtain w2 where
      q: "(if length b > 0 then os_Write dst b ?w1 else (Inr (), ?w1)) = (Inr (), w2)" and
      w2: "faults w2 = []" "now w2 = now w + d" "cancel_at w2 = None"
      using Cons.prems(1) by fastforce
    note step = copy_got [OF sr q, of written]
    show ?thesis
    proof (cases e)
      case More
      then have "copyWithProgress idle dst ?dl src (written + length b) w2 = ((n, err, st), w')"
        using Cons.prems(4) step by simp
      moreover have "now w2 \<le> ?dl" using w2(2) False Cons.prems(3) by auto
      ultimately have "faults w' = [] \<and> st = stalls idle (?dl - now w2) src \<and>
         (if st then err \<noteq> None
          else (case body_data src of
              Some data \<Rightarrow> err = None \<and> n = (written + length b) + length data
            | None \<Rightarrow> (\<exists>e. err = Some (wrap ''read download: '' e))))"
        using Cons.IH w2 by blast
      moreover have "?dl - now w2 = (if b = [] then deadline - now w - d else idle)"
        using w2(2) by auto
      ultimately show ?thesis using ev More False by (auto split: if_splits option.splits)
    next
      case Eof
      with Cons.prems(4) step ev False w2(1) show ?thesis by auto
    next
      case (ReadErr re)
      with Cons.prems(4) step ev False w2(1) show ?thesis by auto
    qed
  qed
qed

text \<open>
  C26. Without a cancellation and with a disk that takes the bytes, the copy of a body comes
  to exactly one of three things: the stall error when and only when the body stalls, the
  length of the data when the body ends, and the read error otherwise. A slow body whose
  bytes keep arriving is never a stall, however long it takes.
\<close>

theorem copy_body_verdict:
  assumes "cancel_at w = None" and "faults w = []"
  shows "if stalls downloadIdleTimeout downloadIdleTimeout body
     then fst (copy_body tmp body label w) = Inl (wrap (''download '' @ label @ '': '') errDownloadStall)
     else (case body_data body of
             Some data \<Rightarrow> fst (copy_body tmp body label w) = Inr (length data)
           | None \<Rightarrow> \<exists>e. fst (copy_body tmp body label w) = Inl (wrap ''read download: '' e))"
proof -
  obtain k err st w1 where c:
    "copyWithProgress downloadIdleTimeout tmp (now w + downloadIdleTimeout) body 0 w = ((k, err, st), w1)"
    by (metis prod.collapse)
  note v = copy_stalls [OF assms le_add1 c, unfolded diff_add_inverse add_0]
  then have "faults w1 = []" by blast
  then have "os_Close tmp w1 = (Inr (), emit (EvClose tmp, True) w1)"
    by (simp add: os_Close_def sys_call_def next_fault_def)
  with v c show ?thesis
    by (cases "body_data body") (auto simp: copy_body_def Let_def, blast)
qed

text \<open>A body that takes two minutes in all, with no gap of a whole one.\<close>

definition slow_body :: "read_event list" where
  "slow_body = [(50000, ''a'', More), (50000, ''b'', More), (20000, ''c'', Eof)]"

lemma copy_body_verdict_witness:
  "fst (copy_body ''t'' slow_body ''k'' (host_world Map.empty [])) = Inr 3 \<and>
   fst (copy_body ''t'' [(50000, ''a'', More), (30000, [], More), (40000, ''b'', Eof)] ''k'' (host_world Map.empty [])) =
     Inl (wrap ''download k: '' errDownloadStall)"
proof -
  let ?w = "host_world Map.empty []"
  have w: "cancel_at ?w = None" "faults ?w = []" by (simp_all add: host_world_def)
  show ?thesis
    using copy_body_verdict [OF w, of slow_body "''t''" "''k''"]
      copy_body_verdict [OF w, of "[(50000, ''a'', More), (30000, [], More), (40000, ''b'', Eof)]" "''t''" "''k''"]
    by (simp add: slow_body_def downloadIdleTimeout_def)
qed

section \<open>Time\<close>

text \<open>The watchdog bounds the time between two reads, so a transfer ends.\<close>

lemma copy_time:
  assumes "now w \<le> deadline"
  shows "now (snd (copyWithProgress idle dst deadline src written w)) \<le> deadline + idle * length src"
  using assms
proof (induction src arbitrary: deadline written w)
  case Nil
  then show ?case
    by (auto simp: copyWithProgress.simps [of idle dst deadline "[]"] stall_Read_def ctx_end_def Let_def
        split: option.split)
next
  case (Cons ev src)
  obtain rr dl src' w1 where sr: "stall_Read idle deadline (ev # src) w = ((rr, dl, src'), w1)"
    by (metis prod.collapse)
  have w1: "now w1 \<le> deadline"
    using sr Cons.prems
    by (auto simp: stall_Read_def ctx_end_def Let_def split: prod.splits option.splits if_splits)
  show ?case
  proof (cases rr)
    case (Interrupted st)
    with sr w1 show ?thesis by (simp add: copy_interrupted trans_le_add1)
  next
    case (Got b e)
    obtain q w2 where q: "(if length b > 0 then os_Write dst b w1 else (Inr (), w1)) = (q, w2)"
      by (metis prod.collapse)
    have dl: "dl \<le> deadline + idle" "now w1 \<le> dl" "src' = src"
      using sr Got w1 Cons.prems
      by (auto simp: stall_Read_def ctx_end_def Let_def split: prod.splits option.splits if_splits)
    have w2: "now w2 = now w1"
      using q by (auto simp: os_Write_def fs_call_def next_fault_def set_fs_def emit_def split: if_splits list.splits fault.splits)
    have "now (snd (copyWithProgress idle dst dl src (written + length b) w2)) \<le> dl + idle * length src"
      by (rule Cons.IH) (use w2 dl in simp)
    with dl w1 w2 show ?thesis
      by (simp add: copy_got [OF sr [unfolded Got] q] split: sum.split read_end.split)
  qed
qed

text \<open>
  C27. The copy of a body always ends: by the time each of its reads and one more may wait a
  whole idle window, whatever the server sends and whenever the run is cancelled.
\<close>

theorem copy_body_time_bound:
  "now (snd (copy_body tmp body label w)) \<le> now w + downloadIdleTimeout * Suc (length body)"
proof -
  obtain k err st w1 where c:
    "copyWithProgress downloadIdleTimeout tmp (now w + downloadIdleTimeout) body 0 w = ((k, err, st), w1)"
    by (metis prod.collapse)
  obtain r w2 where cl: "os_Close tmp w1 = (r, w2)" by (cases "os_Close tmp w1")
  have "now w1 \<le> now w + downloadIdleTimeout + downloadIdleTimeout * length body"
    using copy_time [of w "now w + downloadIdleTimeout" downloadIdleTimeout tmp body 0] c by simp
  moreover have "now w2 = now w1"
    using cl by (auto simp: os_Close_def sys_call_def next_fault_def emit_def split: list.splits fault.splits)
  moreover have "snd (copy_body tmp body label w) = w2"
    by (simp add: copy_body_def c cl Let_def split: sum.split option.split)
  ultimately show ?thesis by simp
qed

section \<open>Cache paths\<close>

text \<open>The name a pin gives an artifact.\<close>

lemma cachePath_name:
  assumes "length a \<ge> cacheKeyLen" and "stem \<noteq> []"
    and "CHR ''/'' \<notin> set stem" and "CHR ''.'' \<notin> set stem" and "CHR ''/'' \<notin> set ext"
  shows "cachePath (PathJoin dir (stem @ ''.'' @ ext)) a =
      PathJoin (fst (PathSplit (PathJoin dir (stem @ ''.'' @ ext)))) (stem @ ''-'' @ take cacheKeyLen a @ ''.'' @ ext)"
proof -
  have "name_ok (stem @ ''.'' @ ext)"
    using assms by (cases stem) (auto simp: name_ok_def elem_ok_def dot_def dotdot_def)
  then have s: "snd (PathSplit (PathJoin dir (stem @ ''.'' @ ext))) = stem @ ''.'' @ ext" by (rule PathSplit_PathJoin)
  have "Cut (stem @ CHR ''.'' # ext) ''.'' = (stem, ext, True)"
    using assms(4) by (rule Cut_char)
  with s assms(1) show ?thesis
    by (simp add: cachePath_def split: prod.split) (auto simp: prod_eq_iff)
qed

text \<open>
  Two pins never share a cached file: for the artifact names the program uses (a stem
  without a dot, then an extension) two digests that differ in their first twelve characters
  have different cache paths.
\<close>

lemma cache_paths_distinct:
  assumes "length a \<ge> cacheKeyLen" and "length b \<ge> cacheKeyLen" and "take cacheKeyLen a \<noteq> take cacheKeyLen b"
    and "CHR ''/'' \<notin> set a" and "CHR ''/'' \<notin> set b"
    and "stem \<noteq> []" and "CHR ''/'' \<notin> set stem" and "CHR ''.'' \<notin> set stem" and "CHR ''/'' \<notin> set ext"
  shows "cachePath (PathJoin dir (stem @ ''.'' @ ext)) a \<noteq> cachePath (PathJoin dir (stem @ ''.'' @ ext)) b"
proof -
  have ok: "name_ok (stem @ ''-'' @ take cacheKeyLen c @ ''.'' @ ext)" if "CHR ''/'' \<notin> set c" for c
    using assms(6,7,9) that
    by (cases stem; cases "tl stem") (auto simp: name_ok_def elem_ok_def dot_def dotdot_def dest: in_set_takeD)
  have "stem @ ''-'' @ take cacheKeyLen a @ ''.'' @ ext \<noteq> stem @ ''-'' @ take cacheKeyLen b @ ''.'' @ ext"
    using assms(3) by simp
  then show ?thesis
    using PathJoin_inj [OF ok [OF assms(4)] ok [OF assms(5)]]
    unfolding cachePath_name [OF assms(1,6,7,8,9)] cachePath_name [OF assms(2,6,7,8,9)] by blast
qed

lemma cache_paths_distinct_example:
  "cachePath (PathJoin ''scratch'' ''source.tar.xz'') ''039aef84f2b0ff'' \<noteq>
   cachePath (PathJoin ''scratch'' ''source.tar.xz'') ''139aef84f2b0ff''"
  using cache_paths_distinct [of "''039aef84f2b0ff''" "''139aef84f2b0ff''" "''source''" "''tar.xz''" "''scratch''"]
  by (simp add: cacheKeyLen_def)

end
