(* ===== verification/Go_Float.thy ===== *)
theory Go_Float
  imports Complex_Main "HOL-Library.Log_Nat" Go_Strconv
begin

text \<open>
  Go's \<^verbatim>\<open>float64\<close> for the values a progress line computes with: a float is the
  rational it denotes, and every operation is the exact one followed by a rounding to 53
  significant bits, to the nearest and to even between two. Neither subnormal numbers nor
  overflow are modelled: a byte count over a duration lies far from both ends of the range.
\<close>

section \<open>Rounding\<close>

definition half_even :: "rat \<Rightarrow> int" where
  "half_even y =
     (let f = floor y; r = y - of_int f
      in if r < 1 / 2 then f else if 1 / 2 < r then f + 1 else if even f then f else f + 1)"

text \<open>The exponent of a positive rational: the largest power of two not above it.\<close>

definition expo :: "rat \<Rightarrow> int" where
  "expo x =
     (case quotient_of x of (n, d) \<Rightarrow>
       (let k = bitlen n - bitlen d
        in if x < 2 powi k then k - 1 else k))"

definition fl :: "rat \<Rightarrow> rat" where
  "fl x = (if x = 0 then 0
           else let s = 2 powi (expo \<bar>x\<bar> - 52) in of_int (half_even (x / s)) * s)"

definition of_int64 :: "int \<Rightarrow> rat" where
  "of_int64 n = fl (of_int n)"

definition fmul :: "rat \<Rightarrow> rat \<Rightarrow> rat" where "fmul a b = fl (a * b)"
definition fdiv :: "rat \<Rightarrow> rat \<Rightarrow> rat" where "fdiv a b = fl (a / b)"
definition fadd :: "rat \<Rightarrow> rat \<Rightarrow> rat" where "fadd a b = fl (a + b)"

text \<open>\<^verbatim>\<open>%.1f\<close> of a float that is not negative.\<close>

definition fmt1 :: "rat \<Rightarrow> string" where
  "fmt1 x = (let q = half_even (x * 10) in Itoa (q div 10) @ ''.'' @ Itoa (q mod 10))"

section \<open>Signs and ranges\<close>

lemma half_even_near: "y - 1 / 2 \<le> of_int (half_even y) \<and> of_int (half_even y) \<le> y + 1 / 2"
proof -
  define f where "f = floor y"
  have "of_int f \<le> y" "y < of_int f + 1" using floor_correct [of y] by (simp_all add: f_def)
  moreover have "half_even y = f \<and> y - of_int f \<le> 1 / 2 \<or> half_even y = f + 1 \<and> 1 / 2 \<le> y - of_int f"
    unfolding half_even_def Let_def f_def [symmetric] by (simp only: split: if_split) linarith
  ultimately show ?thesis by auto
qed

lemma half_even_int [simp]: "half_even (of_int n) = n"
  by (simp add: half_even_def Let_def)

lemma half_even_nonneg: "0 \<le> y \<Longrightarrow> 0 \<le> half_even y"
  by (auto simp: half_even_def Let_def)

lemma half_even_pos: "1 \<le> y \<Longrightarrow> 0 < half_even y"
  by (simp add: half_even_def Let_def)

lemma expo_bounds:
  assumes "0 < x"
  shows "2 powi expo x \<le> x \<and> x < 2 powi (expo x + 1)"
proof -
  obtain n d where q: "quotient_of x = (n, d)" by (cases "quotient_of x")
  have d: "0 < d" and x: "x = of_int n / of_int d"
    using quotient_of_denom_pos [OF q] quotient_of_div [OF q] by simp_all
  with assms have n: "0 < n" by (simp add: zero_less_divide_iff)
  have pw: "(2::rat) powi (bitlen m - 1) \<le> of_int m" "of_int m < (2::rat) powi bitlen m" if "0 < m" for m
  proof -
    from that have b: "1 \<le> bitlen m" by (simp add: bitlen_alt_def)
    have "of_int (2 ^ nat (bitlen m - 1)) \<le> (of_int m :: rat)" "of_int m < (of_int (2 ^ nat (bitlen m)) :: rat)"
      using bitlen_bounds [OF that] by (simp_all only: of_int_le_iff of_int_less_iff)
    with b show "(2::rat) powi (bitlen m - 1) \<le> of_int m" "of_int m < (2::rat) powi bitlen m"
      by (simp_all add: power_int_def)
  qed
  let ?k = "bitlen n - bitlen d"
  have lo: "2 powi (?k - 1) \<le> x"
  proof -
    have "2 powi (?k - 1) * of_int d \<le> 2 powi (?k - 1) * (2::rat) powi bitlen d"
      using pw(2) [OF d] by (intro mult_left_mono) simp_all
    also have "\<dots> = 2 powi (bitlen n - 1)" by (simp flip: power_int_add)
    also have "\<dots> \<le> of_int n" by (rule pw(1) [OF n])
    finally show ?thesis using d by (simp add: x pos_le_divide_eq)
  qed
  have hi: "x < 2 powi (?k + 1)"
  proof -
    have "of_int n < (2::rat) powi bitlen n" by (rule pw(2) [OF n])
    also have "\<dots> = 2 powi (?k + 1) * 2 powi (bitlen d - 1)" by (simp flip: power_int_add)
    also have "\<dots> \<le> 2 powi (?k + 1) * of_int d"
      using pw(1) [OF d] by (intro mult_left_mono) simp_all
    finally show ?thesis using d by (simp add: x pos_divide_less_eq)
  qed
  show ?thesis using lo hi q by (simp add: expo_def Let_def)
qed

lemma fl_0 [simp]: "fl 0 = 0"
  by (simp add: fl_def)

lemma fl_pos: "0 < x \<Longrightarrow> 0 < fl x"
proof -
  assume x: "0 < x"
  let ?s = "(2::rat) powi (expo x - 52)"
  have "?s \<le> 2 powi expo x" by (rule power_int_increasing) simp_all
  also have "\<dots> \<le> x" using expo_bounds [OF x] by simp
  finally have "1 \<le> x / ?s" by (simp add: pos_le_divide_eq)
  from half_even_pos [OF this] show ?thesis using x by (simp add: fl_def Let_def)
qed

lemma fl_pos_iff: "0 \<le> x \<Longrightarrow> 0 < fl x \<longleftrightarrow> 0 < x"
  using fl_pos [of x] by (cases "x = 0") auto

lemma fl_nonneg: "0 \<le> x \<Longrightarrow> 0 \<le> fl x"
  using fl_pos [of x] by (cases "x = 0") auto

text \<open>A rounding is off by at most the last of the 53 bits, relatively.\<close>

lemma fl_near:
  assumes "0 < x"
  shows "\<bar>fl x - x\<bar> \<le> x / 2 ^ 53"
proof -
  let ?s = "(2::rat) powi (expo x - 52)"
  have s: "0 < ?s" by simp
  have e: "?s * 2 ^ 52 = 2 powi expo x"
    using power_int_add [of "2 :: rat" "expo x - 52" 52] by simp
  have "\<bar>of_int (half_even (x / ?s)) - x / ?s\<bar> \<le> 1 / 2"
    using half_even_near [of "x / ?s"] by linarith
  then have "\<bar>of_int (half_even (x / ?s)) - x / ?s\<bar> * ?s \<le> 1 / 2 * ?s"
    using s by (intro mult_right_mono) simp_all
  moreover have "fl x - x = (of_int (half_even (x / ?s)) - x / ?s) * ?s"
    using assms s by (simp add: fl_def Let_def left_diff_distrib)
  ultimately have "\<bar>fl x - x\<bar> \<le> 1 / 2 * ?s" using s by (simp only: abs_mult abs_of_pos)
  also have "\<dots> = 2 powi expo x / 2 ^ 53" using e by simp
  also have "\<dots> \<le> x / 2 ^ 53"
    using expo_bounds [OF assms] by (intro divide_right_mono) simp_all
  finally show ?thesis .
qed

end
