(* ===== verification/Host_Progress.thy ===== *)
theory Host_Progress
  imports Fetch_Safety Go_Float "HOL-Library.Signed_Division"
begin

text \<open>
  \<^verbatim>\<open>cmd/ossein-kernel/main.go\<close>, the progress lines of a download and the HTTP client's
  settings. \<open>logProgress\<close> computes one line; \<open>copy_logging\<close> is the whole loop of
  \<^verbatim>\<open>copyWithProgress\<close> with the lines it logs, which \<open>copyWithProgress\<close> leaves out.

  Byte counts are Go's \<^verbatim>\<open>int64\<close>, so they are words here and their arithmetic is signed
  and wraps. Durations are nanoseconds. A line's text (\<^verbatim>\<open>slog\<close>'s formatting) is left to
  the logger: a line is the values it is given.
\<close>

section \<open>The client's settings\<close>

record transporter_Options =
  MaxRetries :: int
  InitialBackoff :: nat
  MaxBackoff :: nat
  UserAgent :: string

definition downloadMaxBackoff :: nat where "downloadMaxBackoff = 30000"

definition newDownloadClient :: transporter_Options where
  "newDownloadClient =
     \<lparr>MaxRetries = 3, InitialBackoff = 1000, MaxBackoff = downloadMaxBackoff, UserAgent = ''ossein-kernel''\<rparr>"

section \<open>Durations\<close>

type_synonym int64 = "64 word"

definition second :: int where "second = 1000000000"
definition maxDuration :: int where "maxDuration = 2 ^ 63 - 1"

text \<open>\<^verbatim>\<open>Duration.Seconds\<close>\<close>

definition Seconds :: "int \<Rightarrow> rat" where
  "Seconds d = fadd (of_int64 (d div second)) (fdiv (of_int64 (d mod second)) (of_int second))"

text \<open>\<^verbatim>\<open>Duration.Round\<close> of a duration that is not negative, to a positive one.\<close>

definition Round :: "int \<Rightarrow> int \<Rightarrow> int" where
  "Round d m =
     (let r = d mod m
      in if r + r < m then d - r
         else if d + m - r \<le> maxDuration then d + m - r else maxDuration)"

text \<open>
  A float that is not negative as a duration: truncated, and at the largest duration beyond
  it, as the conversion instruction of the host's architecture (arm64) does.
\<close>

definition to_Duration :: "rat \<Rightarrow> int" where
  "to_Duration x = min (floor x) maxDuration"

section \<open>A progress line\<close>

datatype progress =
    Timed (p_mb: int) (p_of: int) (p_pct: int) string int
  | Sized (p_mb: int) (p_of: int) (p_pct: int)
  | Unsized (p_mb: int) string

definition MiB :: rat where "MiB = 1048576"

definition rate :: "int64 \<Rightarrow> int \<Rightarrow> rat" where
  "rate deltaBytes since =
     (let s = Seconds since
      in if s > 0 then fdiv (fdiv (of_int64 (sint deltaBytes)) s) MiB else 0)"

definition rate_text :: "rat \<Rightarrow> string" where
  "rate_text mbps = fmt1 mbps @ '' MB/s''"

definition eta_of :: "int64 \<Rightarrow> int64 \<Rightarrow> rat \<Rightarrow> int" where
  "eta_of written whole mbps =
     (let etaSecs = fdiv (of_int64 (sint (whole - written))) (fmul mbps MiB)
      in Round (to_Duration (fmul etaSecs (of_int second))) second)"

definition percent :: "int64 \<Rightarrow> int64 \<Rightarrow> int" where
  "percent written whole = sint (written * 100) sdiv sint whole"

definition mb :: "int64 \<Rightarrow> int" where
  "mb n = sint (signed_drop_bit 20 n)"

definition logProgress :: "int64 \<Rightarrow> int64 \<Rightarrow> int64 \<Rightarrow> int \<Rightarrow> progress" where
  "logProgress written whole deltaBytes since =
     (let mbps = rate deltaBytes since
      in if sint whole > 0 \<and> mbps > 0
         then Timed (mb written) (mb whole) (percent written whole) (rate_text mbps) (eta_of written whole mbps)
         else if sint whole > 0 then Sized (mb written) (mb whole) (percent written whole)
         else Unsized (mb written) (rate_text mbps))"

section \<open>The copy loop with its lines\<close>

definition tick :: nat where "tick = 2000"

text \<open>The duration between two moments of the clock, in nanoseconds.\<close>

definition Sub :: "nat \<Rightarrow> nat \<Rightarrow> int" where
  "Sub t u = (int t - int u) * 1000000"

text \<open>The variables of the loop beside the byte count: when it started, and the last line logged.\<close>

record ticker =
  start :: nat
  lastLog :: nat
  lastBytes :: nat

text \<open>A read that brought bytes logs a line when two seconds have passed since the last.\<close>

definition tick_line :: "int64 \<Rightarrow> nat \<Rightarrow> nat \<Rightarrow> ticker \<Rightarrow> progress list \<times> ticker" where
  "tick_line whole t written tk =
     (if t - lastLog tk \<ge> tick
      then ([logProgress (of_nat written) whole (of_nat (written - lastBytes tk)) (Sub t (lastLog tk))],
            tk\<lparr>lastLog := t, lastBytes := written\<rparr>)
      else ([], tk))"

text \<open>The line after the last byte: the average over the whole transfer.\<close>

definition final_line :: "int64 \<Rightarrow> nat \<Rightarrow> nat \<Rightarrow> ticker \<Rightarrow> progress" where
  "final_line whole t written tk =
     logProgress (of_nat written) whole (of_nat written) (Sub t (start tk))"

function copy_loop ::
    "int64 \<Rightarrow> nat \<Rightarrow> string \<Rightarrow> nat \<Rightarrow> read_event list \<Rightarrow> nat \<Rightarrow> ticker \<Rightarrow> 'z host_scheme
       \<Rightarrow> progress list \<times> (nat \<times> goerr option \<times> bool) \<times> 'z host_scheme" where
  "copy_loop whole idle dst deadline src written tk w =
     (case stall_Read idle deadline src w of
        ((Interrupted stalled, _, _), w) \<Rightarrow>
          ([], (written, Some (wrap ''read download: '' ctxCanceled), stalled), w)
      | ((Got b e, deadline, src), w) \<Rightarrow>
          (case (if length b > 0 then os_Write dst b w else (Inr (), w)) of
             (Inl we, w) \<Rightarrow> ([], (written, Some (wrap ''write download: '' we), False), w)
           | (Inr _, w) \<Rightarrow>
               (let written = written + length b;
                    (line, tk) = (if length b > 0 then tick_line whole (now w) written tk else ([], tk))
                in case e of
                     Eof \<Rightarrow> (line @ [final_line whole (now w) written tk], (written, None, False), w)
                   | ReadErr re \<Rightarrow> (line, (written, Some (wrap ''read download: '' re), False), w)
                   | More \<Rightarrow>
                       (case copy_loop whole idle dst deadline src written tk w of
                          (ls, r) \<Rightarrow> (line @ ls, r)))))"
  by pat_completeness auto
termination
  by (relation "measure (\<lambda>(whole, idle, dst, deadline, src, written, tk, w). length src)")
    (auto dest: stall_Read_shorter [OF sym])

declare copy_loop.simps [simp del]

definition copy_logging ::
    "int64 \<Rightarrow> nat \<Rightarrow> string \<Rightarrow> nat \<Rightarrow> read_event list \<Rightarrow> 'z host_scheme
       \<Rightarrow> progress list \<times> (nat \<times> goerr option \<times> bool) \<times> 'z host_scheme" where
  "copy_logging whole idle dst deadline src w =
     copy_loop whole idle dst deadline src 0 \<lparr>start = now w, lastLog = now w, lastBytes = 0\<rparr> w"

section \<open>What a line says\<close>

lemma of_int64_pos: "0 < n \<Longrightarrow> 0 < of_int64 n"
  by (simp add: of_int64_def fl_pos)

lemma of_int64_nonneg: "0 \<le> n \<Longrightarrow> 0 \<le> of_int64 n"
  by (simp add: of_int64_def fl_nonneg)

lemma of_int64_0 [simp]: "of_int64 0 = 0"
  by (simp add: of_int64_def)

lemma sint_times_100:
  assumes "0 \<le> sint (a :: int64)" and "sint a * 100 \<le> maxDuration"
  shows "sint (a * 100) = sint a * 100"
proof -
  have "sint (a * 100) = signed_take_bit 63 (sint a * 100)"
    by (simp add: sint_word_ariths)
  also have "\<dots> = sint a * 100"
    using assms by (intro signed_take_bit_int_eq_self) (simp_all add: maxDuration_def)
  finally show ?thesis .
qed

lemma mb_div: "mb n = sint n div 2 ^ 20"
  by (simp add: mb_def sint_signed_drop_bit_eq drop_bit_eq_div)

lemma percent_range:
  assumes "0 \<le> sint written" and "sint written \<le> sint whole" and "0 < sint whole"
    and "sint written * 100 \<le> maxDuration"
  shows "percent written whole = sint written * 100 div sint whole \<and> 0 \<le> percent written whole \<and> percent written whole \<le> 100"
proof -
  have "sint (written * 100) = sint written * 100"
    using assms by (intro sint_times_100) simp_all
  then have p: "percent written whole = sint written * 100 div sint whole"
    using assms by (simp add: percent_def signed_divide_int_def sgn_if zero_less_mult_iff)
  have "sint written * 100 div sint whole \<le> sint whole * 100 div sint whole"
    using assms by (intro zdiv_mono1) simp_all
  with p assms show ?thesis by (simp add: pos_imp_zdiv_nonneg_iff)
qed

lemma Seconds_pos:
  assumes "0 < d"
  shows "0 < Seconds d"
proof -
  have nn: "0 \<le> d div second" "0 \<le> d mod second"
    using assms by (simp_all add: second_def pos_imp_zdiv_nonneg_iff)
  moreover have "d = second * (d div second) + d mod second" by simp
  ultimately have "0 < d div second \<or> 0 < d mod second"
    using assms by (metis add.right_neutral mult_zero_right not_less_iff_gr_or_eq order_le_less)
  then have "0 < of_int64 (d div second) \<or> 0 < fdiv (of_int64 (d mod second)) (of_int second)"
    unfolding fdiv_def by (auto intro!: fl_pos divide_pos_pos of_int64_pos simp: second_def)
  moreover have "0 \<le> of_int64 (d div second)" "0 \<le> fdiv (of_int64 (d mod second)) (of_int second)"
    using nn unfolding fdiv_def by (auto intro!: fl_nonneg divide_nonneg_nonneg of_int64_nonneg simp: second_def)
  ultimately have "0 < of_int64 (d div second) + fdiv (of_int64 (d mod second)) (of_int second)" by linarith
  then show ?thesis by (simp add: Seconds_def fadd_def fl_pos)
qed

lemma Seconds_0 [simp]: "Seconds 0 = 0"
  by (simp add: Seconds_def fadd_def fdiv_def second_def)

lemma rate_pos_iff:
  assumes "0 \<le> sint delta" and "0 \<le> since"
  shows "0 < rate delta since \<longleftrightarrow> 0 < sint delta \<and> 0 < since"
proof (cases "0 < sint delta \<and> 0 < since")
  case True
  then have "0 < of_int64 (sint delta)" "0 < Seconds since" by (auto intro: of_int64_pos Seconds_pos)
  with True show ?thesis unfolding rate_def Let_def fdiv_def
    by (auto intro!: fl_pos divide_pos_pos simp: MiB_def)
next
  case False
  with assms have "sint delta = 0 \<or> since = 0" by auto
  then have "rate delta since = 0" unfolding rate_def Let_def fdiv_def by (auto simp del: of_int_sint)
  with False show ?thesis by simp
qed

lemma Round_nonneg: "0 \<le> d \<Longrightarrow> 0 < m \<Longrightarrow> 0 \<le> Round d m"
  using zmod_le_nonneg_dividend [of d m] by (simp add: Round_def Let_def maxDuration_def)

lemma eta_nonneg:
  assumes "sint written \<le> sint whole" and "0 \<le> sint written" and "0 \<le> mbps"
  shows "0 \<le> eta_of written whole mbps"
proof -
  have "sint (whole - written) = signed_take_bit 63 (sint whole - sint written)"
    by (simp add: sint_word_ariths)
  also have "\<dots> = sint whole - sint written"
    using assms sint_lt [of whole] by (intro signed_take_bit_int_eq_self) simp_all
  finally have "0 \<le> sint (whole - written)" using assms by simp
  then have "0 \<le> of_int64 (sint (whole - written))" by (rule of_int64_nonneg)
  then have "0 \<le> fmul (fdiv (of_int64 (sint (whole - written))) (fmul mbps MiB)) (of_int second)"
    using assms unfolding fmul_def fdiv_def
    by (intro fl_nonneg mult_nonneg_nonneg divide_nonneg_nonneg) (simp_all add: MiB_def second_def)
  then show ?thesis
    by (simp add: eta_of_def Let_def Round_nonneg to_Duration_def maxDuration_def second_def)
qed

text \<open>The line of a body whose length is known, and of which no more has arrived.\<close>

definition sane :: "int64 \<Rightarrow> progress \<Rightarrow> bool" where
  "sane whole l =
     (case l of
        Timed m n p r eta \<Rightarrow> 0 \<le> m \<and> m \<le> n \<and> n = sint whole div 2 ^ 20 \<and> 0 \<le> p \<and> p \<le> 100 \<and> 0 \<le> eta
      | Sized m n p \<Rightarrow> 0 \<le> m \<and> m \<le> n \<and> n = sint whole div 2 ^ 20 \<and> 0 \<le> p \<and> p \<le> 100
      | Unsized m r \<Rightarrow> False)"

lemma logProgress_sane:
  assumes "0 \<le> sint written" and "sint written \<le> sint whole" and "0 < sint whole"
    and "sint whole * 100 \<le> maxDuration"
  shows "sane whole (logProgress written whole delta since)"
proof -
  note p = percent_range [OF assms(1-3)]
  have m: "0 \<le> mb written" "mb written \<le> mb whole" "mb whole = sint whole div 2 ^ 20"
    using assms by (simp_all add: mb_div zdiv_mono1)
  have eta: "0 \<le> eta_of written whole (rate delta since)" if "rate delta since > 0"
    using that assms by (intro eta_nonneg) simp_all
  show ?thesis using p m eta assms by (simp add: sane_def logProgress_def Let_def)
qed

lemma logProgress_sane_nat:
  assumes "int n \<le> sint whole" and "0 < sint whole" and "sint whole * 100 \<le> maxDuration"
  shows "sane whole (logProgress (of_nat n) whole delta since)"
proof -
  have "sint (of_nat n :: int64) = int n"
  proof -
    have "sint (of_nat n :: int64) = signed_take_bit 63 (int n)"
      by (simp add: signed_of_nat)
    also have "\<dots> = int n"
      using assms by (intro signed_take_bit_int_eq_self) (simp_all add: maxDuration_def)
    finally show ?thesis by simp
  qed
  with assms show ?thesis by (intro logProgress_sane) simp_all
qed

section \<open>The lines of a copy\<close>

text \<open>One step of the loop with its lines.\<close>

lemma loop_interrupted:
  "stall_Read idle deadline src w = ((Interrupted st, dl, src'), w1) \<Longrightarrow>
     copy_loop whole idle dst deadline src written tk w =
       ([], (written, Some (wrap ''read download: '' ctxCanceled), st), w1)"
  by (simp add: copy_loop.simps [of whole idle dst deadline src])

definition tick_of :: "int64 \<Rightarrow> string \<Rightarrow> nat \<Rightarrow> nat \<Rightarrow> ticker \<Rightarrow> progress list \<times> ticker" where
  "tick_of whole b t written tk = (if length b > 0 then tick_line whole t written tk else ([], tk))"

lemma loop_got:
  "stall_Read idle deadline src w = ((Got b e, dl, src'), w1) \<Longrightarrow>
   (if length b > 0 then os_Write dst b w1 else (Inr (), w1)) = (q, w2) \<Longrightarrow>
   tick_of whole b (now w2) (written + length b) tk = (line, tk') \<Longrightarrow>
     copy_loop whole idle dst deadline src written tk w =
       (case q of
          Inl we \<Rightarrow> ([], (written, Some (wrap ''write download: '' we), False), w2)
        | Inr _ \<Rightarrow>
            (case e of
               Eof \<Rightarrow> (line @ [final_line whole (now w2) (written + length b) tk'], (written + length b, None, False), w2)
             | ReadErr re \<Rightarrow> (line, (written + length b, Some (wrap ''read download: '' re), False), w2)
             | More \<Rightarrow>
                 (case copy_loop whole idle dst dl src' (written + length b) tk' w2 of
                    (ls, r) \<Rightarrow> (line @ ls, r))))"
  by (cases q) (simp_all add: copy_loop.simps [of whole idle dst deadline src] tick_of_def Let_def)

lemma copy_loop_quiet:
  "snd (copy_loop whole idle dst deadline src written tk w) = copyWithProgress idle dst deadline src written w"
proof (induction src arbitrary: deadline written tk w)
  case (Cons ev src)
  obtain rr dl src' w1 where sr: "stall_Read idle deadline (ev # src) w = ((rr, dl, src'), w1)"
    by (metis prod.collapse)
  show ?case
  proof (cases rr)
    case (Interrupted st)
    with sr show ?thesis by (simp add: loop_interrupted copy_interrupted)
  next
    case (Got b e)
    obtain q w2 where q: "(if length b > 0 then os_Write dst b w1 else (Inr (), w1)) = (q, w2)"
      by (metis prod.collapse)
    obtain line tk' where t: "tick_of whole b (now w2) (written + length b) tk = (line, tk')"
      by (metis prod.collapse)
    have "src' = src" using stall_Read_Got sr Got by blast
    with Cons.IH show ?thesis
      unfolding loop_got [OF sr [unfolded Got] q t] copy_got [OF sr [unfolded Got] q]
      by (simp add: case_prod_beta split: sum.split read_end.split)
  qed
next
  case Nil
  show ?case by (simp add: copyWithProgress.simps copy_loop.simps stall_Read_def Let_def split: prod.split)
qed

text \<open>What the lines of a successful run end with, and how many there are.\<close>

lemma tick_paced:
  "tick_of whole b t n tk = (line, tk') \<Longrightarrow> lastLog tk \<le> t \<Longrightarrow>
     lastLog tk + tick * length line \<le> lastLog tk' \<and> lastLog tk' \<le> t \<and> start tk' = start tk"
  by (auto simp: tick_of_def tick_line_def split: if_splits)

lemma loop_paced:
  assumes "copy_loop whole idle dst deadline src written tk w = (ls, (n, err, st), w')" and "lastLog tk \<le> now w"
  shows "lastLog tk + tick * (length ls - (if err = None then 1 else 0)) \<le> now w' \<and>
     (err = None \<longrightarrow> ls \<noteq> [] \<and> last ls = logProgress (of_nat n) whole (of_nat n) (Sub (now w') (start tk)))"
  using assms
proof (induction src arbitrary: deadline written tk w ls)
  case Nil
  then show ?case
    by (auto simp: copy_loop.simps stall_Read_def Let_def split: prod.splits)
next
  case (Cons ev src)
  obtain rr dl src' w1 where sr: "stall_Read idle deadline (ev # src) w = ((rr, dl, src'), w1)"
    by (metis prod.collapse)
  show ?case
  proof (cases rr)
    case (Interrupted st')
    with sr Cons.prems stall_Read_later [OF sr] show ?thesis by (auto simp: loop_interrupted later_def)
  next
    case (Got b e)
    obtain q w2 where q: "(if length b > 0 then os_Write dst b w1 else (Inr (), w1)) = (q, w2)"
      by (metis prod.collapse)
    obtain line tk' where t: "tick_of whole b (now w2) (written + length b) tk = (line, tk')"
      by (metis prod.collapse)
    have src: "src' = src" using stall_Read_Got sr Got by blast
    have "now w \<le> now w1" using stall_Read_later [OF sr] by (simp add: later_def)
    moreover have "now w1 \<le> now w2"
      using q os_later(2) [of dst b w1 q w2] by (auto simp: later_def split: if_splits)
    ultimately have w2: "lastLog tk \<le> now w2" using Cons.prems(2) by simp
    note tp = tick_paced [OF t w2]
    note step = Cons.prems(1) [unfolded loop_got [OF sr [unfolded Got] q t]]
    show ?thesis
    proof (cases q)
      case (Inl we)
      with step w2 show ?thesis by auto
    next
      case (Inr u)
      show ?thesis
      proof (cases e)
        case More
        obtain ms where ms: "copy_loop whole idle dst dl src' (written + length b) tk' w2 = (ms, (n, err, st), w')"
          and ls: "ls = line @ ms"
          using step Inr More by (auto split: prod.splits)
        note ih = Cons.IH [OF ms [unfolded src]]
        have "tick * (length ls - (if err = None then 1 else 0)) =
            tick * length line + tick * (length ms - (if err = None then 1 else 0))"
          using ih tp ls by (cases "err = None") (auto simp: add_mult_distrib2 Suc_diff_le neq_Nil_conv)
        with ih tp ls show ?thesis by auto
      qed (use step Inr tp in \<open>auto simp: final_line_def\<close>)
    qed
  qed
qed

definition body_length :: "read_event list \<Rightarrow> nat" where
  "body_length src = sum_list (map (\<lambda>(d, b, e). length b) src)"

lemma loop_sane:
  assumes "copy_loop whole idle dst deadline src written tk w = (ls, r)"
    and "int (written + body_length src) \<le> sint whole"
    and "0 < sint whole" and "sint whole * 100 \<le> maxDuration"
  shows "\<forall>l \<in> set ls. sane whole l"
  using assms
proof (induction src arbitrary: deadline written tk w ls r)
  case Nil
  then show ?case
    by (auto simp: copy_loop.simps stall_Read_def Let_def split: prod.splits)
next
  case (Cons ev src)
  obtain rr dl src' w1 where sr: "stall_Read idle deadline (ev # src) w = ((rr, dl, src'), w1)"
    by (metis prod.collapse)
  show ?case
  proof (cases rr)
    case (Interrupted st')
    with sr Cons.prems show ?thesis by (auto simp: loop_interrupted)
  next
    case (Got b e)
    obtain q w2 where q: "(if length b > 0 then os_Write dst b w1 else (Inr (), w1)) = (q, w2)"
      by (metis prod.collapse)
    obtain line tk' where t: "tick_of whole b (now w2) (written + length b) tk = (line, tk')"
      by (metis prod.collapse)
    from stall_Read_Got [OF sr [unfolded Got]] obtain d where src: "src' = src" and ev: "ev = (d, b, e)" by auto
    with Cons.prems have n: "int (written + length b + body_length src) \<le> sint whole"
      by (simp add: body_length_def)
    have s: "sane whole (logProgress (of_nat (written + length b)) whole delta since)" for delta since
      using n Cons.prems by (intro logProgress_sane_nat) simp_all
    then have line: "\<forall>l \<in> set line. sane whole l"
      using t by (auto simp: tick_of_def tick_line_def split: if_splits)
    note step = Cons.prems(1) [unfolded loop_got [OF sr [unfolded Got] q t]]
    show ?thesis
    proof (cases "\<exists>u. q = Inr u \<and> e = More")
      case True
      then obtain ms where ms: "copy_loop whole idle dst dl src (written + length b) tk' w2 = (ms, r)"
        and ls: "ls = line @ ms"
        using step src by (auto split: prod.splits)
      with Cons.IH [OF ms n Cons.prems(3,4)] line show ?thesis by auto
    next
      case False
      with step line s show ?thesis
        by (auto simp: final_line_def split: sum.splits read_end.splits)
    qed
  qed
qed

section \<open>Properties\<close>

text \<open>
  C31. The progress lines change nothing: the loop with its lines returns what the quiet loop
  returns and leaves the world it leaves. A line is logged at most every two seconds and once
  more at the end; a copy that reaches the end of the body closes with a line that counts
  every byte over the whole time.
\<close>

theorem copy_logging_transparent:
  assumes "copy_logging whole idle dst deadline src w = (ls, (n, err, st), w')"
  shows "copyWithProgress idle dst deadline src 0 w = ((n, err, st), w') \<and>
     now w + tick * (length ls - (if err = None then 1 else 0)) \<le> now w' \<and>
     (err = None \<longrightarrow> ls \<noteq> [] \<and> last ls = logProgress (of_nat n) whole (of_nat n) (Sub (now w') (now w)))"
  using copy_loop_quiet [of whole idle dst deadline src 0 "\<lparr>start = now w, lastLog = now w, lastBytes = 0\<rparr>" w]
    loop_paced [OF assms [unfolded copy_logging_def]] assms
  by (simp add: copy_logging_def)

definition steady_body :: "read_event list" where
  "steady_body = [(1500, ''ab'', More), (1500, ''cd'', More), (200, ''e'', Eof)]"

definition idle_host :: host where
  "idle_host = \<lparr>fs = (\<lambda>p. None), hist = [], log = [], faults = [], umask = 0, now = 10, cancel_at = None, net = []\<rparr>"

lemma copy_logging_transparent_witness:
  "\<exists>ls w'. copy_logging 5 60000 ''t'' 60010 steady_body idle_host = (ls, (5, None, False), w') \<and>
     ls \<noteq> [] \<and> last ls = logProgress 5 5 5 3200000000"
proof -
  have r: "case copyWithProgress 60000 ''t'' 60010 steady_body 0 idle_host of
      ((n, err, st), w') \<Rightarrow> n = 5 \<and> err = None \<and> st = False \<and> now w' = 3210"
    by code_simp
  obtain ls n err st w' where c: "copy_logging 5 60000 ''t'' 60010 steady_body idle_host = (ls, (n, err, st), w')"
    by (metis prod.collapse)
  note t = copy_logging_transparent [OF c]
  have n: "now idle_host = 10" by (simp add: idle_host_def)
  from r have e: "n = 5" "err = None" "st = False" "now w' = 3210" by (simp_all add: t)
  from t [unfolded e n] c [unfolded e] show ?thesis by (auto simp: Sub_def)
qed

text \<open>
  C32. Every progress line of a body whose length the server announced, and which does not
  send more than it announced, is meaningful: the share done lies between 0 and 100 percent,
  the megabytes done do not exceed the total, the time left is not negative, and no division
  is by zero. The length is assumed below 92 petabytes, where a hundredfold of it still is an
  \<^verbatim>\<open>int64\<close>.
\<close>

theorem progress_lines_sane:
  assumes "copy_logging whole idle dst deadline src w = (ls, r)"
    and "int (body_length src) \<le> sint whole" and "0 < sint whole" and "sint whole * 100 \<le> maxDuration"
  shows "\<forall>l \<in> set ls. sane whole l"
  using loop_sane [OF assms(1) [unfolded copy_logging_def]] assms(2-4) by simp

lemma progress_lines_sane_witness:
  "\<exists>ls r. copy_logging 5 60000 ''t'' 60010 steady_body idle_host = (ls, r) \<and> (\<forall>l \<in> set ls. sane 5 l)"
proof -
  obtain ls r where c: "copy_logging 5 60000 ''t'' 60010 steady_body idle_host = (ls, r)"
    by (metis prod.collapse)
  have "\<forall>l \<in> set ls. sane 5 l"
    by (rule progress_lines_sane [OF c]) (simp_all add: steady_body_def body_length_def maxDuration_def)
  with c show ?thesis by blast
qed

end
