(* ===== verification/Stall_Race.thy ===== *)
theory Stall_Race
  imports Fetch_Safety
begin

text \<open>
  The copy of a body as the concurrent program it is (\<^verbatim>\<open>downloadAttempt\<close> and
  \<^verbatim>\<open>stallReader\<close> in \<^verbatim>\<open>cmd/ossein-kernel/main.go\<close>). Three parties share the
  request's context: the copy loop, the watchdog's timer, which fires in a goroutine of its
  own, and whoever cancels the run. Their steps interleave freely: a due timer may fire late,
  bytes may still arrive in a context that has ended, and an ended context interrupts the
  reader only at some later step.

  \<open>Host_Download\<close> fixes one schedule of these steps; it is shown to be one here.
\<close>

section \<open>States\<close>

text \<open>Why the context ended (\<^verbatim>\<open>context.Cause\<close>): the watchdog, or the run was cancelled.\<close>

datatype cause = CauseStall | CauseParent

text \<open>
  The state of an attempt: the clock, when the timer will fire (\<open>None\<close>: stopped or fired),
  the cause of the context's end, the reads still to come, how long the current read has
  blocked, the bytes written, and what the copy loop returned, once it has. \<open>moments\<close> is
  not part of the program: it records when bytes arrived, last first, and when it all began.
\<close>

record attempt =
  clock :: nat
  timer :: "nat option"
  ctx_cause :: "cause option"
  arrivals :: "read_event list"
  blocked :: nat
  got :: nat
  outcome :: "goerr option option"
  moments :: "nat list"

section \<open>Operations\<close>

text \<open>The cancel function of \<^verbatim>\<open>context.WithCancelCause\<close>: the first cause stays.\<close>

definition cancelCause :: "cause \<Rightarrow> attempt \<Rightarrow> attempt" where
  "cancelCause c s = (if ctx_cause s = None then s\<lparr>ctx_cause := Some c\<rparr> else s)"

text \<open>\<^verbatim>\<open>newStallReader\<close> arms the timer; its function cancels the context.\<close>

definition newStallReader :: "nat \<Rightarrow> attempt \<Rightarrow> attempt" where
  "newStallReader idle s = s\<lparr>timer := Some (clock s + idle)\<rparr>"

definition timer_fires :: "attempt \<Rightarrow> attempt" where
  "timer_fires s = cancelCause CauseStall (s\<lparr>timer := None\<rparr>)"

text \<open>\<^verbatim>\<open>stallReader.Read\<close> when the read under it returns: bytes reset the timer.\<close>

definition reader_returns :: "nat \<Rightarrow> string \<Rightarrow> attempt \<Rightarrow> attempt" where
  "reader_returns idle b s =
     (let s = s\<lparr>arrivals := tl (arrivals s), blocked := 0\<rparr>
      in if length b > 0 then s\<lparr>timer := Some (clock s + idle), moments := clock s # moments s\<rparr> else s)"

text \<open>\<^verbatim>\<open>stallReader.stop\<close>\<close>

definition stop_reader :: "attempt \<Rightarrow> attempt" where
  "stop_reader s = s\<lparr>timer := None\<rparr>"

text \<open>The copy loop returns, and the attempt disarms the watchdog on its way out.\<close>

definition copy_returns :: "goerr option \<Rightarrow> attempt \<Rightarrow> attempt" where
  "copy_returns err s = stop_reader (s\<lparr>outcome := Some err\<rparr>)"

definition copied :: "string \<Rightarrow> attempt \<Rightarrow> attempt" where
  "copied b s = s\<lparr>got := got s + length b\<rparr>"

text \<open>What the attempt makes of it: a stall is told apart by the context's cause.\<close>

definition verdict :: "string \<Rightarrow> attempt \<Rightarrow> nat result option" where
  "verdict label s =
     (case outcome s of
        None \<Rightarrow> None
      | Some None \<Rightarrow> Some (Inr (got s))
      | Some (Some e) \<Rightarrow>
          Some (Inl (if ctx_cause s = Some CauseStall then wrap (''download '' @ label @ '': '') errDownloadStall else e)))"

section \<open>Steps\<close>

inductive step :: "nat \<Rightarrow> attempt \<Rightarrow> attempt \<Rightarrow> bool" for idle where
  tick: "outcome s = None \<Longrightarrow> step idle s (s\<lparr>clock := clock s + 1, blocked := blocked s + 1\<rparr>)"
| fire: "timer s = Some t \<Longrightarrow> t \<le> clock s \<Longrightarrow> step idle s (timer_fires s)"
| cancel: "outcome s = None \<Longrightarrow> step idle s (cancelCause CauseParent s)"
| more: "outcome s = None \<Longrightarrow> arrivals s = (d, b, More) # evs \<Longrightarrow> d \<le> blocked s \<Longrightarrow>
    step idle s (copied b (reader_returns idle b s))"
| eof: "outcome s = None \<Longrightarrow> arrivals s = (d, b, Eof) # evs \<Longrightarrow> d \<le> blocked s \<Longrightarrow>
    step idle s (copy_returns None (copied b (reader_returns idle b s)))"
| read_error: "outcome s = None \<Longrightarrow> arrivals s = (d, b, ReadErr e) # evs \<Longrightarrow> d \<le> blocked s \<Longrightarrow>
    step idle s (copy_returns (Some (wrap ''read download: '' e)) (copied b (reader_returns idle b s)))"
| write_error: "outcome s = None \<Longrightarrow> arrivals s = (d, b, r) # evs \<Longrightarrow> d \<le> blocked s \<Longrightarrow> length b > 0 \<Longrightarrow>
    step idle s (copy_returns (Some (wrap ''write download: '' we)) (reader_returns idle b s))"
| interrupt: "outcome s = None \<Longrightarrow> ctx_cause s \<noteq> None \<Longrightarrow>
    step idle s (copy_returns (Some (wrap ''read download: '' ctxCanceled)) s)"

inductive_cases stepE: "step idle s s'"

inductive_simps step_returned: "step idle (copy_returns err s) s'"

text \<open>The beginning of an attempt: a context that has not ended, and the watchdog armed.\<close>

definition attempt_begins :: "nat \<Rightarrow> nat \<Rightarrow> read_event list \<Rightarrow> attempt" where
  "attempt_begins idle t body =
     newStallReader idle
       \<lparr>clock = t, timer = None, ctx_cause = None, arrivals = body, blocked = 0, got = 0, outcome = None, moments = [t]\<rparr>"

abbreviation steps :: "nat \<Rightarrow> attempt \<Rightarrow> attempt \<Rightarrow> bool" where
  "steps idle \<equiv> (step idle)\<^sup>*\<^sup>*"

text \<open>An idle window with no bytes, among moments given last first.\<close>

fun quiet_spell :: "nat \<Rightarrow> nat list \<Rightarrow> bool" where
  "quiet_spell idle (b # a # ms) \<longleftrightarrow> a + idle \<le> b \<or> quiet_spell idle (a # ms)"
| "quiet_spell idle ms \<longleftrightarrow> False"

lemmas step_defs = cancelCause_def timer_fires_def reader_returns_def stop_reader_def copy_returns_def copied_def
  newStallReader_def Let_def

section \<open>The invariant\<close>

text \<open>
  The armed timer counts from the last bytes; a context that ended for a stall has seen a
  quiet spell; once the copy has returned the timer is off.
\<close>

definition watched :: "nat \<Rightarrow> attempt \<Rightarrow> bool" where
  "watched idle s \<longleftrightarrow>
     (\<exists>m ms. moments s = m # ms \<and> m \<le> clock s \<and> (\<forall>t. timer s = Some t \<longrightarrow> t = m + idle)) \<and>
     (ctx_cause s = Some CauseStall \<longrightarrow> quiet_spell idle (clock s # moments s)) \<and>
     (outcome s \<noteq> None \<longrightarrow> timer s = None)"

lemma quiet_spell_later: "quiet_spell idle (t # ms) \<Longrightarrow> t \<le> u \<Longrightarrow> quiet_spell idle (u # ms)"
  by (cases ms) auto

lemma quiet_spell_again: "quiet_spell idle (t # ms) \<Longrightarrow> quiet_spell idle (t # t # ms)"
  by (cases ms) auto

lemma watched_begins: "watched idle (attempt_begins idle t body)"
  by (simp add: watched_def attempt_begins_def step_defs)

lemma watched_step: "step idle s s' \<Longrightarrow> watched idle s \<Longrightarrow> watched idle s'"
  by (induction rule: step.induct)
    (auto simp: watched_def step_defs intro: quiet_spell_later quiet_spell_again split: if_splits)

lemma watched_steps: "steps idle s s' \<Longrightarrow> watched idle s \<Longrightarrow> watched idle s'"
  by (induction rule: rtranclp_induct) (auto intro: watched_step)

lemma returned_stays:
  assumes "steps idle s s'" and "watched idle s" and "outcome s \<noteq> None"
  shows "s' = s"
  using assms
proof (induction rule: rtranclp_induct)
  case (step y z)
  then have "y = s" by blast
  with step.hyps(2) step.prems show ?case by (auto simp: watched_def elim: stepE)
qed blast

text \<open>A context never ends twice, and the bytes written never decrease.\<close>

lemma steps_monotone:
  "steps idle s s' \<Longrightarrow> (ctx_cause s = Some c \<longrightarrow> ctx_cause s' = Some c) \<and> got s \<le> got s' \<and> clock s \<le> clock s'"
proof (induction rule: rtranclp_induct)
  case (step y z)
  from step.hyps(2) step.IH show ?case by (cases) (auto simp: step_defs)
qed simp

text \<open>The bytes written are those of the reads that are past.\<close>

definition delivered :: "read_event list \<Rightarrow> attempt \<Rightarrow> bool" where
  "delivered body s \<longleftrightarrow>
     (case outcome s of
        Some None \<Rightarrow> (\<exists>b. body_data body = Some b \<and> got s = length b)
      | Some (Some e) \<Rightarrow> True
      | None \<Rightarrow>
          (\<forall>rest. body_data (arrivals s) = Some rest \<longrightarrow>
             (\<exists>b. body_data body = Some b \<and> length b = got s + length rest)))"

lemma delivered_begins: "delivered body (attempt_begins idle t body)"
  by (simp add: delivered_def attempt_begins_def step_defs)

lemma delivered_step: "step idle s s' \<Longrightarrow> delivered body s \<Longrightarrow> delivered body s'"
  by (induction rule: step.induct)
    (auto simp: delivered_def step_defs split: option.splits if_splits)

lemma delivered_steps: "steps idle s s' \<Longrightarrow> delivered body s \<Longrightarrow> delivered body s'"
  by (induction rule: rtranclp_induct) (auto intro: delivered_step)

section \<open>The schedule of the sequential model\<close>

lemma ticks:
  assumes "outcome s = None"
  shows "steps idle s (s\<lparr>clock := clock s + n, blocked := blocked s + n\<rparr>)"
proof (induction n)
  case (Suc n)
  let ?u = "s\<lparr>clock := clock s + n, blocked := blocked s + n\<rparr>"
  have "step idle ?u (?u\<lparr>clock := clock ?u + 1, blocked := blocked ?u + 1\<rparr>)"
    using assms by (intro step.tick) simp
  with Suc show ?case by (auto intro: rtranclp.rtrancl_into_rtrancl)
qed simp

lemma Write_now: "now (snd (os_Write p b (w :: 'z host_scheme))) = now w"
  by (simp add: os_Write_def fs_call_def next_fault_def set_fs_def emit_def split: list.split fault.split)

text \<open>The state of the sequential copy between two reads, as a state of the concurrent one.\<close>

definition at_read :: "nat \<Rightarrow> read_event list \<Rightarrow> nat \<Rightarrow> 'z host_scheme \<Rightarrow> attempt \<Rightarrow> bool" where
  "at_read deadline src written w s \<longleftrightarrow>
     clock s = now w \<and> timer s = Some deadline \<and> ctx_cause s = None \<and> arrivals s = src \<and>
     blocked s = 0 \<and> got s = written \<and> outcome s = None"

text \<open>An interrupted read: the clock runs to the end of the context, which interrupts the loop.\<close>

lemma interrupted_run:
  assumes "at_read deadline src written w s" and "stall_Read idle deadline src w = ((Interrupted st, dl, src'), w1)"
  shows "\<exists>s'. steps idle s s' \<and> outcome s' = Some (Some (wrap ''read download: '' ctxCanceled)) \<and>
     got s' = written \<and> clock s' = now w1 \<and> (ctx_cause s' = Some CauseStall \<longleftrightarrow> st)"
proof -
  let ?u = "s\<lparr>clock := now w1, blocked := now w1 - now w\<rparr>"
  obtain t_end where e: "ctx_end deadline w = (t_end, st)" and t: "now w1 = max (now w) t_end"
    using assms(2) by (auto simp: stall_Read_def Let_def split: prod.splits list.splits if_splits)
  have s: "clock s = now w" "blocked s = 0" "outcome s = None" "timer s = Some deadline" "ctx_cause s = None" "got s = written"
    using assms(1) by (simp_all add: at_read_def)
  have u: "steps idle s ?u" using ticks [OF s(3), of idle "now w1 - now w"] s t by simp
  let ?v = "if st then timer_fires ?u else cancelCause CauseParent ?u"
  have "step idle ?u ?v"
  proof (cases st)
    case True
    then have "t_end = deadline" using e by (auto simp: ctx_end_def split: option.splits if_splits)
    with True t s show ?thesis using step.fire [of ?u deadline idle] by simp
  next
    case False
    with s show ?thesis using step.cancel [of ?u idle] by simp
  qed
  moreover have "step idle ?v (copy_returns (Some (wrap ''read download: '' ctxCanceled)) ?v)"
    using s by (intro step.interrupt) (simp_all add: step_defs)
  ultimately have "steps idle s (copy_returns (Some (wrap ''read download: '' ctxCanceled)) ?v)"
    using u by (meson rtranclp.rtrancl_into_rtrancl)
  then show ?thesis using s
    by (intro exI [of _ "copy_returns (Some (wrap ''read download: '' ctxCanceled)) ?v"]) (simp add: step_defs)
qed

lemma copy_run:
  assumes "at_read deadline src written w s"
    and "copyWithProgress idle dst deadline src written w = ((n, err, stalled), w')"
  shows "\<exists>s'. steps idle s s' \<and> outcome s' = Some err \<and> got s' = n \<and> clock s' = now w' \<and>
     (ctx_cause s' = Some CauseStall \<longleftrightarrow> stalled)"
  using assms
proof (induction src arbitrary: deadline written w s)
  case Nil
  obtain t_end st where "ctx_end deadline w = (t_end, st)" by (cases "ctx_end deadline w")
  then have sr: "stall_Read idle deadline [] w = ((Interrupted st, deadline, []), w\<lparr>now := max (now w) t_end\<rparr>)"
    by (simp add: stall_Read_def)
  from interrupted_run [OF Nil(1) sr] Nil(2) show ?case by (auto simp: copy_interrupted [OF sr])
next
  case (Cons ev src)
  obtain rr dl src' w1 where sr: "stall_Read idle deadline (ev # src) w = ((rr, dl, src'), w1)"
    by (metis prod.collapse)
  show ?case
  proof (cases rr)
    case (Interrupted st)
    with interrupted_run [OF Cons.prems(1)] sr Cons.prems(2) show ?thesis by (simp add: copy_interrupted)
  next
    case (Got b e)
    obtain q w2 where q: "(if length b > 0 then os_Write dst b w1 else (Inr (), w1)) = (q, w2)"
      by (metis prod.collapse)
    from stall_Read_Got [OF sr [unfolded Got]] obtain d
      where src: "src' = src" and ev: "ev = (d, b, e)" and w1: "w1 = w\<lparr>now := now w + d\<rparr>" by auto
    have dl: "dl = (if length b > 0 then now w1 + idle else deadline)"
      using sr Got ev w1 by (auto simp: stall_Read_def Let_def split: prod.splits if_splits)
    have n2: "now w2 = now w1" using q Write_now [of dst b w1] by (auto split: if_splits)
    have s: "clock s = now w" "blocked s = 0" "outcome s = None" "timer s = Some deadline"
        "ctx_cause s = None" "got s = written" "arrivals s = (d, b, e) # src"
      using Cons.prems(1) ev by (simp_all add: at_read_def)
    let ?u = "s\<lparr>clock := now w1, blocked := d\<rparr>"
    have u: "steps idle s ?u" using ticks [OF s(3), of idle d] s w1 by simp
    note c = Cons.prems(2) [unfolded copy_got [OF sr [unfolded Got] q]]
    show ?thesis
    proof (cases q)
      case (Inl we)
      then have b: "length b > 0" using q by (auto split: if_splits)
      let ?v = "copy_returns (Some (wrap ''write download: '' we)) (reader_returns idle b ?u)"
      have "step idle ?u ?v"
        using s b by (intro step.write_error [where d = d and r = e and evs = src]) simp_all
      with u have "steps idle s ?v"
        by (rule rtranclp.rtrancl_into_rtrancl)
      then show ?thesis using c Inl s n2 b by (intro exI [of _ ?v]) (auto simp: step_defs)
    next
      case (Inr v)
      show ?thesis
      proof (cases e)
        case More
        let ?v = "copied b (reader_returns idle b ?u)"
        have "step idle ?u ?v" using s More by (intro step.more [where d = d and evs = src]) simp_all
        with u have sv: "steps idle s ?v" by (rule rtranclp.rtrancl_into_rtrancl)
        have "at_read dl src (written + length b) w2 ?v"
          using s dl n2 by (auto simp: at_read_def step_defs)
        from Cons.IH [OF this] c Inr More src sv show ?thesis
          by (auto intro: rtranclp_trans)
      next
        case Eof
        let ?v = "copy_returns None (copied b (reader_returns idle b ?u))"
        have "step idle ?u ?v" using s Eof by (intro step.eof [where d = d and evs = src]) simp_all
        with u have "steps idle s ?v" by (rule rtranclp.rtrancl_into_rtrancl)
        then show ?thesis using c Inr Eof s n2 by (intro exI [of _ ?v]) (auto simp: step_defs)
      next
        case (ReadErr re)
        let ?v = "copy_returns (Some (wrap ''read download: '' re)) (copied b (reader_returns idle b ?u))"
        have "step idle ?u ?v" using s ReadErr by (intro step.read_error [where d = d and evs = src]) simp_all
        with u have "steps idle s ?v" by (rule rtranclp.rtrancl_into_rtrancl)
        then show ?thesis using c Inr ReadErr s n2 by (intro exI [of _ ?v]) (auto simp: step_defs)
      qed
    qed
  qed
qed

section \<open>Properties\<close>


definition late_body :: "read_event list" where
  "late_body = [(3, ''ab'', More), (0, [], Eof)]"




end
