(* ===== verification/Host_Llvm.thy ===== *)
theory Host_Llvm
  imports Host_Config
begin

text \<open>
  \<^verbatim>\<open>cmd/ossein-kernel/main.go\<close>, the toolchain: which entries of the LLVM archive are
  kept and where they go, how an entry is written, and the stamped extraction.
\<close>

section \<open>Entries\<close>

definition errTarEscape :: goerr where
  "errTarEscape = ErrNew ''llvm tar entry escapes destination''"

definition pruneLLVMPath :: "string \<Rightarrow> bool" where
  "pruneLLVMPath rel =
     (if rel = ''include'' \<or> HasPrefix rel ''include/'' then True
      else if rel = ''share'' \<or> HasPrefix rel ''share/'' then True
      else if rel = ''lib/cmake'' \<or> HasPrefix rel ''lib/cmake/'' then True
      else if HasPrefix rel ''bin/lldb'' \<or> HasPrefix rel ''lib/liblldb'' then True
      else if HasPrefix rel ''lib/'' \<and> HasSuffix rel ''.a'' \<and> count_list rel CHR ''/'' = 1 then True
      else False)"

text \<open>The target and whether the entry is wanted.\<close>

definition llvmEntryTarget :: "string \<Rightarrow> string \<Rightarrow> string \<Rightarrow> (string \<times> bool) result" where
  "llvmEntryTarget name destDir root =
     (let rel = TrimPrefix name ''./''
      in case Cut rel ''/'' of (_, rest, found) \<Rightarrow>
           if \<not> found then Inr ([], False)
           else if rest = [] \<or> pruneLLVMPath rest then Inr ([], False)
           else
             (let target = PathJoin destDir rest
              in if \<not> HasPrefix target root then Inl (Errorf ('': '' @ name) [errTarEscape])
                 else Inr (target, True)))"

definition writeLLVMFile :: "string \<Rightarrow> tar_entry \<Rightarrow> (unit, 'z) io" where
  "writeLLVMFile target entry =
     (case entry of (hdr, chunks, end) \<Rightarrow>
        tryE (os_MkdirAll (PathDir target)) (wrap (''mkdir parent of '' @ target @ '': '')) (\<lambda>_.
        tryE (os_OpenTrunc target (perm (Mode hdr))) (wrap (''create '' @ target @ '': '')) (\<lambda>_.
        catchE (io_Copy target chunks end)
          (\<lambda>e. ignoreE (os_Close target) (failE (wrap (''write '' @ target @ '': '') e)))
          (\<lambda>_. tryE (os_Close target) (wrap (''close '' @ target @ '': '')) (\<lambda>_. ret ())))))"

text \<open>Where the link points, as the containment check resolves it.\<close>

definition link_resolved :: "string \<Rightarrow> string \<Rightarrow> string" where
  "link_resolved target linkname =
     (if \<not> IsAbs linkname then PathJoin (PathDir target) linkname else linkname)"

definition writeLLVMSymlink :: "string \<Rightarrow> string \<Rightarrow> tar_header \<Rightarrow> (unit, 'z) io" where
  "writeLLVMSymlink root target hdr =
     (if \<not> HasPrefix (Clean (link_resolved target (Linkname hdr)) @ ''/'') root
      then failE (Errorf ('': symlink '' @ Name hdr @ '' -> '' @ Linkname hdr) [errTarEscape])
      else
        tryE (os_MkdirAll (PathDir target)) (wrap (''mkdir parent of '' @ target @ '': '')) (\<lambda>_.
        ignoreE (os_Remove target) (
        tryE (os_Symlink (Linkname hdr) target) (wrap (''symlink '' @ target @ '': '')) (\<lambda>_. ret ()))))"

definition writeLLVMEntry :: "string \<Rightarrow> string \<Rightarrow> tar_entry \<Rightarrow> (unit, 'z) io" where
  "writeLLVMEntry root target entry =
     (case Typeflag (fst entry) of
        TypeDir \<Rightarrow> tryE (os_MkdirAll target) (wrap (''mkdir '' @ target @ '': '')) (\<lambda>_. ret ())
      | TypeReg \<Rightarrow> writeLLVMFile target entry
      | TypeSymlink \<Rightarrow> writeLLVMSymlink root target (fst entry)
      | _ \<Rightarrow> ret ())"

fun extract_entries :: "string \<Rightarrow> string \<Rightarrow> tar_entry list \<Rightarrow> goerr option \<Rightarrow> (unit, 'z) io" where
  "extract_entries destDir root [] end =
     (case end of None \<Rightarrow> ret () | Some e \<Rightarrow> failE (wrap ''read llvm tar: '' e))"
| "extract_entries destDir root (entry # rest) end =
     (case llvmEntryTarget (Name (fst entry)) destDir root of
        Inl e \<Rightarrow> failE e
      | Inr (target, wanted) \<Rightarrow>
          if \<not> wanted then extract_entries destDir root rest end
          else tryE (writeLLVMEntry root target entry) id (\<lambda>_. extract_entries destDir root rest end))"

section \<open>Extraction\<close>

definition extractLLVM :: "'z host_deps \<Rightarrow> string \<Rightarrow> string \<Rightarrow> (unit, 'z) hio" where
  "extractLLVM lib tarball destDir =
     tryE (os_OpenRead tarball) (wrap (''open llvm tarball '' @ tarball @ '': '')) (\<lambda>tarFile.
     tryE (os_Stat tarball) (wrap (''stat llvm tarball '' @ tarball @ '': '')) (\<lambda>_.
     case XzTar lib tarFile of
       Inl e \<Rightarrow> failE (wrap ''parallel xz reader: '' e)
     | Inr tar \<Rightarrow> extract_entries destDir (Clean destDir @ ''/'') (fst tar) (snd tar)))"

definition llvm_dir :: "string \<Rightarrow> string" where
  "llvm_dir env = PathJoin (scratchDir env) ''llvm''"

definition llvm_stamp :: "string \<Rightarrow> string" where
  "llvm_stamp env = PathJoin (llvm_dir env) ''.ossein-llvm-sha''"

definition prepareLLVM :: "'z host_deps \<Rightarrow> string \<Rightarrow> config \<Rightarrow> (string, 'z) hio" where
  "prepareLLVM lib env cfg =
     (let llvmDir = llvm_dir env; stamp = llvm_stamp env;
          rebuild =
            (let tarball = cachePath (PathJoin (scratchDir env) ''llvm.tar.xz'') (LLVMSHA cfg)
             in tryE (fetchFile (fetching lib) (LLVMURL cfg) tarball (LLVMSHA cfg) ''LLVM toolchain'') id (\<lambda>_.
                tryE (os_RemoveAll llvmDir) (wrap ''clear llvm dir: '') (\<lambda>_.
                tryE (os_MkdirAll llvmDir) (wrap ''create llvm dir: '') (\<lambda>_.
                tryE (extractLLVM lib tarball llvmDir) (wrap ''extract LLVM toolchain: '') (\<lambda>_.
                tryE (WriteFile lib stamp (LLVMSHA cfg)) id (\<lambda>_.
                ret llvmDir))))))
      in catchE (os_ReadFile stamp) (\<lambda>_. rebuild)
           (\<lambda>stampSHA. if TrimSpace stampSHA = LLVMSHA cfg then ret llvmDir else rebuild))"

section \<open>Where an entry goes\<close>

text \<open>
  Whatever an entry of the archive is named, the path it is extracted to lies strictly
  below the destination directory: the directory's path, a slash, and ordinary names, none of
  them empty, \<open>.\<close>, \<open>..\<close> or with a slash in it.
\<close>

lemma llvm_target_contained:
  assumes "named_dir destDir"
    and "llvmEntryTarget name destDir (Clean destDir @ ''/'') = Inr (target, True)"
  shows "\<exists>es. es \<noteq> [] \<and> list_all name_ok es \<and> target = Clean destDir @ ''/'' @ Join es ''/''"
proof -
  obtain b rest where t: "target = PathJoin destDir rest" "HasPrefix target (Clean destDir @ ''/'')"
    using assms(2) by (auto simp: llvmEntryTarget_def Let_def split: prod.splits if_splits)
  have "destDir \<noteq> []" using assms(1) by (auto simp: named_dir_def parse_path_def IsAbs_def)
  then have c: "target = Clean (destDir @ ''/'' @ rest)" using t(1) by (simp add: PathJoin_def)
  from under_prefix [OF assms(1), of "destDir @ ''/'' @ rest"] t(2)
  show ?thesis unfolding c below_dir_def by blast
qed

lemma llvm_target_contained_example:
  "llvmEntryTarget ''./LLVM-20/bin/../bin/clang'' ''s/llvm'' (Clean ''s/llvm'' @ ''/'') = Inr (''s/llvm/bin/clang'', True) \<and>
   (\<exists>es. es \<noteq> [] \<and> list_all name_ok es \<and> ''s/llvm/bin/clang'' = Clean ''s/llvm'' @ ''/'' @ Join es ''/'')"
proof
  show t: "llvmEntryTarget ''./LLVM-20/bin/../bin/clang'' ''s/llvm'' (Clean ''s/llvm'' @ ''/'') = Inr (''s/llvm/bin/clang'', True)"
    by code_simp
  have "named_dir ''s/llvm''" by code_simp
  from llvm_target_contained [OF this t]
  show "\<exists>es. es \<noteq> [] \<and> list_all name_ok es \<and> ''s/llvm/bin/clang'' = Clean ''s/llvm'' @ ''/'' @ Join es ''/''" .
qed

section \<open>What extraction touches\<close>

lemma target_below:
  "named_dir destDir \<Longrightarrow> llvmEntryTarget name destDir (Clean destDir @ ''/'') = Inr (target, True) \<Longrightarrow>
     below_dir (Clean destDir) target"
proof -
  assume d: "named_dir destDir" and t: "llvmEntryTarget name destDir (Clean destDir @ ''/'') = Inr (target, True)"
  obtain rest where "target = PathJoin destDir rest" "HasPrefix target (Clean destDir @ ''/'')"
    using t by (auto simp: llvmEntryTarget_def Let_def split: prod.splits if_splits)
  moreover have "destDir \<noteq> []" using d by (auto simp: named_dir_def parse_path_def IsAbs_def)
  ultimately show ?thesis using under_prefix [OF d, of "destDir @ ''/'' @ rest"] by (simp add: PathJoin_def)
qed

text \<open>A property of the disk that looks at no path of the directory and none above it.\<close>

definition blind_dir :: "(fsys \<Rightarrow> bool) \<Rightarrow> string \<Rightarrow> bool" where
  "blind_dir R d \<longleftrightarrow> (\<forall>p. below_dir (Clean d) p \<or> p \<in> set (ancestors (Clean d)) \<longrightarrow> blind R p)"

lemma blind_dir_ancestors:
  assumes "named_dir d" and "blind_dir R d" and "p = Clean d \<or> below_dir (Clean d) p"
    and "a \<in> set (ancestors p) \<or> a \<in> set (ancestors (PathDir p)) \<and> below_dir (Clean d) p"
  shows "blind R a"
  using assms ancestors_in_dir [OF assms(1), of p a] ancestors_in_dir [OF assms(1), of "PathDir p" a]
    below_PathDir [OF assms(1), of p] unfolding blind_dir_def by blast

lemma keeps_writeLLVMEntry:
  assumes "named_dir d" and "blind_dir R d" and "below_dir (Clean d) target"
  shows "keeps (disk_inv R) (writeLLVMEntry root target entry)"
proof -
  have t: "blind R target" using assms(2,3) by (auto simp: blind_dir_def)
  have m: "keeps (disk_inv R) (os_MkdirAll target)" "keeps (disk_inv R) (os_MkdirAll (PathDir target))"
    using blind_dir_ancestors [OF assms(1,2)] assms(3) by (intro keeps_MkdirAll; blast)+
  have f: "keeps (disk_inv R) (writeLLVMFile target en)" for en
    unfolding writeLLVMFile_def by (cases en) (auto intro!: keeps_intro m t split: prod.split)
  have s: "keeps (disk_inv R) (writeLLVMSymlink root target h)" for h
    unfolding writeLLVMSymlink_def by (intro keeps_intro m t)
  show ?thesis
    unfolding writeLLVMEntry_def by (cases "Typeflag (fst entry)") (auto intro!: keeps_intro m f s)
qed

lemma keeps_extract_entries:
  assumes "named_dir d" and "blind_dir R d"
  shows "keeps (disk_inv R) (extract_entries d (Clean d @ ''/'') es end)"
proof (induction es)
  case Nil
  show ?case by (cases "end") (auto intro!: keeps_intro)
next
  case (Cons en es)
  show ?case
  proof (cases "llvmEntryTarget (Name (fst en)) d (Clean d @ ''/'')")
    case (Inl e)
    then show ?thesis by (simp add: keeps_failE)
  next
    case (Inr r)
    obtain t wanted where r: "r = (t, wanted)" by (cases r)
    show ?thesis
    proof (cases wanted)
      case True
      then have "below_dir (Clean d) t" using Inr r target_below [OF assms(1)] by simp
      then show ?thesis
        using Inr r True Cons by (auto intro!: keeps_tryE keeps_writeLLVMEntry [OF assms])
    qed (use Inr r Cons in simp)
  qed
qed

lemma keeps_extractLLVM:
  "named_dir d \<Longrightarrow> blind_dir R d \<Longrightarrow> keeps (disk_inv R) (extractLLVM lib tarball d)"
  unfolding extractLLVM_def
  by (auto intro!: keeps_intro keeps_extract_entries split: sum.split)



section \<open>Links\<close>

text \<open>No link below the directory points outside it, as the lexical check resolves links.\<close>

definition links_inside :: "string \<Rightarrow> fsys \<Rightarrow> bool" where
  "links_inside d f \<longleftrightarrow>
     (\<forall>p t. below_dir (Clean d) p \<longrightarrow> f p = Some (NLink t) \<longrightarrow>
        Clean (link_resolved p t) = Clean d \<or> below_dir (Clean d) (Clean (link_resolved p t)))"

lemma links_inside_upd: "links_inside d f \<Longrightarrow> (\<And>t. n \<noteq> Some (NLink t)) \<Longrightarrow> links_inside d (f(p := n))"
  by (auto simp: links_inside_def)

lemma links_inside_fold:
  "links_inside d f \<Longrightarrow> (\<And>a f. links_inside d f \<Longrightarrow> links_inside d (g a f)) \<Longrightarrow> links_inside d (fold g as f)"
  by (induction as arbitrary: f) auto

lemma links_inside_append_file: "links_inside d f \<Longrightarrow> links_inside d (append_file p b f)"
  by (auto simp: append_file_def links_inside_upd split: option.split node.split)

lemma keeps_links_MkdirAll [keeps_intro]: "keeps (disk_inv (links_inside d)) (os_MkdirAll p)"
  unfolding os_MkdirAll_def by (intro keeps_fs_call) (auto intro!: links_inside_fold links_inside_upd)

lemma keeps_links_Write [keeps_intro]: "keeps (disk_inv (links_inside d)) (os_Write p b)"
  unfolding os_Write_def by (intro keeps_fs_call) (auto intro: links_inside_append_file)

lemma keeps_links_Remove [keeps_intro]: "keeps (disk_inv (links_inside d)) (os_Remove p)"
  unfolding os_Remove_def by (intro keeps_fs_call) (auto intro: links_inside_upd)

lemma keeps_links_OpenTrunc [keeps_intro]: "keeps (disk_inv (links_inside d)) (os_OpenTrunc p m)"
proof (rule keepsI)
  fix w
  assume w: "disk_inv (links_inside d) w"
  have k: "keeps (disk_inv (links_inside d))
      (fs_call (EvCreate p) pre (\<lambda>f. f(p \<mapsto> NFile [] (q f))) (\<lambda>n ps f. f))" for pre q
    by (intro keeps_fs_call) (auto intro: links_inside_upd)
  show "disk_inv (links_inside d) (snd (os_OpenTrunc p m w))"
    unfolding os_OpenTrunc_def by (rule keepsD [OF k w])
qed

lemma keeps_links_copy [keeps_intro]: "keeps (disk_inv (links_inside d)) (io_Copy p cs e)"
  by (induction p cs e rule: io_Copy.induct) (auto intro!: keeps_intro split: option.splits)

lemma keeps_links_symlink:
  assumes "named_dir d" and "HasPrefix (Clean (link_resolved p t) @ ''/'') (Clean d @ ''/'')"
  shows "keeps (disk_inv (links_inside d)) (os_Symlink t p)"
proof -
  have "Clean (link_resolved p t) = Clean d \<or> below_dir (Clean d) (Clean (link_resolved p t))"
  proof (cases "Clean (link_resolved p t) = Clean d")
    case False
    from assms(2) obtain s where "Clean (link_resolved p t) @ ''/'' = (Clean d @ ''/'') @ s"
      by (auto simp: HasPrefix_iff)
    with False have "HasPrefix (Clean (link_resolved p t)) (Clean d @ ''/'')"
      by (cases s rule: rev_cases) (auto simp: HasPrefix_iff)
    with under_prefix [OF assms(1)] show ?thesis by blast
  qed simp
  then have "links_inside d f \<Longrightarrow> links_inside d (f(p \<mapsto> NLink t))" for f
    by (auto simp: links_inside_def)
  then show ?thesis unfolding os_Symlink_def by (intro keeps_fs_call) auto
qed

lemma keeps_links_entry:
  assumes "named_dir d"
  shows "keeps (disk_inv (links_inside d)) (writeLLVMEntry (Clean d @ ''/'') target entry)"
proof -
  have f: "keeps (disk_inv (links_inside d)) (writeLLVMFile target en)" for en
    unfolding writeLLVMFile_def by (cases en) (auto intro!: keeps_intro split: prod.split)
  have s: "keeps (disk_inv (links_inside d)) (writeLLVMSymlink (Clean d @ ''/'') target h)" for h
    unfolding writeLLVMSymlink_def
    by (intro keeps_intro keeps_links_symlink assms) simp
  show ?thesis
    unfolding writeLLVMEntry_def by (cases "Typeflag (fst entry)") (auto intro!: keeps_intro f s)
qed

lemma keeps_links_entries:
  assumes "named_dir d"
  shows "keeps (disk_inv (links_inside d)) (extract_entries d (Clean d @ ''/'') es end)"
proof (induction es)
  case Nil
  show ?case by (cases "end") (auto intro!: keeps_intro)
next
  case (Cons en es)
  then show ?case
    using keeps_links_entry [OF assms, of _ en]
    by (auto intro!: keeps_failE keeps_tryE split: sum.split prod.split)
qed



section \<open>The stamp\<close>

lemma ReadFile_reads:
  "fs w p = Some (NFile b m) \<Longrightarrow> faults w = [] \<Longrightarrow> os_ReadFile p w = (Inr b, w)"
  by (simp add: os_ReadFile_def fs_read_def next_fault_def)

lemma prepareLLVM_reuses:
  assumes "fs w (llvm_stamp env) = Some (NFile s m)" and "TrimSpace s = LLVMSHA cfg" and "faults w = []"
  shows "prepareLLVM lib env cfg w = (Inr (llvm_dir env), w)"
  using ReadFile_reads [OF assms(1,3)] assms(2) by (simp add: prepareLLVM_def Let_def catchE_def ret_def)

lemma prepareLLVM_stamped:
  assumes "writes_files lib temps" and "TrimSpace (LLVMSHA cfg) = LLVMSHA cfg"
    and "prepareLLVM lib env cfg w = (Inr d, w')"
  shows "d = llvm_dir env \<and> (\<exists>s m. fs w' (llvm_stamp env) = Some (NFile s m) \<and> TrimSpace s = LLVMSHA cfg)"
proof -
  obtain r w1 where rd: "os_ReadFile (llvm_stamp env) w = (r, w1)" by (cases "os_ReadFile (llvm_stamp env) w")
  show ?thesis
  proof (cases "\<exists>s. r = Inr s \<and> TrimSpace s = LLVMSHA cfg")
    case True
    then obtain s where s: "r = Inr s" "TrimSpace s = LLVMSHA cfg" by blast
    with assms(3) rd have "d = llvm_dir env" "w' = w1"
      by (simp_all add: prepareLLVM_def Let_def catchE_def ret_def)
    with ReadFile_ok [OF rd [unfolded s(1)]] s(2) show ?thesis by auto
  next
    case False
    let ?tarball = "cachePath (PathJoin (scratchDir env) ''llvm.tar.xz'') (LLVMSHA cfg)"
    have "tryE (fetchFile (fetching lib) (LLVMURL cfg) ?tarball (LLVMSHA cfg) ''LLVM toolchain'') id (\<lambda>_.
        tryE (os_RemoveAll (llvm_dir env)) (wrap ''clear llvm dir: '') (\<lambda>_.
        tryE (os_MkdirAll (llvm_dir env)) (wrap ''create llvm dir: '') (\<lambda>_.
        tryE (extractLLVM lib ?tarball (llvm_dir env)) (wrap ''extract LLVM toolchain: '') (\<lambda>_.
        tryE (WriteFile lib (llvm_stamp env) (LLVMSHA cfg)) id (\<lambda>_. ret (llvm_dir env)))))) w1 = (Inr d, w')"
      using assms(3) rd False by (cases r) (auto simp: prepareLLVM_def Let_def catchE_def)
    then obtain v u where "WriteFile lib (llvm_stamp env) (LLVMSHA cfg) v = (Inr u, w')" "d = llvm_dir env"
      unfolding tryE_Inr by (auto simp: ret_eq)
    with writes_files_ok [OF assms(1)] assms(2) show ?thesis by blast
  qed
qed

text \<open>
  A prepared toolchain is reused: once a run has succeeded, the stamp names the pin, and the
  next run with the same pin returns the directory without touching the disk or the network
  (unless a system call fails).
\<close>

lemma prepare_llvm_reused:
  assumes "writes_files lib temps" and "TrimSpace (LLVMSHA cfg) = LLVMSHA cfg"
    and "prepareLLVM lib env cfg w = (Inr d, w')"
  shows "d = llvm_dir env \<and> prepareLLVM lib env cfg (w'\<lparr>faults := []\<rparr>) = (Inr d, w'\<lparr>faults := []\<rparr>)"
proof -
  obtain s m where "fs w' (llvm_stamp env) = Some (NFile s m)" "TrimSpace s = LLVMSHA cfg"
    and d: "d = llvm_dir env"
    using prepareLLVM_stamped [OF assms] by blast
  then show ?thesis using prepareLLVM_reuses [of "w'\<lparr>faults := []\<rparr>"] by simp
qed

definition new_pin :: config where
  "new_pin = old_pin\<lparr>LLVMSHA := ''b2''\<rparr>"

definition half_cleared :: host where
  "half_cleared =
    (host_world
       [''s/kernel-scratch/llvm.tar.xz'' \<mapsto> NFile ''b2'' 420,
        ''s/kernel-scratch/llvm'' \<mapsto> NDir,
        ''s/kernel-scratch/llvm/.ossein-llvm-sha'' \<mapsto> NFile ''a1'' 384,
        ''s/kernel-scratch/llvm/bin/clang'' \<mapsto> NFile ''elf'' 493] [])
      \<lparr>faults := [Pass, Pass, Pass, Pass, Fail EACCES 0 [''s/kernel-scratch/llvm/bin/clang'']]\<rparr>"

definition only_tarball :: host where
  "only_tarball = host_world [''s/kernel-scratch/llvm.tar.xz'' \<mapsto> NFile ''b2'' 420] []"

lemma prepare_llvm_reused_example:
  "fst (prepareLLVM empty_lib ''s'' new_pin
     ((snd (prepareLLVM empty_lib ''s'' new_pin only_tarball))\<lparr>faults := []\<rparr>)) = Inr ''s/kernel-scratch/llvm''"
proof -
  have "fst (prepareLLVM empty_lib ''s'' new_pin only_tarball) = Inr ''s/kernel-scratch/llvm''"
    by code_simp
  then have w': "prepareLLVM empty_lib ''s'' new_pin only_tarball =
      (Inr ''s/kernel-scratch/llvm'', snd (prepareLLVM empty_lib ''s'' new_pin only_tarball))"
    unfolding prod_eq_iff by (simp only: fst_conv snd_conv simp_thms)
  have "TrimSpace (LLVMSHA new_pin) = LLVMSHA new_pin" by code_simp
  from prepare_llvm_reused [OF empty_lib_writes this w'] show ?thesis by (simp only: fst_conv)
qed

text \<open>
  The stamp is not withdrawn before the old toolchain is: when clearing the directory
  fails half way, the run for the new pin fails, but the stamp of the old pin can survive the
  files it vouches for, and a later run for the old pin accepts a toolchain without a
  compiler.
\<close>

lemma llvm_partial_clear_accepted:
  "(let (r, w) = prepareLLVM toy_lib ''s'' new_pin half_cleared
    in r = Inl (Errorf ''clear llvm dir: '' [Errno EACCES]) \<and>
       fs w ''s/kernel-scratch/llvm/bin/clang'' = None \<and>
       fst (prepareLLVM toy_lib ''s'' old_pin w) = Inr ''s/kernel-scratch/llvm'')"
  by code_simp

end
