(* ===== verification/Host_Seed.thy ===== *)
theory Host_Seed
  imports Host_Config
begin

text \<open>
  \<^verbatim>\<open>cmd/ossein-kernel/main.go\<close>, the bootstrap kernel: the previous output when it is
  plausible, the cached seed kernel otherwise, and its download and extraction on a cold
  start. The extraction is a staged write of the first \<^verbatim>\<open>vmlinux\<close> of the archive.
\<close>

section \<open>The seed kernel\<close>

definition minKernelBytes :: int where "minKernelBytes = 2 ^ 20"

definition errNoSeedVmlinux :: goerr where
  "errNoSeedVmlinux = ErrNew ''no vmlinux found in seed tarball''"

definition writeSeedKernel :: "string \<Rightarrow> string list \<times> goerr option \<Rightarrow> (unit, 'z) io" where
  "writeSeedKernel cache body =
     tryE (os_MkdirAll (PathDir cache)) (wrap ''create seed cache dir: '') (\<lambda>_.
     let partial = cache @ partialSuffix
     in tryE (os_Create partial) (wrap (''create seed file '' @ partial @ '': '')) (\<lambda>_.
        catchE (io_Copy partial (fst body) (snd body))
          (\<lambda>e. ignoreE (os_Close partial) (failE (wrap ''write seed kernel: '' e))) (\<lambda>_.
        tryE (os_Close partial) (wrap (''close seed file '' @ partial @ '': '')) (\<lambda>_.
        tryE (os_Rename partial cache) (wrap ''rename seed kernel into place: '') (\<lambda>_.
        ret ())))))"

definition seed_entry :: "tar_header \<Rightarrow> bool" where
  "seed_entry hdr \<longleftrightarrow> Typeflag hdr = TypeReg \<and> HasPrefix (PathBase (Name hdr)) ''vmlinux''"

fun seed_entries :: "string \<Rightarrow> tar_entry list \<Rightarrow> goerr option \<Rightarrow> (unit, 'z) io" where
  "seed_entries cache [] end =
     (case end of None \<Rightarrow> failE errNoSeedVmlinux | Some e \<Rightarrow> failE (wrap ''read seed tar: '' e))"
| "seed_entries cache ((hdr, body) # rest) end =
     (if seed_entry hdr then writeSeedKernel cache body else seed_entries cache rest end)"

definition extractSeedKernel :: "'z host_deps \<Rightarrow> string \<Rightarrow> string \<Rightarrow> (unit, 'z) hio" where
  "extractSeedKernel lib tarball cache =
     tryE (os_OpenRead tarball) (wrap (''open seed tarball '' @ tarball @ '': '')) (\<lambda>tarFile.
     case ZstdTar lib tarFile of
       Inl e \<Rightarrow> failE e
     | Inr tar \<Rightarrow> seed_entries cache (fst tar) (snd tar))"

definition seed_cache :: "string \<Rightarrow> string" where
  "seed_cache env = PathJoin (scratchDir env) ''bootstrap-kernel-arm64''"

definition fetchSeedKernel :: "'z host_deps \<Rightarrow> string \<Rightarrow> string \<Rightarrow> string \<Rightarrow> (string, 'z) hio" where
  "fetchSeedKernel lib env url wantSHA =
     (let cache = seed_cache env;
          cold =
            (let tarball = cachePath (PathJoin (scratchDir env) ''seed-kernel.tar.zst'') wantSHA
             in tryE (fetchFile (fetching lib) url tarball wantSHA ''Seed kernel'') id (\<lambda>_.
                tryE (extractSeedKernel lib tarball cache) (wrap (''seed kernel from '' @ url @ '': '')) (\<lambda>_.
                ret cache)))
      in catchE (os_Stat cache) (\<lambda>_. cold) (\<lambda>fi. if node_size fi > 0 then ret cache else cold))"

definition resolveBootstrap :: "'z host_deps \<Rightarrow> string \<Rightarrow> config \<Rightarrow> (string, 'z) hio" where
  "resolveBootstrap lib env cfg =
     (let seed = fetchSeedKernel lib env (KataURL cfg) (KataSHA cfg)
      in catchE (os_Stat (Out cfg)) (\<lambda>_. seed)
           (\<lambda>info. if int (node_size info) \<ge> minKernelBytes then ret (Out cfg) else seed))"

section \<open>Extraction is a staged write\<close>

definition seed_produce :: "string \<Rightarrow> string list \<times> goerr option \<Rightarrow> (unit, 'z) io" where
  "seed_produce cache body =
     tryE (os_Create (cache @ partialSuffix)) (wrap (''create seed file '' @ (cache @ partialSuffix) @ '': '')) (\<lambda>_.
     catchE (io_Copy (cache @ partialSuffix) (fst body) (snd body))
       (\<lambda>e. ignoreE (os_Close (cache @ partialSuffix)) (failE (wrap ''write seed kernel: '' e))) (\<lambda>_.
     tryE (os_Close (cache @ partialSuffix)) (wrap (''close seed file '' @ (cache @ partialSuffix) @ '': '')) ret))"

text \<open>A whole kernel: the body of an entry that was read to its end.\<close>

definition whole_body :: "string list \<times> goerr option \<Rightarrow> node \<Rightarrow> bool" where
  "whole_body body n \<longleftrightarrow> snd body = None \<and> (\<exists>m. n = NFile (concat (fst body)) m)"

lemma tryE_catchE: "tryE (catchE m (\<lambda>e. ignoreE d (failE (h e))) k) id c =
    catchE m (\<lambda>e. ignoreE d (failE (h e))) (\<lambda>x. tryE (k x) id c)"
  by (rule ext) (auto simp: tryE_def catchE_def failE_def ignoreE_def split: prod.split sum.split)

lemma writeSeedKernel_staged:
  "writeSeedKernel cache body =
     tryE (os_MkdirAll (PathDir cache)) (wrap ''create seed cache dir: '') (\<lambda>_.
     tryE (seed_produce cache body) id (\<lambda>_.
     tryE (os_Rename (cache @ partialSuffix) cache) (wrap ''rename seed kernel into place: '') (\<lambda>_. ret ())))"
  unfolding writeSeedKernel_def seed_produce_def Let_def tryE_assoc tryE_catchE ret_tryE by (rule refl)

lemma io_Copy_ok:
  "io_Copy p cs e w = (Inr u, w') \<Longrightarrow> fs w p = Some (NFile c m) \<Longrightarrow>
     e = None \<and> fs w' p = Some (NFile (c @ concat cs) m)"
proof (induction p cs e arbitrary: w c rule: io_Copy.induct)
  case (1 p e)
  then show ?case by (auto simp: ret_eq failE_eq split: option.splits)
next
  case (2 p x cs e)
  then obtain v w1 where wr: "os_Write p x w = (Inr v, w1)" and cp: "io_Copy p cs e w1 = (Inr u, w')"
    by (auto simp: tryE_Inr)
  have "fs w1 p = Some (NFile (c @ x) m)" using Write_ok [OF wr] 2(3) by (simp add: append_file_def)
  from "2.IH" [OF cp this] show ?case by simp
qed

interpretation seeded: staged "seed_produce cache body" "cache @ partialSuffix" cache "whole_body body"
  for cache body
proof unfold_locales
  show "cache @ partialSuffix \<noteq> cache" by simp
  show "keeps (disk_inv R) (seed_produce cache body)" if "blind R (cache @ partialSuffix)" for R
    using that unfolding seed_produce_def by (intro keeps_intro)
  fix w :: "'z world_scheme" and x w'
  assume "seed_produce cache body w = (Inr x, w')"
  then obtain u w1 where cr: "os_Create (cache @ partialSuffix) w = (Inr u, w1)"
    and k: "catchE (io_Copy (cache @ partialSuffix) (fst body) (snd body))
       (\<lambda>e. ignoreE (os_Close (cache @ partialSuffix)) (failE (wrap ''write seed kernel: '' e))) (\<lambda>_.
     tryE (os_Close (cache @ partialSuffix)) (wrap (''close seed file '' @ (cache @ partialSuffix) @ '': '')) ret) w1 = (Inr x, w')"
    unfolding seed_produce_def tryE_Inr by blast
  obtain r w2 where cp: "io_Copy (cache @ partialSuffix) (fst body) (snd body) w1 = (r, w2)"
    by (cases "io_Copy (cache @ partialSuffix) (fst body) (snd body) w1")
  from k cp obtain v y w3 where r: "r = Inr v" and cl: "os_Close (cache @ partialSuffix) w2 = (Inr y, w3)" "w' = w3"
    by (cases r) (auto simp: catchE_def ignoreE_eq failE_eq tryE_Inr ret_eq)
  obtain m where "fs w1 (cache @ partialSuffix) = Some (NFile [] m)" using Create_ok [OF cr] by blast
  with io_Copy_ok [OF cp [unfolded r]] Close_fs [OF cl(1)] cl(2)
  show "\<exists>n. fs w' (cache @ partialSuffix) = Some n \<and> whole_body body n"
    by (auto simp: whole_body_def)
qed

text \<open>What an archive can leave in the cache.\<close>

definition seed_kernel :: "tar_entry list \<Rightarrow> node \<Rightarrow> bool" where
  "seed_kernel entries n \<longleftrightarrow> (\<exists>hdr body. (hdr, body) \<in> set entries \<and> seed_entry hdr \<and> whole_body body n)"

lemma seed_kernel_here: "seed_entry h \<Longrightarrow> whole_body b n \<Longrightarrow> seed_kernel ((h, b) # es) n"
  unfolding seed_kernel_def by (intro exI [of _ h] exI [of _ b]) simp

lemma seed_kernel_later: "seed_kernel es n \<Longrightarrow> seed_kernel (en # es) n"
  unfolding seed_kernel_def by fastforce

lemma writeSeedKernel_keeps:
  assumes "proper_file cache"
  shows "keeps (disk_inv (old_or_good cache old (whole_body body))) (writeSeedKernel cache body)"
proof -
  have mk: "keeps (disk_inv (old_or_good cache old (whole_body body))) (os_MkdirAll (PathDir cache))"
    using assms by (intro keeps_intro blind_old_or_good) (auto simp: proper_file_def)
  have "keeps (disk_inv (old_or_good cache old (whole_body body)))
      (tryE (seed_produce cache body) id (\<lambda>_. tryE (os_Rename (cache @ partialSuffix) cache) f (\<lambda>_. ret ())))" for f
    by (rule keepsI) (rule seeded.install_safe)
  then show ?thesis unfolding writeSeedKernel_staged by (rule keeps_tryE [OF mk])
qed

lemma old_or_good_mono:
  "(\<And>n. good n \<Longrightarrow> good' n) \<Longrightarrow> disk_inv (old_or_good d old good) w \<Longrightarrow> disk_inv (old_or_good d old good') w"
  by (auto simp: disk_inv_def old_or_good_def)

lemma disk_inv_old: "disk_inv (\<lambda>f. f d = old) w \<Longrightarrow> disk_inv (old_or_good d old good) w"
  by (auto simp: disk_inv_def old_or_good_def)

text \<open>From a disk whose cache never changed before.\<close>

lemma seed_entries_safe:
  assumes "proper_file cache" and "disk_inv (\<lambda>f. f cache = old) w"
  shows "disk_inv (old_or_good cache old (seed_kernel es)) (snd (seed_entries cache es e w))"
  using assms(2)
proof (induction es)
  case Nil
  then show ?case by (auto simp: failE_def disk_inv_old split: option.split)
next
  case (Cons en es)
  obtain h b where en: "en = (h, b)" by (cases en)
  show ?case
  proof (cases "seed_entry h")
    case True
    have "disk_inv (old_or_good cache old (whole_body b)) (snd (writeSeedKernel cache b w))"
      using keepsD [OF writeSeedKernel_keeps [OF assms(1)] disk_inv_old [OF Cons.prems]] .
    then show ?thesis
      using True en by (auto elim!: old_or_good_mono [rotated] intro: seed_kernel_here)
  next
    case False
    with Cons en show ?thesis by (auto elim!: old_or_good_mono [rotated] intro: seed_kernel_later)
  qed
qed

lemma seed_entries_ok:
  "seed_entries cache es e w = (Inr u, w') \<Longrightarrow> \<exists>n. fs w' cache = Some n \<and> seed_kernel es n"
proof (induction es)
  case Nil
  then show ?case by (auto simp: failE_eq split: option.splits)
next
  case (Cons en es)
  obtain h b where en: "en = (h, b)" by (cases en)
  show ?case
  proof (cases "seed_entry h")
    case True
    with Cons.prems en have "writeSeedKernel cache b w = (Inr u, w')" by simp
    then obtain v w1 where "tryE (seed_produce cache b) id (\<lambda>_.
       tryE (os_Rename (cache @ partialSuffix) cache) (wrap ''rename seed kernel into place: '') (\<lambda>_. ret ())) w1 = (Inr u, w')"
      unfolding writeSeedKernel_staged by (auto simp: tryE_Inr [of "os_MkdirAll _"])
    then obtain n where "fs w' cache = Some n" "whole_body b n" using seeded.install_ok by blast
    with True en show ?thesis by (auto intro: seed_kernel_here)
  next
    case False
    with Cons en show ?thesis by (auto intro: seed_kernel_later)
  qed
qed

section \<open>Properties\<close>

text \<open>
  C14. Extracting the seed kernel is safe against failures and crashes: at every moment the
  cache holds what it held before or the whole body of a \<^verbatim>\<open>vmlinux\<close> entry of the
  archive, and an extraction that succeeds has put such a body there.
\<close>

theorem seed_extraction_safe:
  assumes "proper_file cache" and "disk_inv (\<lambda>f. f cache = old) w"
    and "extractSeedKernel lib tarball cache w = (r, w')"
  shows "disk_inv (old_or_good cache old (\<lambda>n. \<exists>rd tar. ZstdTar lib rd = Inr tar \<and> seed_kernel (fst tar) n)) w' \<and>
     (is_ok r \<longrightarrow> (\<exists>n rd tar. fs w' cache = Some n \<and> ZstdTar lib rd = Inr tar \<and> seed_kernel (fst tar) n))"
proof -
  let ?good = "\<lambda>n. \<exists>rd tar. ZstdTar lib rd = Inr tar \<and> seed_kernel (fst tar) n"
  obtain q w1 where op: "os_OpenRead tarball w = (q, w1)" by (cases "os_OpenRead tarball w")
  have w1: "disk_inv (\<lambda>f. f cache = old) w1"
    using keepsD [OF keeps_OpenRead assms(2)] op by (metis snd_conv)
  show ?thesis
  proof (cases q)
    case (Inl e)
    with assms(3) op w1 show ?thesis
      by (auto simp: extractSeedKernel_def tryE_def catchE_def failE_def intro: disk_inv_old)
  next
    case (Inr rd)
    show ?thesis
    proof (cases "ZstdTar lib rd")
      case e: (Inl e)
      with assms(3) op w1 Inr show ?thesis
        by (auto simp: extractSeedKernel_def tryE_def catchE_def failE_def intro: disk_inv_old)
    next
      case t: (Inr tar)
      have run: "seed_entries cache (fst tar) (snd tar) w1 = (r, w')"
        using assms(3) op Inr t by (simp add: extractSeedKernel_def tryE_def catchE_def)
      have "disk_inv (old_or_good cache old (seed_kernel (fst tar))) w'"
        using seed_entries_safe [OF assms(1) w1, of "fst tar" "snd tar"] run by simp
      then have "disk_inv (old_or_good cache old ?good) w'"
        using t by (elim old_or_good_mono [rotated]) blast
      moreover have "is_ok r \<Longrightarrow> \<exists>n rd tar. fs w' cache = Some n \<and> ZstdTar lib rd = Inr tar \<and> seed_kernel (fst tar) n"
        using seed_entries_ok run t unfolding is_ok_iff by blast
      ultimately show ?thesis by blast
    qed
  qed
qed

definition seed_lib :: "unit host_deps" where
  "seed_lib = toy_lib\<lparr>ZstdTar := (\<lambda>r. Inr
     ([(\<lparr>Name = ''opt/vmlinux.container'', Typeflag = TypeSymlink, Linkname = ''v'', Mode = 511, Uid = 0, Gid = 0\<rparr>, [], None),
       (\<lparr>Name = ''opt/vmlinux-6.1'', Typeflag = TypeReg, Linkname = [], Mode = 420, Uid = 0, Gid = 0\<rparr>, [''ker'', ''nel''], None)], None))\<rparr>"

lemma seed_extraction_safe_witness:
  "\<exists>n rd tar. fs (snd (extractSeedKernel seed_lib ''t'' ''s/k'' (host_world [''t'' \<mapsto> NFile ''x'' 420, ''s'' \<mapsto> NDir] []))) ''s/k'' = Some n \<and>
     ZstdTar seed_lib rd = Inr tar \<and> seed_kernel (fst tar) n"
proof -
  let ?w = "host_world [''t'' \<mapsto> NFile ''x'' 420, ''s'' \<mapsto> NDir] []"
  let ?run = "extractSeedKernel seed_lib ''t'' ''s/k'' ?w"
  have p: "proper_file ''s/k''" by code_simp
  have d: "disk_inv (\<lambda>f. f ''s/k'' = None) ?w" by (simp add: disk_inv_def host_world_def)
  have r: "?run = (fst ?run, snd ?run)" by simp
  have ok: "is_ok (fst ?run)" by code_simp
  from seed_extraction_safe [OF p d r] ok show ?thesis by blast
qed

lemma fetchSeedKernel_ok:
  assumes "fetchSeedKernel lib env url sha w = (Inr p, w')"
  shows "p = seed_cache env \<and>
     (\<exists>n. fs w' p = Some n \<and> (node_size n > 0 \<or> (\<exists>rd tar. ZstdTar lib rd = Inr tar \<and> seed_kernel (fst tar) n)))"
proof -
  let ?tarball = "cachePath (PathJoin (scratchDir env) ''seed-kernel.tar.zst'') sha"
  obtain q w1 where st: "os_Stat (seed_cache env) w = (q, w1)" by (cases "os_Stat (seed_cache env) w")
  show ?thesis
  proof (cases "\<exists>fi. q = Inr fi \<and> node_size fi > 0")
    case True
    then obtain fi where fi: "q = Inr fi" "node_size fi > 0" by blast
    with assms st have "p = seed_cache env" "w' = w1"
      by (auto simp: fetchSeedKernel_def Let_def catchE_def ret_def)
    moreover have "fs w1 (seed_cache env) = Some fi"
      using st fi(1) by (auto simp: os_Stat_def fs_read_def
          split: prod.splits fault.splits sum.splits option.splits node.splits)
    ultimately show ?thesis using fi(2) by blast
  next
    case False
    have "tryE (fetchFile (fetching lib) url ?tarball sha ''Seed kernel'') id (\<lambda>_.
        tryE (extractSeedKernel lib ?tarball (seed_cache env)) (wrap (''seed kernel from '' @ url @ '': '')) (\<lambda>_.
        ret (seed_cache env))) w1 = (Inr p, w')"
      using assms st False by (cases q) (auto simp: fetchSeedKernel_def Let_def catchE_def split: if_splits)
    then obtain u v where "extractSeedKernel lib ?tarball (seed_cache env) v = (Inr u, w')" and p: "p = seed_cache env"
      unfolding tryE_Inr by (auto simp: ret_eq)
    then obtain rd v1 where "(case ZstdTar lib rd of Inl e \<Rightarrow> failE e
        | Inr tar \<Rightarrow> seed_entries (seed_cache env) (fst tar) (snd tar)) v1 = (Inr u, w')"
      unfolding extractSeedKernel_def tryE_Inr by blast
    then obtain tar where tar: "ZstdTar lib rd = Inr tar"
        and "seed_entries (seed_cache env) (fst tar) (snd tar) v1 = (Inr u, w')"
      by (cases "ZstdTar lib rd") (auto simp: failE_eq)
    from seed_entries_ok [OF this(2)] show ?thesis using p tar by blast
  qed
qed

text \<open>
  The bootstrap kernel that is chosen exists and is plausible: either the previous output,
  of a megabyte at least, or the seed kernel's cache, which is not empty or was just extracted
  whole from the archive.
\<close>

lemma bootstrap_plausible:
  assumes "resolveBootstrap lib env cfg w = (Inr p, w')"
  shows "(p = Out cfg \<and> (\<exists>n. fs w p = Some n \<and> node_size n \<ge> 2 ^ 20)) \<or>
     (p = seed_cache env \<and>
       (\<exists>n. fs w' p = Some n \<and> (node_size n > 0 \<or> (\<exists>rd tar. ZstdTar lib rd = Inr tar \<and> seed_kernel (fst tar) n))))"
proof -
  obtain q w1 where st: "os_Stat (Out cfg) w = (q, w1)" by (cases "os_Stat (Out cfg) w")
  show ?thesis
  proof (cases "\<exists>fi. q = Inr fi \<and> int (node_size fi) \<ge> minKernelBytes")
    case True
    then obtain fi where fi: "q = Inr fi" "int (node_size fi) \<ge> minKernelBytes" by blast
    with assms st have "p = Out cfg"
      by (auto simp: resolveBootstrap_def Let_def catchE_def ret_def)
    moreover have "fs w (Out cfg) = Some fi"
      using st fi(1) by (auto simp: os_Stat_def fs_read_def
          split: prod.splits fault.splits sum.splits option.splits node.splits dest!: next_fault_fs)
    ultimately show ?thesis using fi(2) by (auto simp: minKernelBytes_def)
  next
    case False
    then have "fetchSeedKernel lib env (KataURL cfg) (KataSHA cfg) w1 = (Inr p, w')"
      using assms st by (cases q) (auto simp: resolveBootstrap_def Let_def catchE_def split: if_splits)
    from fetchSeedKernel_ok [OF this] show ?thesis by blast
  qed
qed

lemma bootstrap_plausible_example:
  "\<exists>n. fs (host_world [''s/kernel-scratch/bootstrap-kernel-arm64'' \<mapsto> NFile ''k'' 420] []) ''s/kernel-scratch/bootstrap-kernel-arm64'' = Some n
     \<and> node_size n > 0 \<and>
   fst (resolveBootstrap seed_lib ''s'' (old_pin\<lparr>Out := ''o''\<rparr>)
     (host_world [''s/kernel-scratch/bootstrap-kernel-arm64'' \<mapsto> NFile ''k'' 420] [])) = Inr ''s/kernel-scratch/bootstrap-kernel-arm64''"
proof -
  let ?w = "host_world [''s/kernel-scratch/bootstrap-kernel-arm64'' \<mapsto> NFile ''k'' 420] []"
  let ?run = "resolveBootstrap seed_lib ''s'' (old_pin\<lparr>Out := ''o''\<rparr>) ?w"
  have f: "fst ?run = Inr ''s/kernel-scratch/bootstrap-kernel-arm64''" by code_simp
  then have r: "?run = (Inr ''s/kernel-scratch/bootstrap-kernel-arm64'', snd ?run)"
    unfolding prod_eq_iff by (simp only: fst_conv snd_conv simp_thms)
  have "Out (old_pin\<lparr>Out := ''o''\<rparr>) = ''o''" by simp
  with bootstrap_plausible [OF r] f show ?thesis by (auto simp: host_world_def node_size_def)
qed

text \<open>
  The seed kernel's cache is not keyed by its pin: once it holds something, a run with any
  other URL and checksum takes it as it is and asks the network for nothing.
\<close>

lemma seed_cache_ignores_pin:
  assumes "fs w (seed_cache env) = Some (NFile b m)" and "b \<noteq> []" and "faults w = []"
  shows "fetchSeedKernel lib env url wantSHA w = (Inr (seed_cache env), w)"
  using assms
  by (simp add: fetchSeedKernel_def Let_def catchE_def os_Stat_def fs_read_def next_fault_def node_size_def ret_def)

end
