(* ===== verification/Host_Rootfs.thy ===== *)
theory Host_Rootfs
  imports Host_Config
begin

text \<open>
  \<^verbatim>\<open>cmd/ossein-kernel/main.go\<close>, the root disk: its cache key, the reuse check and the
  staged rebuild. The frame conditions on the registry client and the ext4 library say that
  they write no path but the image they are given.
\<close>

section \<open>The cached root disk\<close>

definition rootfsSizeBytes :: int where "rootfsSizeBytes = 2 * 2 ^ 30"

definition rootfsCacheKey :: "fetch_deps \<Rightarrow> config \<Rightarrow> (string, 'z) io" where
  "rootfsCacheKey d cfg =
     tryE (os_OpenRead (InitBin cfg)) (wrap (''open init '' @ InitBin cfg @ '': '')) (\<lambda>handle.
     case snd handle of
       Some e \<Rightarrow> failE (wrap (''hash init '' @ InitBin cfg @ '': '') e)
     | None \<Rightarrow> ret (Image cfg @ ''@init:'' @ sha256_hex d (concat (fst handle))))"

definition root_image :: "string \<Rightarrow> string" where
  "root_image env = PathJoin (scratchDir env) ''debian-rootfs.ext4''"

definition root_stamp :: "string \<Rightarrow> string" where
  "root_stamp env = PathJoin (scratchDir env) ''.debian-rootfs-ref''"

definition rebuild_rootfs ::
    "('z host_scheme, 'h, 'i, 'b) deps \<Rightarrow> 'z host_deps \<Rightarrow> string \<Rightarrow> config \<Rightarrow> string \<Rightarrow> (string, 'z) hio" where
  "rebuild_rootfs d lib env cfg key =
     tryE (os_MkdirAll (scratchDir env)) (wrap ''create scratch dir: '') (\<lambda>_.
     let partial = root_image env @ partialSuffix
     in tryE (Build d (Image cfg) (InitBin cfg) partial rootfsSizeBytes) (wrap ''build rootfs: '') (\<lambda>_.
        tryE (os_Rename partial (root_image env)) (wrap ''rename root disk into place: '') (\<lambda>_.
        tryE (WriteFile lib (root_stamp env) key) id (\<lambda>_.
        ret (root_image env)))))"

definition prepareRootfs ::
    "('z host_scheme, 'h, 'i, 'b) deps \<Rightarrow> 'z host_deps \<Rightarrow> string \<Rightarrow> config \<Rightarrow> (string, 'z) hio" where
  "prepareRootfs d lib env cfg =
     tryE (rootfsCacheKey (fetching lib) cfg) id (\<lambda>key.
     catchE (os_ReadFile (root_stamp env)) (\<lambda>_. rebuild_rootfs d lib env cfg key) (\<lambda>prev.
     if TrimSpace prev = key
     then catchE (os_Stat (root_image env)) (\<lambda>_. rebuild_rootfs d lib env cfg key) (\<lambda>fi.
            if node_size fi > 0 then ret (root_image env) else rebuild_rootfs d lib env cfg key)
     else rebuild_rootfs d lib env cfg key))"

section \<open>The build writes its image only\<close>

definition efs_frame :: "string \<Rightarrow> ('z world_scheme, 'h) ext4 \<Rightarrow> bool" where
  "efs_frame out efs \<longleftrightarrow>
     (\<forall>R. blind R out \<longrightarrow>
        (\<forall>p. keeps (disk_inv R) (efs_Mkdir efs p)) \<and> (\<forall>t p. keeps (disk_inv R) (efs_Symlink efs t p)) \<and>
        (\<forall>p. keeps (disk_inv R) (efs_OpenFile efs p)) \<and> (\<forall>h b. keeps (disk_inv R) (efs_Write efs h b)) \<and>
        (\<forall>h. keeps (disk_inv R) (efs_Close efs h)) \<and> (\<forall>p m. keeps (disk_inv R) (efs_Chmod efs p m)) \<and>
        (\<forall>p u g. keeps (disk_inv R) (efs_Chown efs p u g)))"

definition deps_frame :: "string \<Rightarrow> ('z world_scheme, 'h, 'i, 'b) deps \<Rightarrow> bool" where
  "deps_frame out d \<longleftrightarrow>
     (\<forall>R. blind R out \<longrightarrow>
        (\<forall>r. keeps (disk_inv R) (Pull d guest_platform r)) \<and> (\<forall>n. keeps (disk_inv R) (CreateFromPath d out n)) \<and>
        (\<forall>b n. keeps (disk_inv R) (Ext4Create d disk_params b n)) \<and> (\<forall>b. keeps (disk_inv R) (BackClose d b))) \<and>
     (\<forall>b n w efs w'. Ext4Create d disk_params b n w = (Inr efs, w') \<longrightarrow> efs_frame out efs)"

lemma keeps_efs_Copy:
  "efs_frame out efs \<Longrightarrow> blind R out \<Longrightarrow> keeps (disk_inv R) (efs_Copy efs h cs e)"
  by (induction cs) (auto simp: efs_frame_def intro!: keeps_intro split: option.split)

lemma keeps_writeReg:
  "efs_frame out efs \<Longrightarrow> blind R out \<Longrightarrow> keeps (disk_inv R) (writeReg efs p src)"
  unfolding writeReg_def
  by (intro keeps_intro keeps_efs_Copy) (auto simp: efs_frame_def)

lemma keeps_applyMeta: "efs_frame out efs \<Longrightarrow> blind R out \<Longrightarrow> keeps (disk_inv R) (applyMeta efs p h)"
  unfolding applyMeta_def by (intro keeps_intro) (auto simp: efs_frame_def)

lemma keeps_mkParent: "efs_frame out efs \<Longrightarrow> blind R out \<Longrightarrow> keeps (disk_inv R) (mkParent efs p)"
  unfolding mkParent_def Let_def by (intro keeps_intro) (auto simp: efs_frame_def)

lemma keeps_writeEntry:
  assumes "efs_frame out efs" and "blind R out"
  shows "keeps (disk_inv R) (writeEntry efs p en)"
proof -
  have "keeps (disk_inv R) (efs_Mkdir efs p)" "keeps (disk_inv R) (efs_Symlink efs t p)" for t
    using assms by (auto simp: efs_frame_def)
  note ops = this keeps_writeReg [OF assms] keeps_applyMeta [OF assms] keeps_mkParent [OF assms]
  obtain h b where en: "en = (h, b)" by (cases en)
  show ?thesis
    unfolding writeEntry_def en Let_def
    by (cases "Typeflag h") (auto intro!: keeps_intro ops)
qed

lemma keeps_unpack:
  assumes "efs_frame out efs" and "blind R out"
  shows "keeps (disk_inv R) (unpackTar efs src)"
proof -
  have "keeps (disk_inv R) (unpackEntries efs es e)" for es e
    by (induction es) (auto simp: Let_def intro!: keeps_intro keeps_writeEntry [OF assms] split: option.split)
  then show ?thesis by (simp add: unpackTar_def)
qed

lemma keeps_Build:
  assumes "deps_frame out d" and "blind R out"
  shows "keeps (disk_inv R) (Build d ref initBin out n)"
proof -
  have ops: "keeps (disk_inv R) (Pull d guest_platform r)" "keeps (disk_inv R) (CreateFromPath d out k)"
      "keeps (disk_inv R) (Ext4Create d disk_params b k)" "keeps (disk_inv R) (BackClose d b)" for r b k
    using assms by (auto simp: deps_frame_def)
  have rm: "keeps (disk_inv R) (os_Remove out)" using assms(2) by (rule keeps_Remove)
  have cl: "keeps (disk_inv R) (cleanup d b out c)" for b c
    unfolding cleanup_def by (intro keeps_intro ops rm)
  have em: "keeps (disk_inv R) (embedInit efs i)" if "efs_frame out efs" for efs i
    unfolding embedInit_def Let_def
    by (intro keeps_intro keeps_writeReg [OF that assms(2)]) (use that assms(2) in \<open>auto simp: efs_frame_def\<close>)
  have fin: "keeps (disk_inv R) (catchE (BackClose d b)
            (\<lambda>e. ignoreE (os_Remove out) (failE (wrap ''flush image: '' e))) (\<lambda>_. ret ()))" for b
    by (intro keeps_intro ops rm)
  have body: "keeps (disk_inv R) (catchE (unpackTar efs (MutateExtract d img)) (cleanup d b out) (\<lambda>_.
          catchE (efs_Mkdir efs ''ram'') (\<lambda>e. cleanup d b out (wrap ''mkdir /ram: '' e)) (\<lambda>_.
          catchE (embedInit efs initBin) (cleanup d b out) (\<lambda>_.
          catchE (BackClose d b)
            (\<lambda>e. ignoreE (os_Remove out) (failE (wrap ''flush image: '' e)))
            (\<lambda>_. ret ())))))" if "efs_frame out efs" for efs b img
  proof -
    have mk: "keeps (disk_inv R) (efs_Mkdir efs ''ram'')" using that assms(2) by (auto simp: efs_frame_def)
    show ?thesis
      by (intro keeps_catchE keeps_unpack [OF that assms(2)] em [OF that] cl fin mk)
  qed
  have ef: "Ext4Create d disk_params b k w = (Inr efs, w') \<Longrightarrow> efs_frame out efs" for b k w efs w'
    using assms(1) unfolding deps_frame_def by blast
  show ?thesis
  proof (cases "NewDigest d ref")
    case (Inl e)
    then show ?thesis by (simp add: Build_def keeps_failE)
  next
    case (Inr u)
    show ?thesis
      unfolding Build_def Inr sum.case
      by (intro keeps_tryE keeps_ignoreE ops rm keeps_catchE_returned [OF ops(3)] cl body) (erule ef)
  qed
qed

section \<open>The rebuild is a staged write\<close>

text \<open>
  What counts as a good root disk for a setting: what a build that reported success left in
  the partial file. \<open>leaves_image\<close> says that such a build has left one.
\<close>

definition built_image :: "('z host_scheme, 'h, 'i, 'b) deps \<Rightarrow> string \<Rightarrow> config \<Rightarrow> node \<Rightarrow> bool" where
  "built_image d partial cfg n \<longleftrightarrow>
     (\<exists>w u w'. Build d (Image cfg) (InitBin cfg) partial rootfsSizeBytes w = (Inr u, w') \<and> fs w' partial = Some n)"

definition leaves_image :: "('z host_scheme, 'h, 'i, 'b) deps \<Rightarrow> string \<Rightarrow> bool" where
  "leaves_image d partial \<longleftrightarrow>
     (\<forall>ref i n w u w'. Build d ref i partial n w = (Inr u, w') \<longrightarrow> fs w' partial \<noteq> None)"

definition rootfs_produce ::
    "('z host_scheme, 'h, 'i, 'b) deps \<Rightarrow> string \<Rightarrow> config \<Rightarrow> (unit, 'z) hio" where
  "rootfs_produce d partial cfg =
     tryE (Build d (Image cfg) (InitBin cfg) partial rootfsSizeBytes) (wrap ''build rootfs: '') ret"

lemma rootfs_staged:
  assumes "deps_frame (dest @ partialSuffix) d" and "leaves_image d (dest @ partialSuffix)"
  shows "staged (rootfs_produce d (dest @ partialSuffix) cfg) (dest @ partialSuffix) dest
           (built_image d (dest @ partialSuffix) cfg)"
proof unfold_locales
  show "dest @ partialSuffix \<noteq> dest" by simp
  show "keeps (disk_inv R) (rootfs_produce d (dest @ partialSuffix) cfg)"
    if "blind R (dest @ partialSuffix)" for R
    unfolding rootfs_produce_def by (intro keeps_tryE keeps_Build [OF assms(1) that] keeps_ret)
  fix w x w'
  assume "rootfs_produce d (dest @ partialSuffix) cfg w = (Inr x, w')"
  then have b: "Build d (Image cfg) (InitBin cfg) (dest @ partialSuffix) rootfsSizeBytes w = (Inr x, w')"
    by (auto simp: rootfs_produce_def tryE_Inr ret_eq)
  then have "fs w' (dest @ partialSuffix) \<noteq> None" using assms(2) unfolding leaves_image_def by blast
  with b show "\<exists>n. fs w' (dest @ partialSuffix) = Some n \<and> built_image d (dest @ partialSuffix) cfg n"
    unfolding built_image_def by blast
qed

lemma rebuild_staged:
  "rebuild_rootfs d lib env cfg key =
     tryE (os_MkdirAll (scratchDir env)) (wrap ''create scratch dir: '') (\<lambda>_.
     tryE (tryE (rootfs_produce d (root_image env @ partialSuffix) cfg) id (\<lambda>_.
           tryE (os_Rename (root_image env @ partialSuffix) (root_image env))
             (wrap ''rename root disk into place: '') (\<lambda>_. ret ()))) id (\<lambda>_.
     tryE (WriteFile lib (root_stamp env) key) id (\<lambda>_. ret (root_image env))))"
  unfolding rebuild_rootfs_def rootfs_produce_def Let_def tryE_assoc ret_tryE by (rule refl)

text \<open>What the rebuild may not touch: the image is no directory it creates and no stamp.\<close>

definition rootfs_paths_ok :: "(string \<Rightarrow> string set) \<Rightarrow> string \<Rightarrow> bool" where
  "rootfs_paths_ok temps env \<longleftrightarrow>
     root_image env \<notin> set (ancestors (scratchDir env)) \<and> root_stamp env \<noteq> root_image env \<and>
     root_image env \<notin> temps (root_stamp env)"

lemma keeps_rebuild:
  assumes "deps_frame (root_image env @ partialSuffix) d" and "leaves_image d (root_image env @ partialSuffix)"
    and "writes_files lib temps" and "rootfs_paths_ok temps env"
  shows "keeps (disk_inv (old_or_good (root_image env) old (built_image d (root_image env @ partialSuffix) cfg)))
           (rebuild_rootfs d lib env cfg key)"
proof -
  let ?R = "old_or_good (root_image env) old (built_image d (root_image env @ partialSuffix) cfg)"
  have mk: "keeps (disk_inv ?R) (os_MkdirAll (scratchDir env))"
    using assms(4) by (intro keeps_MkdirAll blind_old_or_good) (auto simp: rootfs_paths_ok_def)
  have inst: "keeps (disk_inv ?R) (tryE (rootfs_produce d (root_image env @ partialSuffix) cfg) id (\<lambda>_.
      tryE (os_Rename (root_image env @ partialSuffix) (root_image env)) f (\<lambda>_. ret ())))" for f
    by (rule keepsI) (rule staged.install_safe [OF rootfs_staged [OF assms(1,2)]])
  have wr: "keeps (disk_inv ?R) (WriteFile lib (root_stamp env) key)"
    using assms(4) by (intro keeps_WriteFile_lib [OF assms(3)] blind_old_or_good) (auto simp: rootfs_paths_ok_def)
  show ?thesis unfolding rebuild_staged by (intro keeps_tryE mk inst wr keeps_ret)
qed

section \<open>Properties\<close>

text \<open>
  C3. The root disk is never half written: at every moment of the run, whatever fails and
  whenever it is killed, the image's path holds what it held before or what a build that
  reported success produced for this image and init.
\<close>

theorem rootfs_never_partial:
  assumes "deps_frame (root_image env @ partialSuffix) d" and "leaves_image d (root_image env @ partialSuffix)"
    and "writes_files lib temps" and "rootfs_paths_ok temps env"
    and "disk_inv (\<lambda>f. f (root_image env) = old) w"
  shows "disk_inv (old_or_good (root_image env) old (built_image d (root_image env @ partialSuffix) cfg))
           (snd (prepareRootfs d lib env cfg w))"
proof -
  let ?R = "old_or_good (root_image env) old (built_image d (root_image env @ partialSuffix) cfg)"
  have key: "keeps (disk_inv ?R) (rootfsCacheKey (fetching lib) cfg)"
    unfolding rootfsCacheKey_def by (intro keeps_intro) (auto intro: keeps_intro split: option.split)
  have "keeps (disk_inv ?R) (prepareRootfs d lib env cfg)"
    unfolding prepareRootfs_def
    by (intro keeps_tryE keeps_catchE keeps_if keeps_ret keeps_ReadFile keeps_Stat key keeps_rebuild [OF assms(1-4)])
  moreover have "disk_inv ?R w" using assms(5) by (auto simp: disk_inv_def old_or_good_def)
  ultimately show ?thesis by (rule keepsD)
qed

lemma toy_ext4_frame: "efs_frame out (toy_ext4 out)"
  by (auto simp: efs_frame_def toy_ext4_def intro: keeps_intro)

lemma toy_deps_frame: "deps_frame out (toy_deps out)"
  unfolding deps_frame_def
  by (auto simp: toy_deps_def ret_eq toy_ext4_frame intro!: keeps_intro)

lemma toy_deps_leaves: "leaves_image (toy_deps out) out"
proof -
  have "fs w' out \<noteq> None" if "Build (toy_deps out) ref i out n w = (Inr u, w')" for ref i n w u w'
  proof -
    from Build_ok [OF that] obtain b v where "BackClose (toy_deps out) b v = (Inr (), w')" by blast
    then obtain x v1 where "os_Stat out v = (Inr x, v1)" "w' = v1"
      by (auto simp: toy_deps_def tryE_Inr ret_eq)
    then show ?thesis
      by (auto simp: os_Stat_def fs_read_def split: prod.splits fault.splits sum.splits option.splits)
  qed
  then show ?thesis unfolding leaves_image_def by (intro allI impI)
qed

definition disk_deps :: "(host, unit, string, unit) deps" where
  "disk_deps = toy_deps (root_image ''s'' @ partialSuffix)"

lemma rootfs_never_partial_witness:
  "old_or_good (root_image ''s'') None (built_image disk_deps (root_image ''s'' @ partialSuffix) old_pin)
     (fs (snd (prepareRootfs disk_deps toy_lib ''s'' old_pin (host_world Map.empty []))))"
proof -
  have p: "rootfs_paths_ok (\<lambda>_. {}) ''s''" by code_simp
  have d: "disk_inv (\<lambda>f. f (root_image ''s'') = None) (host_world Map.empty [])"
    by (simp add: disk_inv_def host_world_def)
  have "deps_frame (root_image ''s'' @ partialSuffix) disk_deps" "leaves_image disk_deps (root_image ''s'' @ partialSuffix)"
    unfolding disk_deps_def by (rule toy_deps_frame, rule toy_deps_leaves)
  from rootfs_never_partial [where cfg = old_pin, OF this toy_lib_writes p d]
  show ?thesis by (rule disk_inv_now)
qed

definition image_a :: config where "image_a = old_pin\<lparr>Image := ''a@sha256:1'', InitBin := ''init''\<rparr>"
definition image_b :: config where "image_b = old_pin\<lparr>Image := ''b@sha256:2'', InitBin := ''init''\<rparr>"

definition disk_a :: host where
  "disk_a = host_world [''init'' \<mapsto> NFile ''I'' 493, ''s/kernel-scratch'' \<mapsto> NDir,
     ''s/kernel-scratch/debian-rootfs.ext4'' \<mapsto> NFile ''a@sha256:1I'' 420,
     ''s/kernel-scratch/.debian-rootfs-ref'' \<mapsto> NFile ''a@sha256:1@init:I'' 384] []"

definition no_stamp_lib :: "unit host_deps" where
  "no_stamp_lib = toy_lib\<lparr>WriteFile := (\<lambda>p data. failE (Errno ENOSPC))\<rparr>"

text \<open>
  The image is installed before the stamp that names it: when writing the stamp fails (or
  the process is killed there), the disk built for the new image stands under the old stamp,
  and a later run for the old image accepts it as its own.
\<close>

lemma rootfs_stale_stamp_accepted:
  "(let d = disk_deps;
        (r, w) = prepareRootfs d no_stamp_lib ''s'' image_b disk_a
    in r = Inl (Errno ENOSPC) \<and>
       (case fs w ''s/kernel-scratch/debian-rootfs.ext4'' of
          Some (NFile b m) \<Rightarrow> b = ''b@sha256:2I'' | _ \<Rightarrow> False) \<and>
       fst (prepareRootfs d toy_lib ''s'' image_a w) = Inr ''s/kernel-scratch/debian-rootfs.ext4'')"
  by code_simp

end
