(* ===== verification/Host_Run.thy ===== *)
theory Host_Run
  imports Host_Boot Host_Llvm Host_Seed Host_Rootfs
begin

text \<open>
  \<^verbatim>\<open>cmd/ossein-kernel/main.go\<close>, the whole run: the checks of the inputs, the
  bootstrap kernel, the root disk, the staged share, the two downloads, the build and the
  promotion, in the order the code has them. The command line parser, the signal handler
  behind the context and the logging are not modelled.
\<close>

section \<open>Log levels\<close>

datatype level = LevelDebug | LevelInfo | LevelWarn | LevelError

fun level_value :: "level \<Rightarrow> int" where
  "level_value LevelDebug = - 4"
| "level_value LevelInfo = 0"
| "level_value LevelWarn = 4"
| "level_value LevelError = 8"

instantiation level :: linorder
begin

definition less_eq_level :: "level \<Rightarrow> level \<Rightarrow> bool" where
  "less_eq_level a b \<longleftrightarrow> level_value a \<le> level_value b"

definition less_level :: "level \<Rightarrow> level \<Rightarrow> bool" where
  "less_level a b \<longleftrightarrow> level_value a < level_value b"

instance
proof
  fix x y z :: level
  show "x \<le> y \<Longrightarrow> y \<le> x \<Longrightarrow> x = y"
    by (cases x; cases y) (auto simp: less_eq_level_def)
qed (auto simp: less_eq_level_def less_level_def)

end

definition parseLevel :: "string \<Rightarrow> level" where
  "parseLevel s =
     (if s = ''debug'' then LevelDebug else if s = ''warn'' then LevelWarn
      else if s = ''error'' then LevelError else LevelInfo)"

section \<open>The run\<close>

text \<open>\<^verbatim>\<open>filepath.Abs\<close>\<close>

definition PathAbs :: "string result \<Rightarrow> string \<Rightarrow> string result" where
  "PathAbs wd p =
     (if IsAbs p then Inr (Clean p)
      else case wd of Inl e \<Rightarrow> Inl e | Inr d \<Rightarrow> Inr (PathJoin d p))"

definition run_inputs :: "config \<Rightarrow> (string \<times> string) list" where
  "run_inputs cfg =
     [(''guest init binary'', InitBin cfg), (''kernel config'', KernelConfig cfg),
      (''kernel patches dir'', KernelPatches cfg)]"

definition check_inputs :: "config \<Rightarrow> (unit, 'z) io" where
  "check_inputs cfg =
     forE (run_inputs cfg) (\<lambda>(what, path).
       tryE (os_Stat path) (wrap (what @ '' not found at '' @ quoted path @ '': '')) (\<lambda>_. ret ()))"

definition run_steps ::
    "('z host_scheme, 'h, 'i, 'b) deps \<Rightarrow> 'z vm_deps \<Rightarrow> 'z host_deps \<Rightarrow> string \<Rightarrow> config \<Rightarrow> (unit, 'z) hio" where
  "run_steps rd vd lib env cfg =
     tryE (check_inputs cfg) id (\<lambda>_.
     tryE (resolveBootstrap lib env cfg) id (\<lambda>bootstrap.
     tryE (prepareRootfs rd lib env cfg) id (\<lambda>rootImage.
     let workdir = PathJoin (scratchDir env) ''kernel''
     in tryE (stageWorkdir lib cfg workdir) id (\<lambda>_.
        let source = sourceTarball workdir cfg
        in tryE (fetchFile (fetching lib) (SourceURL cfg) source (SourceSHA cfg) ''kernel source'') id (\<lambda>_.
           tryE (prepareLLVM lib env cfg) id (\<lambda>llvmDir.
           tryE (buildKernel vd bootstrap rootImage workdir llvmDir) (wrap ''kernel build: '') (\<lambda>_.
           promote vd lib env cfg workdir rootImage)))))))"

definition run ::
    "('z host_scheme, 'h, 'i, 'b) deps \<Rightarrow> 'z vm_deps \<Rightarrow> 'z host_deps \<Rightarrow> string \<Rightarrow> config \<Rightarrow> (unit, 'z) hio" where
  "run rd vd lib env cfg =
     (case PathAbs (Getwd lib) (Out cfg) of
        Inl e \<Rightarrow> failE (wrap (''--out '' @ quoted (Out cfg) @ '': '') e)
      | Inr out \<Rightarrow>
          (case pathcheck_Validate lib out of
             Inl e \<Rightarrow> failE (wrap ''--out: '' e)
           | Inr _ \<Rightarrow> run_steps rd vd lib env (cfg\<lparr>Out := out\<rparr>)))"

text \<open>The default of \<^verbatim>\<open>--out\<close>, which \<^verbatim>\<open>main\<close> gives the parser.\<close>

definition default_Out :: "string \<Rightarrow> string" where
  "default_Out env = buildDir env @ ''/kernel-arm64''"

text \<open>
  \<^verbatim>\<open>main\<close>: the exit status. The settings are what the command line parser leaves
  in the configuration.
\<close>

definition host_main ::
    "('z host_scheme, 'h, 'i, 'b) deps \<Rightarrow> 'z vm_deps \<Rightarrow> 'z host_deps \<Rightarrow> string \<Rightarrow> config \<Rightarrow> 'z host_scheme \<Rightarrow> int \<times> 'z host_scheme" where
  "host_main rd vd lib env cli w =
     (case run rd vd lib env cli w of (Inl _, w) \<Rightarrow> (1, w) | (Inr _, w) \<Rightarrow> (0, w))"

end
