(* ===== verification/Run_Safety.thy ===== *)
theory Run_Safety
  imports Host_Run Boot_Safety Fetch_Safety
begin

text \<open>
  What a whole run guarantees: its inputs are checked before anything happens, everything it
  writes lies in the scratch directory until a new kernel has booted, and a run that succeeds
  has installed the kernel that booted.
\<close>

section \<open>The scratch directory\<close>

text \<open>A directory of the scratch area, as the program writes it.\<close>

definition scratch_sub :: "string \<Rightarrow> string \<Rightarrow> bool" where
  "scratch_sub env D \<longleftrightarrow> named_dir D \<and> Clean D = D \<and> below (scratchDir env) D"

lemma name_words [simp]:
  "name_ok ''kernel-scratch''" "name_ok ''smoke''" "name_ok ''llvm''" "name_ok ''kernel''" "name_ok ''patches''"
  "name_ok ''build.sh''" "name_ok ''kernel-fragment''" "name_ok ''build.env''" "name_ok statusFile" "name_ok buildLogFile"
  "name_ok ''debian-rootfs.ext4''" "name_ok ''.debian-rootfs-ref''" "name_ok ''bootstrap-kernel-arm64''"
  "name_ok ''.ossein-llvm-sha''" "name_ok ''kernel-arm64''" "name_ok ''perf-arm64''"
  by (simp_all add: name_ok_def elem_ok_def dot_def dotdot_def statusFile_def buildLogFile_def)

lemma PathJoin_dir:
  assumes "name_ok n"
  shows "named_dir (PathJoin d n)" and "Clean (PathJoin d n) = PathJoin d n"
proof -
  show "named_dir (PathJoin d n)"
    unfolding named_dir_def using parse_PathJoin_name [OF assms] assms by (simp add: name_ok_def)
  show "Clean (PathJoin d n) = PathJoin d n"
    using PathJoin_name [OF assms] Clean_fix_iff by blast
qed

lemma below_trans: "below a b \<Longrightarrow> below b c \<Longrightarrow> below a c"
  by (auto simp: below_def HasPrefix_iff)

lemma scratch_sub_self: "scratch_sub env (scratchDir env)"
  unfolding scratch_sub_def scratchDir_def using PathJoin_dir [OF name_words(1)] by (simp add: below_def)

lemma scratch_sub_join: "scratch_sub env D \<Longrightarrow> name_ok n \<Longrightarrow> scratch_sub env (PathJoin D n)"
  unfolding scratch_sub_def using PathJoin_dir patch_below below_trans by blast

text \<open>What a run may write before the promotion.\<close>

definition run_area :: "string \<Rightarrow> (string \<Rightarrow> string set) \<Rightarrow> string \<Rightarrow> bool" where
  "run_area env temps p \<longleftrightarrow>
     below (scratchDir env) p \<or> p \<in> set (ancestors (scratchDir env)) \<or>
     (\<exists>q. below (scratchDir env) q \<and> p \<in> temps q)"

text \<open>
  The default output is none of the run's own paths: it lies next to the scratch directory.
\<close>

lemma default_output_apart:
  assumes "IsAbs (buildDir env)" and "PathAbs wd (default_Out env) = Inr out"
  shows "\<not> run_area env (\<lambda>_. {}) out"
proof -
  have ne: "buildDir env \<noteq> []" by (simp add: buildDir_def)
  have "IsAbs (default_Out env)"
    using assms(1) by (cases "buildDir env") (simp_all add: default_Out_def IsAbs_def)
  then have "out = Clean (buildDir env @ ''/'' @ ''kernel-arm64'')"
    using assms(2) by (simp add: PathAbs_def default_Out_def)
  then have out: "out = PathJoin (buildDir env) ''kernel-arm64''" using ne by (simp add: PathJoin_def)
  from PathJoin_common [of "buildDir env"] name_words obtain x
    where x: "out = x @ ''kernel-arm64''" "scratchDir env = x @ ''kernel-scratch''"
    unfolding out scratchDir_def by blast
  show ?thesis unfolding run_area_def x by (auto simp: below_def ancestors_iff HasPrefix_def)
qed

lemma ancestors_below_scratch:
  assumes "below S p" and "a \<in> set (ancestors p)"
  shows "a \<in> set (ancestors S) \<or> below S a"
proof (cases "a = p")
  case False
  then obtain s where a: "a \<noteq> []" "p = a @ ''/'' @ s" using assms(2) by (auto simp: ancestors_iff)
  show ?thesis
  proof (cases "p = S")
    case True
    with a show ?thesis by (auto simp: ancestors_iff)
  next
    case False
    then obtain t where p: "p = S @ ''/'' @ t" using assms(1) by (auto simp: below_def HasPrefix_iff)
    with a consider u where "S = a @ u" "u @ ''/'' @ t = ''/'' @ s" | u where "a = S @ u" "''/'' @ t = u @ ''/'' @ s"
      by (auto simp: append_eq_append_conv2)
    then show ?thesis
    proof cases
      case 1
      with a(1) show ?thesis by (cases u) (auto simp: ancestors_iff)
    next
      case 2
      then show ?thesis by (cases u) (auto simp: below_def HasPrefix_iff)
    qed
  qed
qed (use assms in blast)

lemma run_area_below: "below (scratchDir env) p \<Longrightarrow> run_area env temps p"
  by (simp add: run_area_def)

lemma run_area_join: "scratch_sub env D \<Longrightarrow> name_ok n \<Longrightarrow> run_area env temps (PathJoin D n)"
  using scratch_sub_join run_area_below unfolding scratch_sub_def by blast

lemma run_area_temps: "scratch_sub env D \<Longrightarrow> name_ok n \<Longrightarrow> q \<in> temps (PathJoin D n) \<Longrightarrow> run_area env temps q"
  using scratch_sub_join unfolding scratch_sub_def run_area_def by blast

lemma run_area_ancestors: "scratch_sub env D \<Longrightarrow> a \<in> set (ancestors D) \<Longrightarrow> run_area env temps a"
  using ancestors_below_scratch unfolding scratch_sub_def run_area_def by blast

lemma run_area_part: "scratch_sub env D \<Longrightarrow> name_ok n \<Longrightarrow> run_area env temps (PathJoin D n @ x)"
proof -
  assume "scratch_sub env D" "name_ok n"
  then have "PathJoin D n @ x = D @ ''/'' @ n @ x" "below (scratchDir env) D"
    using PathJoin_below(1) by (auto simp: scratch_sub_def)
  then show ?thesis
    by (intro run_area_below) (auto simp: below_def HasPrefix_iff)
qed

text \<open>The cached downloads lie there too.\<close>

lemma PathJoin_slash: "D \<noteq> [] \<Longrightarrow> name_ok n \<Longrightarrow> PathJoin (D @ ''/'') n = PathJoin D n"
  using PathJoin_name(1) [of n "D @ ''/''"] PathJoin_name(1) [of n D] parse_path_slash by (simp add: dir_elems_def)

lemma cache_in_scratch:
  assumes "scratch_sub env D" and "CHR ''/'' \<notin> set sha"
    and "stem \<noteq> []" and "CHR ''/'' \<notin> set stem" and "CHR ''.'' \<notin> set stem" and "CHR ''/'' \<notin> set ext"
  shows "\<exists>n. name_ok n \<and> cachePath (PathJoin D (stem @ ''.'' @ ext)) sha = PathJoin D n"
proof (cases "length sha < cacheKeyLen")
  case True
  have "name_ok (stem @ ''.'' @ ext)"
    using assms by (cases stem) (auto simp: name_ok_def elem_ok_def dot_def dotdot_def)
  with True show ?thesis by (auto simp: cachePath_def)
next
  case False
  have D: "D \<noteq> []" "named_dir D" "Clean D = D" using assms(1) by (auto simp: scratch_sub_def named_dir_def parse_path_def)
  have n: "name_ok (stem @ ''.'' @ ext)"
    using assms by (cases stem) (auto simp: name_ok_def elem_ok_def dot_def dotdot_def)
  have ok: "name_ok (stem @ ''-'' @ take cacheKeyLen sha @ ''.'' @ ext)"
    using assms(2,3,4,6)
    by (cases stem; cases "tl stem") (auto simp: name_ok_def elem_ok_def dot_def dotdot_def dest: in_set_takeD)
  have "CHR ''/'' \<notin> set (stem @ ''.'' @ ext)" using assms(4,6) by simp
  from PathSplit_slash [OF this, of D] have "fst (PathSplit (PathJoin D (stem @ ''.'' @ ext))) = D @ ''/''"
    unfolding PathJoin_below(1) [OF D(2,3) n] by simp
  with False ok show ?thesis
    using cachePath_name [of sha stem ext D] assms(3-6) PathJoin_slash [OF D(1) ok]
    by (intro exI [of _ "stem @ ''-'' @ take cacheKeyLen sha @ ''.'' @ ext"]) simp
qed

section \<open>A path outside the scratch directory keeps its contents\<close>

abbreviation held :: "string \<Rightarrow> node option \<Rightarrow> 'z world_scheme \<Rightarrow> bool" where
  "held q n \<equiv> disk_inv (\<lambda>f. f q = n)"

lemma blind_held: "p \<noteq> q \<Longrightarrow> blind (\<lambda>f. f q = n) p"
  by (simp add: blind_def)

lemma keeps_RemoveAll_held: "\<not> below d q \<Longrightarrow> keeps (held q n) (os_RemoveAll d)"
  unfolding os_RemoveAll_def by (intro keeps_fs_call) auto

text \<open>The setting of the lemmas: a writer of files, and a path outside the area.\<close>

definition off_area :: "'z host_deps \<Rightarrow> (string \<Rightarrow> string set) \<Rightarrow> string \<Rightarrow> string \<Rightarrow> bool" where
  "off_area lib temps env q \<longleftrightarrow> writes_files lib temps \<and> \<not> run_area env temps q"

lemma blind_area:
  assumes o: "off_area lib temps env q" and "run_area env temps p"
  shows "blind (\<lambda>f. f q = n) p"
  using assms unfolding off_area_def by (intro blind_held) blast

lemma keeps_dir:
  assumes o: "off_area lib temps env q" and "scratch_sub env D"
  shows "keeps (held q n) (os_MkdirAll D)"
  using assms(2-) by (intro keeps_MkdirAll blind_area [OF o] run_area_ancestors)

lemma keeps_file:
  assumes o: "off_area lib temps env q" and "scratch_sub env D" and "name_ok k"
  shows "keeps (held q n) (WriteFile lib (PathJoin D k) data)"
  by (rule keeps_WriteFile_lib [of lib temps])
    (use assms in \<open>auto simp: off_area_def intro!: blind_area [OF o] intro: run_area_join run_area_temps\<close>)

lemma keeps_remove:
  assumes o: "off_area lib temps env q" and "scratch_sub env D" and "name_ok k"
  shows "keeps (held q n) (os_Remove (PathJoin D k))"
  using assms(2-) by (intro keeps_Remove blind_area [OF o] run_area_join)

lemma keeps_clear:
  assumes o: "off_area lib temps env q" and "scratch_sub env D"
  shows "keeps (held q n) (os_RemoveAll D)"
  using assms run_area_below below_trans unfolding scratch_sub_def off_area_def
  by (intro keeps_RemoveAll_held) blast

lemma keeps_parent:
  assumes o: "off_area lib temps env q" and "scratch_sub env D" and "name_ok k"
  shows "keeps (held q n) (os_MkdirAll (PathDir (PathJoin D k)))"
  using keeps_dir [OF o assms(2)] PathJoin_below(2) [of D k] assms(2,3) by (simp add: scratch_sub_def)

lemma keeps_copy:
  assumes o: "off_area lib temps env q" and "scratch_sub env D" and "name_ok k"
  shows "keeps (held q n) (copyFile lib src (PathJoin D k))"
  using assms(2-) unfolding copyFile_def by (intro keeps_tryE keeps_ReadFile keeps_parent [OF o] keeps_file [OF o])

lemma keeps_rename:
  assumes o: "off_area lib temps env q" and "scratch_sub env D" and "name_ok k"
  shows "keeps (held q n) (os_Rename (PathJoin D k @ partialSuffix) (PathJoin D k))"
  using assms(2-) by (intro keeps_Rename blind_area [OF o] run_area_part run_area_join)

lemma keeps_fetchFile:
  assumes o: "off_area lib temps env q" and "scratch_sub env D" and "name_ok k"
  shows "keeps (held q n) (fetchFile d url (PathJoin D k) want label)"
proof -
  have "keeps (held q n) (fetch_produce d url (PathJoin D k) want label)"
    unfolding fetch_produce_def
    by (intro keeps_intro blind_area [OF o] run_area_part assms(2-))
  with assms show ?thesis
    unfolding fetchFile_staged
    by (intro keeps_tryE keeps_cachedArtifactOK keeps_if keeps_ret keeps_parent [OF o] keeps_rename [OF o])
qed

lemma keeps_fetch_cached:
  assumes o: "off_area lib temps env q" and "scratch_sub env D" and "CHR ''/'' \<notin> set sha"
    and "stem \<noteq> []" and "CHR ''/'' \<notin> set stem" and "CHR ''.'' \<notin> set stem" and "CHR ''/'' \<notin> set ext"
  shows "keeps (held q n) (fetchFile d url (cachePath (PathJoin D (stem @ ''.'' @ ext)) sha) want label)"
  using cache_in_scratch [OF assms(2-)] keeps_fetchFile [OF o assms(2)] by auto

lemma keeps_writeSeed:
  assumes o: "off_area lib temps env q" and "scratch_sub env D" and "name_ok k"
  shows "keeps (held q n) (writeSeedKernel (PathJoin D k) body)"
  unfolding writeSeedKernel_def Let_def
  by (intro keeps_tryE keeps_catchE keeps_ignoreE keeps_parent [OF o] keeps_Create keeps_io_Copy keeps_Close keeps_failE
      keeps_ret keeps_rename [OF o] blind_area [OF o] run_area_part assms(2-))

lemma keeps_seed_entries:
  assumes o: "off_area lib temps env q" and "scratch_sub env D" and "name_ok k"
  shows "keeps (held q n) (seed_entries (PathJoin D k) es end)"
  by (induction es) (auto simp: keeps_writeSeed [OF o assms(2,3)] intro: keeps_failE split: option.split)

lemma keeps_fetchSeed:
  assumes o: "off_area lib temps env q" and "CHR ''/'' \<notin> set sha"
  shows "keeps (held q n) (fetchSeedKernel lib env url sha)"
proof -
  have e: "keeps (held q n) (extractSeedKernel lib t (seed_cache env))" for t
    unfolding extractSeedKernel_def seed_cache_def
    by (intro keeps_tryE keeps_OpenRead)
      (auto intro!: keeps_failE keeps_seed_entries [OF o] scratch_sub_self split: sum.split)
  have f: "keeps (held q n) (fetchFile d url (cachePath (PathJoin (scratchDir env) ''seed-kernel.tar.zst'') sha) want label)" for d want label
    using keeps_fetch_cached [OF o scratch_sub_self assms(2), of "''seed-kernel''" "''tar.zst''"] by simp
  show ?thesis
    unfolding fetchSeedKernel_def Let_def
    by (intro keeps_catchE keeps_Stat keeps_tryE keeps_if keeps_ret e f)
qed

lemma keeps_resolveBootstrap:
  assumes o: "off_area lib temps env q" and "CHR ''/'' \<notin> set (KataSHA cfg)"
  shows "keeps (held q n) (resolveBootstrap lib env cfg)"
  using assms(2) unfolding resolveBootstrap_def Let_def by (intro keeps_catchE keeps_Stat keeps_if keeps_ret keeps_fetchSeed [OF o])

lemma keeps_prepareRootfs:
  assumes o: "off_area lib temps env q" and "deps_frame (root_image env @ partialSuffix) rd"
  shows "keeps (held q n) (prepareRootfs rd lib env cfg)"
proof -
  have k: "keeps (held q n) (rootfsCacheKey d cfg)" for d
    unfolding rootfsCacheKey_def
    by (intro keeps_tryE keeps_OpenRead) (auto intro: keeps_failE keeps_ret split: option.split)
  have p: "blind (\<lambda>f. f q = n) (root_image env @ partialSuffix)"
    unfolding root_image_def by (intro blind_area [OF o] run_area_part scratch_sub_self) simp
  have s: "keeps (held q n) (WriteFile lib (root_stamp env) data)" for data
    unfolding root_stamp_def by (intro keeps_file [OF o] scratch_sub_self) simp
  have r: "keeps (held q n) (os_Rename (root_image env @ partialSuffix) (root_image env))"
    unfolding root_image_def by (intro keeps_rename [OF o] scratch_sub_self) simp
  have "keeps (held q n) (rebuild_rootfs rd lib env cfg key)" for key
    unfolding rebuild_rootfs_def Let_def
    by (intro keeps_tryE keeps_dir [OF o] scratch_sub_self keeps_Build [OF assms(2) p] r s keeps_ret)
  with k show ?thesis
    unfolding prepareRootfs_def
    by (intro keeps_tryE keeps_catchE keeps_ReadFile keeps_Stat keeps_if keeps_ret)
qed

section \<open>The remaining steps\<close>

text \<open>A listing of a directory gives plain names.\<close>

definition plain_names :: "'z host_deps \<Rightarrow> bool" where
  "plain_names lib \<longleftrightarrow> (\<forall>f d. \<forall>n \<in> set (Readdirnames lib f d). name_ok n)"

definition patch_found :: "string \<Rightarrow> bool" where
  "patch_found p \<longleftrightarrow> (\<exists>d n. name_ok n \<and> p = PathJoin d n)"

lemma glob_dir_found:
  assumes "plain_names lib" and "glob_dir lib d w = (Inr ps, w')" and "p \<in> set ps"
  shows "patch_found p"
proof -
  have names: "patch_found (PathJoin d n)" if "n \<in> set (Readdirnames lib f d)" for f n
    using assms(1) that unfolding plain_names_def patch_found_def by blast
  have some: "patch_found (PathJoin d n)" if "n \<in> set (take k (Readdirnames lib f d))" for k f n
    by (rule names) (rule in_set_takeD [OF that])
  obtain r w1 where st: "os_Stat d w = (r, w1)" by (cases "os_Stat d w")
  show ?thesis
    using assms(2,3) st names some
    by (auto simp: glob_dir_def catchE_def ret_def split: sum.splits if_splits prod.splits fault.splits)
qed

lemma glob_dirs_found:
  "plain_names lib \<Longrightarrow> glob_dirs lib ds w = (Inr ps, w') \<Longrightarrow> p \<in> set ps \<Longrightarrow> patch_found p"
  by (induction ds arbitrary: w ps) (auto simp: ret_eq tryE_Inr dest: glob_dir_found)

lemma glob_found:
  "plain_names lib \<Longrightarrow> glob_patches lib pat w = (Inr ps, w') \<Longrightarrow> p \<in> set ps \<Longrightarrow> patch_found p"
  by (auto simp: glob_patches_def Let_def tryE_Inr split: if_splits dest: glob_dir_found glob_dirs_found)

lemma keeps_glob [keeps_intro]:
  fixes lib :: "'z host_deps"
  shows "keeps (disk_inv R) (glob_patches lib pat)"
proof -
  have d: "keeps (disk_inv R) (glob_dir lib d)" for d
  proof -
    have "keeps (disk_inv R) (\<lambda>w :: 'z host_scheme. case next_fault w of
             (Fail e n ps, w) \<Rightarrow>
               (Inr (map (PathJoin d) (filter is_patch (sort (take n (Readdirnames lib (fs w) d))))), w)
           | (Pass, w) \<Rightarrow>
               (Inr (map (PathJoin d) (filter is_patch (sort (Readdirnames lib (fs w) d)))) :: string list result, w))"
    proof (rule keepsI)
      fix w :: "'z host_scheme"
      assume w: "disk_inv R w"
      obtain ft w1 where nf: "next_fault w = (ft, w1)" by (cases "next_fault w")
      then have "disk_inv R w1" using w next_fault_fs [OF nf] by (simp add: disk_inv_def)
      with nf show "disk_inv R (snd (case next_fault w of
             (Fail e n ps, w) \<Rightarrow>
               (Inr (map (PathJoin d) (filter is_patch (sort (take n (Readdirnames lib (fs w) d))))), w)
           | (Pass, w) \<Rightarrow>
               (Inr (map (PathJoin d) (filter is_patch (sort (Readdirnames lib (fs w) d)))) :: string list result, w)))"
        by (simp split: fault.split)
    qed
    then show ?thesis unfolding glob_dir_def by (intro keeps_catchE keeps_Stat keeps_ret keeps_if)
  qed
  have ds: "keeps (disk_inv R) (glob_dirs lib ds)" for ds
    by (induction ds) (auto intro!: keeps_tryE keeps_ret d)
  have g: "keeps (disk_inv R) (\<lambda>w :: 'z host_scheme. (GlobDirs lib x (fs w), w))" for x by (simp add: keeps_def)
  show ?thesis
    unfolding glob_patches_def Let_def
by (intro keeps_if d) (rule keeps_tryE [OF g ds])
qed

lemma keeps_tryE_returned:
  "keeps I m \<Longrightarrow> (\<And>w x w'. m w = (Inr x, w') \<Longrightarrow> keeps I (k x)) \<Longrightarrow> keeps I (tryE m f k)"
  unfolding tryE_def by (rule keeps_catchE_returned) (auto intro: keeps_failE)

lemma keeps_stagePatches:
  assumes o: "off_area lib temps env q" and "plain_names lib" and "scratch_sub env D"
  shows "keeps (held q n) (stagePatches lib S D)"
proof -
  have c: "keeps (held q n) (copyFile lib p (PathJoin D (PathBase p)))" if "patch_found p" for p
    using that keeps_copy [OF o assms(3)] PathBase_PathJoin by (auto simp: patch_found_def)
  show ?thesis
    unfolding stagePatches_def Let_def
    by (rule keeps_tryE_returned [OF keeps_glob])
      (intro keeps_tryE keeps_clear [OF o] keeps_dir [OF o] keeps_forE assms(3) c, use glob_found [OF assms(2)] in auto)
qed

lemma keeps_stageWorkdir:
  assumes o: "off_area lib temps env q" and "plain_names lib" and "scratch_sub env D"
  shows "keeps (held q n) (stageWorkdir lib cfg D)"
  unfolding stageWorkdir_def
  by (intro keeps_tryE keeps_ignoreE keeps_ret keeps_dir [OF o] keeps_file [OF o] keeps_copy [OF o] keeps_remove [OF o]
      keeps_stagePatches [OF o] scratch_sub_join assms(2-)) simp_all

lemma keeps_prepareLLVM:
  assumes o: "off_area lib temps env q" and "CHR ''/'' \<notin> set (LLVMSHA cfg)"
  shows "keeps (held q n) (prepareLLVM lib env cfg)"
proof -
  have d: "scratch_sub env (llvm_dir env)"
    unfolding llvm_dir_def by (intro scratch_sub_join scratch_sub_self) simp
  have "blind_dir (\<lambda>f. f q = n) (llvm_dir env)"
    unfolding blind_dir_def
  proof (intro allI impI)
    fix p
    assume p: "below_dir (Clean (llvm_dir env)) p \<or> p \<in> set (ancestors (Clean (llvm_dir env)))"
    have c: "Clean (llvm_dir env) = llvm_dir env" "below (scratchDir env) (llvm_dir env)"
      using d by (simp_all add: scratch_sub_def)
    from p show "blind (\<lambda>f. f q = n) p"
    proof
      assume "below_dir (Clean (llvm_dir env)) p"
      then have "below (llvm_dir env) p" unfolding c by (auto simp: below_dir_def below_def HasPrefix_iff)
      then show ?thesis using below_trans [OF c(2)] by (intro blind_area [OF o] run_area_below)
    next
      assume "p \<in> set (ancestors (Clean (llvm_dir env)))"
      then show ?thesis unfolding c by (intro blind_area [OF o] run_area_ancestors [OF d])
    qed
  qed
  then have e: "keeps (held q n) (extractLLVM lib t (llvm_dir env))" for t
    using d by (intro keeps_extractLLVM) (simp_all add: scratch_sub_def)
  have f: "keeps (held q n) (fetchFile fd url (cachePath (PathJoin (scratchDir env) ''llvm.tar.xz'') (LLVMSHA cfg)) want label)" for fd url want label
    using keeps_fetch_cached [OF o scratch_sub_self assms(2), of "''llvm''" "''tar.xz''"] by simp
  have s: "keeps (held q n) (WriteFile lib (llvm_stamp env) data)" for data
    unfolding llvm_stamp_def by (intro keeps_file [OF o] d) simp
  show ?thesis
    unfolding prepareLLVM_def Let_def
    by (intro keeps_catchE keeps_ReadFile keeps_if keeps_tryE keeps_ret keeps_clear [OF o] keeps_dir [OF o] d e f s)
qed

lemma keeps_buildKernel:
  assumes o: "off_area lib temps env q" and "guest_confined vd" and "scratch_sub env D"
  shows "keeps (held q n) (buildKernel vd b ri D l)"
proof -
  have w: "run_area env temps p" if "New vz (build_vm c b ri D l) = Inr vm" "writable vm p" for vz c vm p
    using that assms(3) below_trans [of "scratchDir env" D p]
    by (auto simp: writable_def build_vm_def scratch_sub_def dest!: New_shape intro!: run_area_below)
  show ?thesis
    unfolding buildKernel_def
    by (rule keeps_lifted)
      (intro keeps_tryE keeps_boot [OF assms(2)] keeps_if keeps_failE keeps_ret blind_area [OF o] w)
qed

text \<open>All the steps before the promotion.\<close>

definition run_before_promotion ::
    "('z host_scheme, 'h, 'i, 'b) deps \<Rightarrow> 'z vm_deps \<Rightarrow> 'z host_deps \<Rightarrow> string \<Rightarrow> config \<Rightarrow> string \<Rightarrow> (string, 'z) hio" where
  "run_before_promotion rd vd lib env cfg workdir =
     tryE (check_inputs cfg) id (\<lambda>_.
     tryE (resolveBootstrap lib env cfg) id (\<lambda>bootstrap.
     tryE (prepareRootfs rd lib env cfg) id (\<lambda>rootImage.
     tryE (stageWorkdir lib cfg workdir) id (\<lambda>_.
     tryE (fetchFile (fetching lib) (SourceURL cfg) (sourceTarball workdir cfg) (SourceSHA cfg) ''kernel source'') id (\<lambda>_.
     tryE (prepareLLVM lib env cfg) id (\<lambda>llvmDir.
     tryE (buildKernel vd bootstrap rootImage workdir llvmDir) (wrap ''kernel build: '') (\<lambda>_.
     ret rootImage)))))))"

definition run_workdir :: "string \<Rightarrow> string" where
  "run_workdir env = PathJoin (scratchDir env) ''kernel''"

lemma run_steps_split:
  "run_steps rd vd lib env cfg =
     tryE (run_before_promotion rd vd lib env cfg (run_workdir env)) id
       (\<lambda>ri. promote vd lib env cfg (run_workdir env) ri)"
  unfolding run_steps_def run_before_promotion_def run_workdir_def Let_def tryE_assoc ret_tryE by (rule refl)

definition pins_plain :: "config \<Rightarrow> bool" where
  "pins_plain cfg \<longleftrightarrow> CHR ''/'' \<notin> set (KataSHA cfg) \<and> CHR ''/'' \<notin> set (SourceSHA cfg) \<and> CHR ''/'' \<notin> set (LLVMSHA cfg)"

lemma keeps_check_inputs [keeps_intro]: "keeps (disk_inv R) (check_inputs cfg)"
  unfolding check_inputs_def by (intro keeps_forE) (auto intro!: keeps_tryE keeps_Stat keeps_ret)

lemma run_workdir_sub: "scratch_sub env (run_workdir env)"
  unfolding run_workdir_def by (intro scratch_sub_join scratch_sub_self) simp

lemma keeps_before_promotion:
  assumes o: "off_area lib temps env q" and "guest_confined vd" and "plain_names lib" 
    and "deps_frame (root_image env @ partialSuffix) rd" and "pins_plain cfg"
  shows "keeps (held q n) (run_before_promotion rd vd lib env cfg (run_workdir env))"
proof -
  have f: "keeps (held q n) (fetchFile d url (sourceTarball (run_workdir env) cfg) sha label)" for d url sha label
    using keeps_fetch_cached [OF o run_workdir_sub, of "SourceSHA cfg" "''source''" "''tar.xz''"] assms(5)
    by (simp add: sourceTarball_def pins_plain_def)
  show ?thesis
    unfolding run_before_promotion_def
    by (intro keeps_tryE keeps_check_inputs keeps_resolveBootstrap [OF o] keeps_prepareRootfs [OF o] keeps_stageWorkdir [OF o] f
        keeps_prepareLLVM [OF o] keeps_buildKernel [OF o] keeps_ret assms(2-4) run_workdir_sub)
      (use assms(5) in \<open>simp_all add: pins_plain_def\<close>)
qed

lemma off_smoke_area: "\<not> run_area env temps q \<Longrightarrow> off_smoke env temps q"
proof -
  assume q: "\<not> run_area env temps q"
  have s: "scratch_sub env (smoke_dir env)"
    unfolding smoke_dir_def by (intro scratch_sub_join scratch_sub_self) simp
  have "below (smoke_dir env) q \<Longrightarrow> run_area env temps q"
    using s below_trans run_area_below unfolding scratch_sub_def by blast
  moreover have "q \<in> set (ancestors (smoke_dir env)) \<Longrightarrow> run_area env temps q" by (rule run_area_ancestors [OF s])
  moreover have "q \<in> temps (PathJoin (smoke_dir env) ''build.sh'') \<Longrightarrow> run_area env temps q" using run_area_temps [OF s, of "''build.sh''" q temps] by simp
  ultimately show ?thesis using q by (auto simp: off_smoke_def)
qed


lemma built_off_smoke:
  assumes "PathJoin (run_workdir env) ''kernel-arm64'' \<notin> temps (PathJoin (smoke_dir env) ''build.sh'')"
  shows "off_smoke env temps (PathJoin (run_workdir env) ''kernel-arm64'')"
proof -
  let ?S = "scratchDir env"
  have S: "named_dir ?S" "Clean ?S = ?S" using scratch_sub_self by (simp_all add: scratch_sub_def)
  have w: "named_dir (run_workdir env)" "Clean (run_workdir env) = run_workdir env"
    using run_workdir_sub by (simp_all add: scratch_sub_def)
  have k: "PathJoin (run_workdir env) ''kernel-arm64'' = ?S @ ''/kernel/kernel-arm64''"
    using PathJoin_below(1) [OF w, of "''kernel-arm64''"] PathJoin_below(1) [OF S, of "''kernel''"] by (simp add: run_workdir_def)
  have d: "smoke_dir env = ?S @ ''/smoke''"
    using PathJoin_below(1) [OF S, of "''smoke''"] by (simp add: smoke_dir_def)
  show ?thesis
    using assms unfolding off_smoke_def k d by (auto simp: below_def HasPrefix_iff ancestors_iff)
qed

text \<open>
  C2. A run that succeeds has installed a kernel that boots: at the absolute path of the
  output lie the very bytes a machine has run from, until it powered itself off with a zero
  status in its share.
\<close>

theorem run_installs_booted_kernel:
  assumes "run rd vd lib env cfg w = (Inr u, w')" and "PathAbs (Getwd lib) (Out cfg) = Inr out"
    and "guest_confined vd" and "writes_files lib temps"
    and "PathJoin (run_workdir env) ''kernel-arm64'' \<notin> temps (PathJoin (smoke_dir env) ''build.sh'')"
    and "perf = PathJoin (PathDir out) ''perf-arm64''"
    and "out \<noteq> perf" and "out \<notin> temps perf" and "out \<notin> set (ancestors (PathDir perf))"
  shows "\<exists>ri vm v data.
     New (vz_lib vd) (smoke_vm (PathJoin (run_workdir env) ''kernel-arm64'') ri (smoke_dir env)) = Inr vm \<and>
     passed vd vm (smoke_dir env) v \<and>
     bytes_at (fs v) (PathJoin (run_workdir env) ''kernel-arm64'') = Some data \<and> bytes_at (fs w') out = Some data"
proof -
  let ?cfg = "cfg\<lparr>Out := out\<rparr>"
  have "run_steps rd vd lib env ?cfg w = (Inr u, w')"
    using assms(1,2) by (auto simp: run_def failE_def split: sum.splits)
  then obtain ri w1 where "promote vd lib env ?cfg (run_workdir env) ri w1 = (Inr u, w')"
    unfolding run_steps_split tryE_Inr by blast
  from promoted_is_booted [OF this assms(3,4) built_off_smoke [where temps = temps and env = env, OF assms(5)], of perf] assms(6-9)
  show ?thesis by auto
qed

section \<open>The checks of the inputs\<close>

text \<open>The operating system is as it was: no file, no request and no machine.\<close>

definition untouched :: "'z world_scheme \<Rightarrow> 'z world_scheme \<Rightarrow> bool" where
  "untouched w w' \<longleftrightarrow> fs w' = fs w \<and> hist w' = hist w \<and> log w' = log w"

lemma Stat_untouched: "os_Stat p w = (r, w') \<Longrightarrow> untouched w w' \<and> (fs w p = None \<longrightarrow> \<not> is_ok r)"
proof -
  assume c: "os_Stat p w = (r, w')"
  obtain ft w1 where nf: "next_fault w = (ft, w1)" by (cases "next_fault w")
  with c next_fault_fs [OF nf] show ?thesis
    by (cases ft; cases "fs w1 p") (auto simp: untouched_def os_Stat_def fs_read_def split: sum.splits node.splits)
qed

lemma check_missing:
  assumes "\<exists>i \<in> set ins. fs w (snd i) = None"
  shows "\<exists>e w'. forE ins (\<lambda>(what, path).
     tryE (os_Stat path) (wrap (what @ '' not found at '' @ quoted path @ '': '')) (\<lambda>_. ret ())) w = (Inl e, w') \<and> untouched w w'"
  using assms
proof (induction ins arbitrary: w)
  case (Cons i ins)
  obtain what path where i: "i = (what, path)" by (cases i)
  obtain r w1 where st: "os_Stat path w = (r, w1)" by (cases "os_Stat path w")
  show ?case
  proof (cases r)
    case (Inl e)
    with i st Stat_untouched [OF st] show ?thesis by (simp add: tryE_def catchE_def failE_def)
  next
    case (Inr n)
    with Stat_untouched [OF st] Cons.prems i have "untouched w w1" "\<exists>i \<in> set ins. fs w1 (snd i) = None"
      by (auto simp: untouched_def)
    with Cons.IH [of w1] i st Inr show ?thesis
      by (auto simp: tryE_def catchE_def ret_def untouched_def)
  qed
qed simp

text \<open>
  C23. Nothing happens before the inputs are checked: a run whose output path is refused, or
  one of whose three inputs is missing, fails without having written a file, made a request or
  started a machine.
\<close>

theorem run_checks_inputs_first:
  assumes "(\<exists>e. PathAbs (Getwd lib) (Out cfg) = Inl e) \<or>
     (\<exists>out e. PathAbs (Getwd lib) (Out cfg) = Inr out \<and> pathcheck_Validate lib out = Inl e) \<or>
     fs w (InitBin cfg) = None \<or> fs w (KernelConfig cfg) = None \<or> fs w (KernelPatches cfg) = None"
  shows "\<not> is_ok (fst (run rd vd lib env cfg w)) \<and> untouched w (snd (run rd vd lib env cfg w))"
proof (cases "PathAbs (Getwd lib) (Out cfg)")
  case (Inl e)
  then show ?thesis by (simp add: run_def failE_def untouched_def)
next
  case (Inr out)
  show ?thesis
  proof (cases "pathcheck_Validate lib out")
    case (Inl e)
    with Inr show ?thesis by (simp add: run_def failE_def untouched_def)
  next
    case (Inr u)
    with assms \<open>PathAbs _ _ = Inr out\<close>
    have "\<exists>i \<in> set (run_inputs (cfg\<lparr>Out := out\<rparr>)). fs w (snd i) = None" by (auto simp: run_inputs_def)
    from check_missing [OF this] obtain e w'
      where "check_inputs (cfg\<lparr>Out := out\<rparr>) w = (Inl e, w')" "untouched w w'" unfolding check_inputs_def by blast
    with Inr \<open>PathAbs _ _ = Inr out\<close> show ?thesis by (simp add: run_def run_steps_def tryE_def catchE_def failE_def)
  qed
qed

lemma run_checks_inputs_first_witness:
  "untouched built_world (snd (run disk_deps (toy_vm None) sure_lib ''s'' k_cfg built_world))"
proof -
  have "fs built_world (InitBin k_cfg) = None" by (simp add: built_world_def host_world_def k_cfg_def old_pin_def)
  with run_checks_inputs_first [of sure_lib k_cfg built_world disk_deps "toy_vm None" "''s''"] show ?thesis by blast
qed

section \<open>A whole run\<close>

text \<open>Everything is cached, the build's guest and the test's guest report success.\<close>

definition run_cfg :: config where
  "run_cfg = old_pin\<lparr>Out := ''/o/k'', InitBin := ''i'', KernelConfig := ''c'', KernelPatches := ''p'', LLVMSHA := ''a1'',
     Image := ''d@sha256:1''\<rparr>"

definition ready_world :: host where
  "ready_world = host_world
     [''i'' \<mapsto> NFile ''I'' 493, ''c'' \<mapsto> NFile ''C'' 420, ''p'' \<mapsto> NDir, ''/o/k'' \<mapsto> NFile ''old'' 384,
      ''s/kernel-scratch/bootstrap-kernel-arm64'' \<mapsto> NFile ''seed'' 384,
      ''s/kernel-scratch/.debian-rootfs-ref'' \<mapsto> NFile ''d@sha256:1@init:I'' 384,
      ''s/kernel-scratch/debian-rootfs.ext4'' \<mapsto> NFile ''disk'' 384,
      ''s/kernel-scratch/kernel/source.tar.xz'' \<mapsto> NFile ''src'' 384,
      ''s/kernel-scratch/llvm/.ossein-llvm-sha'' \<mapsto> NFile ''a1'' 384,
      ''s/kernel-scratch/kernel/kernel-arm64'' \<mapsto> NFile ''new'' 384,
      ''s/kernel-scratch/kernel/perf-arm64'' \<mapsto> NFile ''perf'' 493] []"


lemma run_installs_booted_kernel_witness:
  "\<exists>data. bytes_at (fs (snd (run disk_deps (toy_vm (Some ''0'')) sure_lib ''s'' run_cfg ready_world))) ''/o/k'' = Some data"
proof -
  let ?run = "run disk_deps (toy_vm (Some ''0'')) sure_lib ''s'' run_cfg ready_world"
  have "is_ok (fst ?run)" by code_simp
  then have run: "?run = (Inr (), snd ?run)" by (auto simp: is_ok_def prod_eq_iff split: sum.splits)
  have a: "PathAbs (Getwd sure_lib) (Out run_cfg) = Inr ''/o/k''" by code_simp
  have p: "PathJoin (PathDir ''/o/k'') ''perf-arm64'' = ''/o/perf-arm64''" "PathDir ''/o/perf-arm64'' = ''/o''" by code_simp+
  show ?thesis
    using run_installs_booted_kernel [OF run a toy_vm_confined sure_lib_writes _ refl, unfolded p] by (auto simp: ancestors_iff)
qed

end
