(* ===== verification/Spec2Isabelle.thy ===== *)
theory Spec2Isabelle
  imports Ikconfig_Cmd Guest_Tree Host_Guest Host_Progress Stall_Race Run_Safety
begin

text \<open>
  A verification development for ossein-kernel: the program that builds the ossein guest
  kernel in a microVM, boot-tests it and installs it, and \<^verbatim>\<open>ikconfig\<close>, which checks the
  configuration a built kernel embeds.

  The program. \<^verbatim>\<open>cmd/ossein-kernel/main.go\<close> runs on the host. Its \<^verbatim>\<open>run\<close> checks its
  inputs, finds a kernel to boot with (the previous output or a downloaded seed), builds or
  reuses the Debian root disk (\<^verbatim>\<open>internal/rootfs\<close>), stages a share with the build script,
  the configuration, the patches and the build's environment, downloads the kernel source and
  the LLVM toolchain, boots a build machine (\<^verbatim>\<open>internal/vm\<close>), boots the kernel it made in
  a second machine, and only then copies it to the output. In either machine PID 1 is
  \<^verbatim>\<open>cmd/ossein-kernel/init/main.go\<close>: it overlays the read-only root, mounts the shares the
  kernel command line declares, brings up the network if declared, runs the script and leaves
  its exit code in \<^verbatim>\<open>status\<close> on the share, where the host reads it.
  \<^verbatim>\<open>cmd/ikconfig\<close> extracts, prints and verifies a configuration (\<^verbatim>\<open>internal/ikconfig\<close>).

  The language and its library. \<open>Go_Prelude\<close> has errors as values (\<open>goerr\<close>, results are
  \<open>goerr + 'a\<close>) and the rule collections; \<open>Go_Effect\<close> the combinators for programs with
  state (\<open>tryE\<close>, \<open>catchE\<close>, \<open>ignoreE\<close>, \<open>deferE\<close>, \<open>forE\<close>) and the rules that
  carry an invariant (\<open>keeps\<close>) or a contract through them; \<open>Go_Strings\<close>,
  \<open>Go_Strconv\<close>, \<open>Go_Path\<close>, \<open>Go_Regexp\<close> and \<open>Go_Float\<close> the functions of the
  standard library the code calls. \<open>Os_World\<close> is the operating system: files by literal
  path, a list of faults that decides which calls fail and after how many bytes, the history
  of all file systems the disk went through (what a process killed at any moment leaves
  behind), and the log of calls. \<open>Os_Staged\<close> is the contract for producing a file under a
  temporary name and renaming it.

  The components, and where their code is.
  \<^item> \<open>Ikconfig_Extract\<close>, \<open>Ikconfig_Verify\<close>, \<open>Ikconfig_Policy\<close>:
    \<^verbatim>\<open>ikconfig.go\<close>, \<^verbatim>\<open>verify.go\<close>, \<^verbatim>\<open>policy.go\<close> of \<^verbatim>\<open>internal/ikconfig\<close>;
    \<open>Ikconfig_Cmd\<close>: \<^verbatim>\<open>cmd/ikconfig/main.go\<close>.
  \<^item> \<open>Rootfs\<close>: \<^verbatim>\<open>internal/rootfs/rootfs.go\<close>; \<open>Vm\<close>: \<^verbatim>\<open>internal/vm/vm.go\<close>.
  \<^item> \<open>Guest_Init\<close> (the code of PID 1); what it guarantees: \<open>Guest_Safety\<close>,
    \<open>Guest_Invariant\<close> with \<open>Guest_Tree\<close> (invariants of its files), \<open>Guest_Verdict\<close>
    (what a status means) and \<open>Guest_Calm\<close> (a guest without faults):
    \<^verbatim>\<open>cmd/ossein-kernel/init/main.go\<close>. \<open>Host_Guest\<close> puts it on the other side of
    the share of the host's boot test.
  \<^item> \<^verbatim>\<open>cmd/ossein-kernel/main.go\<close>, from the bottom up: \<open>Host_Download\<close> (paths,
    checksums, the copy with its watchdog, retries, \<^verbatim>\<open>fetchFile\<close>) with \<open>Host_Fetch\<close>
    and \<open>Fetch_Safety\<close>; \<open>Stall_Race\<close> (the same copy with its goroutines interleaved);
    \<open>Host_Progress\<close> (the progress lines, the client's options); \<open>Host_Config\<close> (the
    settings and the libraries); \<open>Host_Llvm\<close> (\<^verbatim>\<open>prepareLLVM\<close> and below);
    \<open>Host_Seed\<close> (\<^verbatim>\<open>resolveBootstrap\<close>, \<^verbatim>\<open>fetchSeedKernel\<close>); \<open>Host_Rootfs\<close>
    (\<^verbatim>\<open>prepareRootfs\<close>); \<open>Host_Stage\<close> with \<open>Stage_Safety\<close> (\<^verbatim>\<open>stageWorkdir\<close>,
    \<^verbatim>\<open>copyFile\<close>); \<open>Host_Boot\<close> with \<open>Boot_Safety\<close> (\<^verbatim>\<open>boot\<close>,
    \<^verbatim>\<open>buildKernel\<close>, \<^verbatim>\<open>smokeTest\<close>, \<^verbatim>\<open>promote\<close>); \<open>Host_Run\<close> with
    \<open>Run_Safety\<close> (\<^verbatim>\<open>run\<close>, \<^verbatim>\<open>main\<close>).

  A function of the source is a definition of the same name; where a loop or a branch of it has
  a definition of its own, its text says so. State is passed explicitly: \<open>world\<close> for the
  guest, extended to \<open>terminal\<close> for \<^verbatim>\<open>ikconfig\<close> (its standard output) and to
  \<open>host\<close> for the host (the clock, the moment the run's context is cancelled, the replies
  of the network). Code that is not in the repository is a parameter: the records \<open>gzip\<close>,
  \<open>ext4\<close> and \<open>deps\<close> (registry client, disk writer), \<open>netdeps\<close> (netlink, DHCP),
  \<open>vz\<close> and \<open>vm_deps\<close> (Virtualization.framework and what runs in a machine),
  \<open>fetch_deps\<close> and \<open>host_deps\<close> (hashing, archive readers, directory listings, the
  writer of whole files). What is relied on of them is a named predicate: \<open>decodes\<close>,
  \<open>writes_files\<close>, \<open>guest_confined\<close>, \<open>deps_frame\<close> and others, each with an
  instance in a witness.

  What the lemmas show. For files: whatever a killed or failing run leaves at a path that a
  later run trusts is the old content or a complete, verified one (the disk, downloads, the
  seed kernel, the output); extraction stays below its destination; staging leaves exactly the
  patches. For the machines: a run that succeeds has installed the bytes that booted, and the
  output keeps its old kernel until then; a machine has the devices asked for; the guest's
  command line, environment and status are read on the other side as they were written; the
  status is on the disk before the power-off; without faults it is the script's exit code, and
  whatever fails in the guest, a status of zero means the script ran in a machine that was set
  up and exited with zero. For downloads: bounded requests and time, a
  stall reported exactly on a gap, and the sequential model as one schedule of the concurrent
  program, every schedule of which is sound. For \<^verbatim>\<open>ikconfig\<close>: verification accepts
  exactly the configurations that meet the policy and match the golden set, the report names
  every defect, and printing and reading the golden set are inverse.

  Bounds and non-termination. Go's integers are words where the code's arithmetic could wrap
  (CPU counts, memory, byte counts of a progress line) and naturals or integers elsewhere.
  Every definition is total without fuel: the copy loop uses up an event of the body in each
  round, and a body with none left ends at the watchdog; a download makes at most
  \<open>downloadAttempts\<close> attempts. The waits for a machine are folds over the events it
  delivers: a start always returns, by its deadline; a wait that sees no deciding event has not
  returned, which is the pseudo-error \<open>hang\<close> where a result is needed.

  Not modelled. Two texts name the same file only if they are equal: a relative path and the
  absolute one it stands for are different here, so what is proved of the output speaks of
  the files themselves when the scratch directory is given as an absolute path (then the
  default output is apart from it, \<open>default_output_apart\<close>). Symbolic links are not followed: a call that would have to fails with
  \<open>EINVAL\<close> or \<open>ENOTDIR\<close>, so what a write through an extracted link does is outside the
  model. Directories have no modes, mounts do not change what a path holds, and of
  \<^verbatim>\<open>os.OpenFile\<close>'s flags only creation and truncation matter. The texts of errors are
  kept up to \<^verbatim>\<open>%q\<close>'s escapes and the framework's names of its states. The command line
  parser, the signal handler behind the context, the logger's formatting, the console, the
  pool of connections of the HTTP client and its own retries inside one call, and
  \<^verbatim>\<open>build.sh\<close> (shell, run in the guest) are not modelled. Floats are rounded to 53 bits,
  without the subnormal and infinite values that no rate of a download reaches.

  What does not hold is stated too: \<open>rootfs_stale_stamp_accepted\<close>,
  \<open>llvm_partial_clear_accepted\<close>, \<open>seed_cache_ignores_pin\<close>,
  \<open>stale_status_accepted\<close>, \<open>patches_dir_read_as_pattern\<close> and
  \<open>empty_golden_drifts\<close> are runs in which the code does what it does not mean to.
\<close>

section \<open>The status file\<close>

text \<open>
  C13. The guest and the host agree on the status: whatever code PID 1 writes before it powers
  the machine off, the host reads from the file they share, for every 64-bit integer.
\<close>

theorem status_round_trip:
  assumes "writeStatus code g = (Inr u, g')" and "fs h p = fs g' statusPath" and "faults h = []"
    and "- (2 ^ 63) \<le> code" and "code < 2 ^ 63"
  shows "readStatus p h = (Inr code, h)"
proof -
  obtain m where "fs g' statusPath = Some (NFile (Itoa code @ [CHR 0x0A]) m)"
    using writeStatus_ok [OF assms(1)] by blast
  then have "os_ReadFile p h = (Inr (Itoa code @ [CHR 0x0A]), h)"
    using assms(2,3) by (simp add: os_ReadFile_def fs_read_def next_fault_def)
  moreover have "TrimSpace (Itoa code @ [CHR 0x0A]) = Itoa code" by (rule TrimSpace_newline [OF trimmed_Itoa])
  moreover have "Itoa code \<noteq> []" by (simp add: Itoa_def)
  ultimately show ?thesis
    using Atoi_Itoa [OF assms(4,5)] by (simp add: readStatus_def catchE_def ret_def)
qed

lemma status_round_trip_witness:
  "readStatus ''w/status'' (host_world [''w/status'' \<mapsto> NFile (''-1'' @ [CHR 0x0A]) 420] []) =
     (Inr (- 1), host_world [''w/status'' \<mapsto> NFile (''-1'' @ [CHR 0x0A]) 420] [])"
proof -
  let ?g = "\<lparr>fs = [''/kernel'' \<mapsto> NDir], hist = [], log = [], faults = [], umask = 0\<rparr> :: world"
  have "is_ok (fst (writeStatus (- 1) ?g))" by code_simp
  then have g: "writeStatus (- 1) ?g = (Inr (), snd (writeStatus (- 1) ?g))"
    by (auto simp: is_ok_def prod_eq_iff split: sum.splits)
  have "fs (snd (writeStatus (- 1) ?g)) statusPath = Some (NFile (''-1'' @ [CHR 0x0A]) 420)" by code_simp
  then show ?thesis by (intro status_round_trip [OF g]) (simp_all add: host_world_def)
qed

section \<open>The kernel command line\<close>

text \<open>
  Names that two sides keep in sync: where the init is, the overlay's mount point on the disk,
  and the files of the share.
\<close>

lemma shared_names:
  "Host_Boot.initGuestPath = Rootfs.initGuestPath" "diskPath overlayMountpoint = ''ram''"
  "statusPath = PathJoin kernelShare statusFile" "buildLog = PathJoin kernelShare buildLogFile"
  "buildScript = PathJoin kernelShare ''build.sh''" "envFile = PathJoin kernelShare ''build.env''"
  by code_simp+

lemma initGuest_printable: "list_all printable initGuestPath"
  by code_simp

lemma build_words: "list_all word_ok [''ossein.net=1'', ''ossein.llvm=1'']"
  by code_simp

text \<open>
  C17. The build machine's guest finds on its command line what the host declared: it brings
  the network up and demands the toolchain share, its init is the file the root disk was
  given, and the machine has the network device and both shares, the toolchain read-only.
\<close>

theorem build_guest_declared:
  assumes "New vz (build_vm cpus bootstrap ri workdir llvmDir) = Inr vm"
    and "fs g ''/proc/cmdline'' = Some (NFile (snd (vmc_boot vm) @ [CHR 0x0A]) m)" and "faults g = []"
  shows "cmdlineHas ''ossein.net=1'' g = (Inr True, g) \<and> cmdlineHas ''ossein.llvm=1'' g = (Inr True, g) \<and>
     cmdlineHas (''init='' @ Rootfs.initGuestPath) g = (Inr True, g) \<and>
     vmc_network vm = 1 \<and> vmc_shares vm = [(''kernel'', workdir, False), (''llvm'', llvmDir, True)]"
proof -
  let ?cfg = "build_vm cpus bootstrap ri workdir llvmDir"
  have v: "snd (vmc_boot vm) = cmdline ?cfg" "vmc_network vm = 1"
    "vmc_shares vm = [(''kernel'', workdir, False), (''llvm'', llvmDir, True)]"
    using New_shape [OF assms(1)] by (simp_all add: build_vm_def)
  have "Fields (cmdline ?cfg @ [CHR 0x0A]) = boot_contract (Init ?cfg) @ Cmdline ?cfg"
    by (rule Fields_cmdline) (simp_all only: build_vm_def vm_config.select_convs initGuest_printable build_words)
  then have "set (Fields (snd (vmc_boot vm) @ [CHR 0x0A])) =
      set (boot_contract initGuestPath) \<union> {''ossein.net=1'', ''ossein.llvm=1''}"
    unfolding v(1) by (simp add: build_vm_def)
  with cmdlineHas_reads [OF assms(2,3)] v(2,3) show ?thesis by (simp add: boot_contract_def shared_names(1))
qed

lemma build_guest_declared_witness:
  "\<exists>vm g. New open_vz (build_vm 8 ''k'' ''d'' ''w'' ''l'') = Inr vm \<and> cmdlineHas ''ossein.net=1'' (g :: world) = (Inr True, g)"
proof -
  have "is_ok (New open_vz (build_vm 8 ''k'' ''d'' ''w'' ''l''))" by code_simp
  then obtain vm where vm: "New open_vz (build_vm 8 ''k'' ''d'' ''w'' ''l'') = Inr vm" unfolding is_ok_iff by blast
  let ?g = "\<lparr>fs = [''/proc/cmdline'' \<mapsto> NFile (snd (vmc_boot vm) @ [CHR 0x0A]) 292], hist = [], log = [], faults = [],
    umask = 0\<rparr> :: world"
  from build_guest_declared [OF vm, of ?g] vm show ?thesis by auto
qed

text \<open>
  C18. The boot test runs offline: the machine that tests a kernel has no network device and
  one share, and its guest's run does not depend on the network at all.
\<close>

theorem smoke_guest_offline:
  fixes g :: "'z world_scheme" and nd1 :: "('z world_scheme, 'c) netdeps" and nd2 :: "('z world_scheme, 'd) netdeps"
  assumes "New vz (smoke_vm k ri dir) = Inr vm"
    and "disk_inv (cmdline_is (snd (vmc_boot vm) @ [CHR 0x0A])) g"
  shows "vmc_network vm = 0 \<and> vmc_shares vm = [(''kernel'', dir, False)] \<and>
     Guest_Init.run nd1 bash g = Guest_Init.run nd2 bash g"
proof -
  let ?cfg = "smoke_vm k ri dir"
  have v: "snd (vmc_boot vm) = cmdline ?cfg" "vmc_network vm = 0" "vmc_shares vm = [(''kernel'', dir, False)]"
    using New_shape [OF assms(1)] by (simp_all add: smoke_vm_def)
  have "Fields (cmdline ?cfg @ [CHR 0x0A]) = boot_contract (Init ?cfg) @ Cmdline ?cfg"
    by (rule Fields_cmdline) (simp_all only: smoke_vm_def vm_config.select_convs initGuest_printable list.pred_inject)
  then have "''ossein.net=1'' \<notin> set (Fields (snd (vmc_boot vm) @ [CHR 0x0A]))"
    unfolding v(1) by (simp add: smoke_vm_def boot_contract_def)
  from offline_run [OF assms(2) this] v(2,3) show ?thesis by blast
qed

lemma smoke_guest_offline_witness:
  "\<exists>vm. New open_vz (smoke_vm ''k'' ''d'' ''s'') = Inr vm \<and> vmc_network vm = 0"
proof -
  have "is_ok (New open_vz (smoke_vm ''k'' ''d'' ''s''))" by code_simp
  then obtain vm where vm: "New open_vz (smoke_vm ''k'' ''d'' ''s'') = Inr vm" unfolding is_ok_iff by blast
  let ?g = "\<lparr>fs = [''/proc/cmdline'' \<mapsto> NFile (snd (vmc_boot vm) @ [CHR 0x0A]) 292], hist = [], log = [], faults = [],
    umask = 0\<rparr> :: world"
  have "disk_inv (cmdline_is (snd (vmc_boot vm) @ [CHR 0x0A])) ?g" by (simp add: disk_inv_def cmdline_is_def)
  from smoke_guest_offline [OF vm this, of no_net ok_bash dead_net] vm show ?thesis by blast
qed

section \<open>The build environment\<close>

definition line_safe :: "string \<Rightarrow> bool" where
  "line_safe e \<longleftrightarrow> trimmed e \<and> CHR 0x0A \<notin> set e \<and> length e \<le> max_line"

lemma build_env_starts:
  "e \<in> set (build_env workdir cfg) \<Longrightarrow> e \<noteq> [] \<and> \<not> HasPrefix e ''#''"
  by (auto simp: build_env_def HasPrefix_def)

text \<open>
  C15. What the host writes to the environment file the guest reads back: the build script
  runs with the default path followed by exactly the settings of the run, one variable each,
  when their values hold no line break and no blank at their end.
\<close>

theorem build_env_round_trip:
  assumes "\<forall>e \<in> set (build_env workdir cfg). line_safe e"
    and "fs g envFile = Some (NFile (env_text workdir cfg) m)" and "faults g = []"
  shows "readEnvFile envFile g = (Inr (base_env @ build_env workdir cfg), g)"
proof -
  let ?es = "build_env workdir cfg"
  have ne: "?es \<noteq> []" by (simp add: build_env_def)
  have "Split CHR 0x0A (env_text workdir cfg) = Split CHR 0x0A (Join ?es [CHR 0x0A]) @ [[]]"
    unfolding env_text_def by (rule Split_snoc_sep)
  also have "Split CHR 0x0A (Join ?es [CHR 0x0A]) = ?es"
    using assms(1) ne by (intro Split_Join) (auto simp: line_safe_def)
  finally have raw: "raw_lines (env_text workdir cfg) = ?es" by (simp add: raw_lines_def)
  have cr: "drop_cr e = e" "TrimSpace e = e" if "e \<in> set ?es" for e
    using that assms(1) TrimSpace_trimmed [of e]
    by (auto simp: line_safe_def drop_cr_def trimmed_def printable_def)
  have all: "list_all (\<lambda>l. length l \<le> max_line) ?es" using assms(1) by (auto simp: list_all_iff line_safe_def)
  have tw: "takeWhile (\<lambda>l. length l \<le> max_line) ?es = ?es"
    by (rule takeWhile_all) (use all in \<open>simp add: list_all_iff\<close>)
  have scan: "scan_lines (env_text workdir cfg) = (map drop_cr ?es, None)"
    unfolding scan_lines_def raw tw using all by simp
  have "env_lines (map drop_cr ?es) = ?es"
  proof -
    have "map TrimSpace (map drop_cr ?es) = ?es" using cr by (simp add: map_idI)
    then show ?thesis using build_env_starts by (simp add: env_lines_def del: map_map)
  qed
  with scan assms(2,3) show ?thesis
    by (simp add: readEnvFile_def catchE_def tryE_def os_OpenRead_def os_ReadFile_def fs_read_def next_fault_def ret_def)
qed

definition env_cfg :: config where
  "env_cfg = old_pin\<lparr>LocalVer := ''-ossein'', DebianSuite := ''trixie'', AptSnapshot := ''20260701T025158Z''\<rparr>"

lemma build_env_round_trip_witness:
  "\<exists>g. readEnvFile envFile (g :: world) =
     (Inr (base_env @ [''LOCALVERSION=-ossein'', ''OSSEIN_DEBIAN_SUITE=trixie'',
        ''OSSEIN_APT_SNAPSHOT=20260701T025158Z'', ''OSSEIN_SOURCE_TARBALL=source.tar.xz'']), g)"
proof -
  have e: "build_env ''w'' env_cfg = [''LOCALVERSION=-ossein'', ''OSSEIN_DEBIAN_SUITE=trixie'',
      ''OSSEIN_APT_SNAPSHOT=20260701T025158Z'', ''OSSEIN_SOURCE_TARBALL=source.tar.xz'']" by code_simp
  let ?g = "\<lparr>fs = [envFile \<mapsto> NFile (env_text ''w'' env_cfg) 384], hist = [], log = [], faults = [], umask = 0\<rparr> :: world"
  have "\<forall>e \<in> set (build_env ''w'' env_cfg). line_safe e"
    unfolding e by (simp add: line_safe_def trimmed_def printable_def max_line_def)
  from build_env_round_trip [OF this, of ?g] show ?thesis unfolding e by (intro exI [of _ ?g]) simp
qed

end
